(* ===== verification/Prelude.thy ===== *)
theory Prelude
  imports Main "HOL-Library.State_Monad" "HOL-Library.Sublist" "HOL-Library.AList"
    "HOL-Library.Word" "HOL-Library.List_Lexorder" "HOL-Library.Char_ord"
begin

text \<open>
  Shared vocabulary of the development.

  \<^item> \<open>go_int\<close>, \<open>u64\<close>, \<open>duration\<close>: the integer types of the Go sources. A Go \<open>int\<close> or
    \<open>int64\<close> is an \<open>int\<close>; where the sources can overflow it the wrap-around is written out
    with \<open>wrap64\<close>. A \<open>uint64\<close> is a \<open>64 word\<close>.
  \<^item> Stateful code is a value of the library's state monad, \<open>('s, 'a) state\<close>. Two small
    calculi carry the proofs about such code: \<open>keeps f m\<close> (the program \<open>m\<close> leaves the
    projection \<open>f\<close> of the state alone) and \<open>triple P m Q\<close> (if \<open>P\<close> holds before, \<open>Q\<close> holds
    of the result and of the state after). Their rules are in the collections \<open>keeps_rules\<close>
    and \<open>triple_rules\<close>.
  \<^item> \<open>AList\<close> lemmas for Go maps held as association lists.
\<close>

named_theorems keeps_rules "frame rules of the state monad"
named_theorems triple_rules "Hoare rules of the state monad"
named_theorems go_simps "equations of the Go library functions used for evaluation"

type_synonym go_int = int
type_synonym u64 = "64 word"
type_synonym duration = int

section \<open>Sixty-four bit signed arithmetic\<close>

definition max_int64 :: int where
  "max_int64 = 9223372036854775807"

definition min_int64 :: int where
  "min_int64 = -9223372036854775808"

definition wrap64 :: "int \<Rightarrow> int" where
  "wrap64 x = (x + 9223372036854775808) mod 18446744073709551616 - 9223372036854775808"

lemma wrap64_bounds: "min_int64 \<le> wrap64 x \<and> wrap64 x \<le> max_int64"
  using pos_mod_sign [of 18446744073709551616 "x + 9223372036854775808"]
    pos_mod_bound [of 18446744073709551616 "x + 9223372036854775808"]
  unfolding wrap64_def min_int64_def max_int64_def by simp

lemma wrap64_id:
  assumes "min_int64 \<le> x" and "x \<le> max_int64"
  shows "wrap64 x = x"
  using assms unfolding wrap64_def min_int64_def max_int64_def by simp

section \<open>Unsigned counters\<close>

lemma unat_max_u64: "unat (- 1 :: u64) = 18446744073709551615"
  by (simp add: unsigned_minus_1_eq_mask mask_eq_exp_minus_1)

lemma unat_Suc_u64: "(x::u64) \<noteq> - 1 \<Longrightarrow> unat (x + 1) = Suc (unat x)"
  by (simp add: add.commute add_eq_0_iff unatSuc)

lemma u64_Suc_greater: "(x::u64) \<noteq> - 1 \<Longrightarrow> x < x + 1"
  by (simp add: word_less_nat_alt unat_Suc_u64)

lemma u64_Suc_pos: "(x::u64) \<noteq> - 1 \<Longrightarrow> 0 < x + 1"
  by (simp add: word_less_nat_alt unat_Suc_u64)

lemma u64_not_max: "unat (x::u64) + Suc n < 2 ^ 64 \<Longrightarrow> x \<noteq> - 1"
  by (auto simp: unat_max_u64)

section \<open>Reading and changing the state\<close>

definition ask :: "('s \<Rightarrow> 'a) \<Rightarrow> ('s, 'a) state" where
  "ask f = State (\<lambda>s. (f s, s))"

definition upd :: "('s \<Rightarrow> 's) \<Rightarrow> ('s, unit) state" where
  "upd f = State (\<lambda>s. ((), f s))"

lemma run_ask [simp]: "run_state (ask f) s = (f s, s)"
  by (simp add: ask_def)

lemma run_upd [simp]: "run_state (upd f) s = ((), f s)"
  by (simp add: upd_def)

lemma run_bind:
  "run_state (State_Monad.bind m k) s = run_state (k (fst (run_state m s))) (snd (run_state m s))"
  by (simp add: split_beta)

section \<open>Frame rules for the state monad\<close>

definition keeps :: "('s \<Rightarrow> 'x) \<Rightarrow> ('s, 'a) state \<Rightarrow> bool" where
  "keeps f m \<longleftrightarrow> (\<forall>s. f (snd (run_state m s)) = f s)"

lemma keepsD: "keeps f m \<Longrightarrow> f (snd (run_state m s)) = f s"
  by (simp add: keeps_def)

lemma keepsD2: "keeps f m \<Longrightarrow> run_state m s = (x, s') \<Longrightarrow> f s' = f s"
  by (metis keepsD snd_conv)

lemma keeps_return [keeps_rules]: "keeps f (State_Monad.return x)"
  by (simp add: keeps_def)

lemma keeps_bind [keeps_rules]:
  assumes "keeps f m" and "\<And>x. keeps f (k x)"
  shows "keeps f (State_Monad.bind m k)"
  using assms by (simp add: keeps_def split: prod.split) (metis snd_conv)

lemma keeps_ask [keeps_rules]: "keeps f (ask g)"
  by (simp add: keeps_def)

lemma keeps_upd [keeps_rules]: "(\<And>s. f (g s) = f s) \<Longrightarrow> keeps f (upd g)"
  by (simp add: keeps_def)

lemma keeps_get [keeps_rules]: "keeps f State_Monad.get"
  by (simp add: keeps_def)

lemma keeps_if [keeps_rules]:
  "(b \<Longrightarrow> keeps f m) \<Longrightarrow> (\<not> b \<Longrightarrow> keeps f n) \<Longrightarrow> keeps f (if b then m else n)"
  by simp

lemma keeps_option [keeps_rules]:
  "(\<And>y. x = Some y \<Longrightarrow> keeps f (k y)) \<Longrightarrow> (x = None \<Longrightarrow> keeps f n) \<Longrightarrow>
    keeps f (case x of None \<Rightarrow> n | Some y \<Rightarrow> k y)"
  by (cases x) auto

lemma keeps_prod [keeps_rules]:
  "(\<And>a b. p = (a, b) \<Longrightarrow> keeps f (k a b)) \<Longrightarrow> keeps f (case p of (a, b) \<Rightarrow> k a b)"
  by (cases p) auto

lemma keeps_list [keeps_rules]:
  "(xs = [] \<Longrightarrow> keeps f m) \<Longrightarrow> (\<And>y ys. xs = y # ys \<Longrightarrow> keeps f (k y ys)) \<Longrightarrow>
    keeps f (case xs of [] \<Rightarrow> m | y # ys \<Rightarrow> k y ys)"
  by (cases xs) auto

lemma keeps_let [keeps_rules]: "keeps f (k v) \<Longrightarrow> keeps f (let x = v in k x)"
  by simp

section \<open>Hoare triples for the state monad\<close>

definition triple :: "('s \<Rightarrow> bool) \<Rightarrow> ('s, 'a) state \<Rightarrow> ('a \<Rightarrow> 's \<Rightarrow> bool) \<Rightarrow> bool" where
  "triple P m Q \<longleftrightarrow> (\<forall>s. P s \<longrightarrow> Q (fst (run_state m s)) (snd (run_state m s)))"

lemma tripleD: "triple P m Q \<Longrightarrow> P s \<Longrightarrow> Q (fst (run_state m s)) (snd (run_state m s))"
  by (simp add: triple_def)

lemma tripleD2: "triple P m Q \<Longrightarrow> P s \<Longrightarrow> run_state m s = (x, s') \<Longrightarrow> Q x s'"
  by (metis tripleD fst_conv snd_conv)

lemma triple_return [triple_rules]: "(\<And>s. P s \<Longrightarrow> Q x s) \<Longrightarrow> triple P (State_Monad.return x) Q"
  by (simp add: triple_def)

lemma triple_bind [triple_rules]:
  assumes "triple P m R" and "\<And>x. triple (R x) (k x) Q"
  shows "triple P (State_Monad.bind m k) Q"
  using assms by (simp add: triple_def split: prod.split) (metis fst_conv snd_conv)

lemma triple_ask [triple_rules]: "(\<And>s. P s \<Longrightarrow> Q (g s) s) \<Longrightarrow> triple P (ask g) Q"
  by (simp add: triple_def)

lemma triple_upd [triple_rules]: "(\<And>s. P s \<Longrightarrow> Q () (g s)) \<Longrightarrow> triple P (upd g) Q"
  by (simp add: triple_def)

lemma triple_keeps: "keeps f m \<Longrightarrow> triple (\<lambda>s. P (f s)) m (\<lambda>_ s. P (f s))"
  by (simp add: triple_def keeps_def)

lemma triple_weaken:
  assumes "triple P m Q" and "\<And>s. P' s \<Longrightarrow> P s" and "\<And>x s. Q x s \<Longrightarrow> Q' x s"
  shows "triple P' m Q'"
  using assms by (simp add: triple_def)

lemma triple_if [triple_rules]:
  "(b \<Longrightarrow> triple P m Q) \<Longrightarrow> (\<not> b \<Longrightarrow> triple P n Q) \<Longrightarrow> triple P (if b then m else n) Q"
  by simp

lemma triple_option [triple_rules]:
  "(\<And>y. x = Some y \<Longrightarrow> triple P (k y) Q) \<Longrightarrow> (x = None \<Longrightarrow> triple P n Q) \<Longrightarrow>
    triple P (case x of None \<Rightarrow> n | Some y \<Rightarrow> k y) Q"
  by (cases x) auto

lemma triple_prod [triple_rules]:
  "(\<And>a b. p = (a, b) \<Longrightarrow> triple P (k a b) Q) \<Longrightarrow> triple P (case p of (a, b) \<Rightarrow> k a b) Q"
  by (cases p) auto

lemma triple_let [triple_rules]: "triple P (k v) Q \<Longrightarrow> triple P (let x = v in k x) Q"
  by simp

section \<open>Go maps as association lists\<close>

lemma map_of_update [simp]: "map_of (AList.update k v al) = (map_of al)(k \<mapsto> v)"
  by (rule AList.update_conv')

lemma map_of_alist_delete [simp]: "map_of (AList.delete k al) = (map_of al)(k := None)"
  by (rule AList.delete_conv')

lemma distinct_keys_update [simp]:
  "distinct (map fst al) \<Longrightarrow> distinct (map fst (AList.update k v al))"
  by (rule AList.distinct_update)

lemma distinct_keys_delete [simp]:
  "distinct (map fst al) \<Longrightarrow> distinct (map fst (AList.delete k al))"
  by (rule AList.distinct_delete)

lemma map_of_distinct_iff:
  "distinct (map fst al) \<Longrightarrow> (map_of al k = Some v) \<longleftrightarrow> (k, v) \<in> set al"
  by (simp add: map_of_eq_Some_iff)

section \<open>State machines\<close>

text \<open>
  What the proofs about the state machines of the library rely on: a step relation, and the states
  reachable by it. An invariant of the steps holds in every state reachable from one that has it.
\<close>

locale step_system =
  fixes step :: "'s \<Rightarrow> 's \<Rightarrow> bool"
    and reach :: "'s \<Rightarrow> 's \<Rightarrow> bool"
  assumes reach_refl: "reach s s"
    and reach_step: "reach s t \<Longrightarrow> step t u \<Longrightarrow> reach s u"
    and reach_ind: "reach s t \<Longrightarrow> P s \<Longrightarrow> (\<And>t u. P t \<Longrightarrow> step t u \<Longrightarrow> P u) \<Longrightarrow> P t"
begin

lemma reach_trans: "reach t u \<Longrightarrow> reach s t \<Longrightarrow> reach s u"
  by (rule reach_ind [of t u "reach s"]) (auto intro: reach_step)

end

locale step_invariant = step_system step reach for step :: "'s \<Rightarrow> 's \<Rightarrow> bool" and reach +
  fixes inv :: "'s \<Rightarrow> bool"
  assumes inv_step: "inv s \<Longrightarrow> step s t \<Longrightarrow> inv t"
begin

lemma reach_inv: "reach s t \<Longrightarrow> inv s \<Longrightarrow> inv t"
  by (rule reach_ind [of s t inv]) (auto intro: inv_step)

end

end
