(* ===== verification/GoStd.thy ===== *)
theory GoStd
  imports Prelude
begin

text \<open>
  The functions of Go's \<open>strings\<close>, \<open>bytes\<close>, \<open>strconv\<close> and \<open>unicode/utf8\<close> packages and of \<open>time.Duration\<close> that the
  sources call. A Go string is a sequence of bytes, and a \<open>string\<close> here is a list of \<open>char\<close>,
  HOL's type of bytes, so lengths and indices agree. \<open>Index\<close> returns \<open>-1\<close> for ``not found'' in
  Go and \<open>None\<close> here.

  \<open>ToLower\<close> and \<open>TrimSpace\<close> work on code points in Go. \<open>ToLower\<close> is exact on ASCII text and
  on the two code points beyond ASCII whose lower case is an ASCII letter (U+0130 and U+212A);
  it leaves the bytes of the other code points alone, which every caller only searches for
  ASCII patterns. \<open>TrimSpace\<close> and \<open>Fields\<close> know the UTF-8 encodings of all of Go's
  white space.
\<close>

section \<open>Searching and cutting\<close>

definition has_prefix :: "string \<Rightarrow> string \<Rightarrow> bool" where
  "has_prefix s p \<longleftrightarrow> prefix p s"

definition has_suffix :: "string \<Rightarrow> string \<Rightarrow> bool" where
  "has_suffix s p \<longleftrightarrow> suffix p s"

fun str_index :: "string \<Rightarrow> string \<Rightarrow> nat option" where
  "str_index [] p = (if p = [] then Some 0 else None)"
| "str_index (c # cs) p =
     (if prefix p (c # cs) then Some 0 else map_option Suc (str_index cs p))"

fun str_last_index :: "string \<Rightarrow> string \<Rightarrow> nat option" where
  "str_last_index [] p = (if p = [] then Some 0 else None)"
| "str_last_index (c # cs) p =
     (case str_last_index cs p of
        Some i \<Rightarrow> Some (Suc i)
      | None \<Rightarrow> if prefix p (c # cs) then Some 0 else None)"

definition contains :: "string \<Rightarrow> string \<Rightarrow> bool" where
  "contains s p \<longleftrightarrow> str_index s p \<noteq> None"

definition trim_prefix :: "string \<Rightarrow> string \<Rightarrow> string" where
  "trim_prefix s p = (if prefix p s then drop (length p) s else s)"

definition trim_suffix :: "string \<Rightarrow> string \<Rightarrow> string" where
  "trim_suffix s p = (if suffix p s then take (length s - length p) s else s)"

fun split_on :: "char \<Rightarrow> string \<Rightarrow> string list" where
  "split_on c [] = [[]]"
| "split_on c (x # xs) =
     (if x = c then [] # split_on c xs
      else (case split_on c xs of [] \<Rightarrow> [[x]] | y # ys \<Rightarrow> (x # y) # ys))"

fun join :: "string \<Rightarrow> string list \<Rightarrow> string" where
  "join sep [] = []"
| "join sep [x] = x"
| "join sep (x # y # ys) = x @ sep @ join sep (y # ys)"

fun cut :: "char \<Rightarrow> string \<Rightarrow> string \<times> string \<times> bool" where
  "cut c [] = ([], [], False)"
| "cut c (x # xs) =
     (if x = c then ([], xs, True)
      else (case cut c xs of (a, b, ok) \<Rightarrow> (x # a, b, ok)))"

definition trim_right_byte :: "char \<Rightarrow> string \<Rightarrow> string" where
  "trim_right_byte c s = rev (dropWhile (\<lambda>x. x = c) (rev s))"

section \<open>Case and white space\<close>

definition lower_byte :: "char \<Rightarrow> char" where
  "lower_byte c = (if 65 \<le> (of_char c :: nat) \<and> (of_char c :: nat) \<le> 90
     then char_of ((of_char c :: nat) + 32) else c)"

definition upper_byte :: "char \<Rightarrow> char" where
  "upper_byte c = (if 97 \<le> (of_char c :: nat) \<and> (of_char c :: nat) \<le> 122
     then char_of ((of_char c :: nat) - 32) else c)"

fun to_lower :: "string \<Rightarrow> string" where
  "to_lower [] = []"
| "to_lower (c # cs) =
     (if c = CHR 0xC4 \<and> take 1 cs = [CHR 0xB0] then CHR ''i'' # to_lower (drop 1 cs)
      else if c = CHR 0xE2 \<and> take 2 cs = [CHR 0x84, CHR 0xAA] then CHR ''k'' # to_lower (drop 2 cs)
      else lower_byte c # to_lower cs)"

declare to_lower.simps [simp del]

definition white_space :: "string list" where
  "white_space =
     [[CHR '' ''], [CHR 0x0A], [CHR 0x09], [CHR 0x0B], [CHR 0x0C], [CHR 0x0D],
      [CHR 0xC2, CHR 0x85], [CHR 0xC2, CHR 0xA0], [CHR 0xE1, CHR 0x9A, CHR 0x80],
      [CHR 0xE2, CHR 0x80, CHR 0x80], [CHR 0xE2, CHR 0x80, CHR 0x81], [CHR 0xE2, CHR 0x80, CHR 0x82],
      [CHR 0xE2, CHR 0x80, CHR 0x83], [CHR 0xE2, CHR 0x80, CHR 0x84], [CHR 0xE2, CHR 0x80, CHR 0x85],
      [CHR 0xE2, CHR 0x80, CHR 0x86], [CHR 0xE2, CHR 0x80, CHR 0x87], [CHR 0xE2, CHR 0x80, CHR 0x88],
      [CHR 0xE2, CHR 0x80, CHR 0x89], [CHR 0xE2, CHR 0x80, CHR 0x8A], [CHR 0xE2, CHR 0x80, CHR 0xA8],
      [CHR 0xE2, CHR 0x80, CHR 0xA9], [CHR 0xE2, CHR 0x80, CHR 0xAF], [CHR 0xE2, CHR 0x81, CHR 0x9F],
      [CHR 0xE3, CHR 0x80, CHR 0x80]]"

text \<open>
  \<open>strip ws s\<close> removes members of \<open>ws\<close> from the front of \<open>s\<close> as long as there is one. Every
  member is non-empty, so the length of the string bounds the number of rounds.
\<close>

fun strip_fuel :: "nat \<Rightarrow> string list \<Rightarrow> string \<Rightarrow> string" where
  "strip_fuel 0 ws s = s"
| "strip_fuel (Suc n) ws s =
     (case find (\<lambda>w. prefix w s) ws of None \<Rightarrow> s | Some w \<Rightarrow> strip_fuel n ws (drop (length w) s))"

definition trim_space :: "string \<Rightarrow> string" where
  "trim_space s =
     (let l = strip_fuel (length s) white_space s
      in rev (strip_fuel (length l) (map rev white_space) (rev l)))"

fun fields_fuel :: "nat \<Rightarrow> string \<Rightarrow> string \<Rightarrow> string list" where
  "fields_fuel 0 acc s = (if acc = [] then [] else [rev acc])"
| "fields_fuel (Suc n) acc [] = (if acc = [] then [] else [rev acc])"
| "fields_fuel (Suc n) acc (c # cs) =
     (case find (\<lambda>w. prefix w (c # cs)) white_space of
        Some w \<Rightarrow> (if acc = [] then [] else [rev acc]) @ fields_fuel n [] (drop (length w) (c # cs))
      | None \<Rightarrow> fields_fuel n (c # acc) cs)"

definition fields :: "string \<Rightarrow> string list" where
  "fields s = fields_fuel (Suc (length s)) [] s"

section \<open>Numbers\<close>

definition digit_val :: "char \<Rightarrow> nat option" where
  "digit_val c = (if 48 \<le> (of_char c :: nat) \<and> (of_char c :: nat) \<le> 57
     then Some ((of_char c :: nat) - 48) else None)"

fun parse_digits :: "int \<Rightarrow> string \<Rightarrow> int option" where
  "parse_digits acc [] = Some acc"
| "parse_digits acc (c # cs) =
     (case digit_val c of None \<Rightarrow> None | Some d \<Rightarrow> parse_digits (acc * 10 + int d) cs)"

text \<open>
  \<open>strconv.Atoi\<close>: the value and whether the error is nil. A syntax error has value 0, a number
  out of the range of \<open>int64\<close> has the nearest bound.
\<close>

definition atoi :: "string \<Rightarrow> int \<times> bool" where
  "atoi s =
     (let neg = has_prefix s ''-'';
          body = (if neg \<or> has_prefix s ''+'' then drop 1 s else s)
      in if body = [] then (0, False)
         else (case parse_digits 0 body of
                 None \<Rightarrow> (0, False)
               | Some n \<Rightarrow>
                   let v = (if neg then - n else n)
                   in if v > max_int64 then (max_int64, False)
                      else if v < min_int64 then (min_int64, False)
                      else (v, True)))"

fun nat_digits :: "nat \<Rightarrow> string" where
  "nat_digits n =
     (if n < 10 then [char_of (48 + n)] else nat_digits (n div 10) @ [char_of (48 + n mod 10)])"

declare nat_digits.simps [simp del]

definition itoa :: "int \<Rightarrow> string" where
  "itoa i = (if i < 0 then CHR ''-'' # nat_digits (nat (- i)) else nat_digits (nat i))"

text \<open>
  \<open>time.Duration.String\<close>, of a duration in nanoseconds. \<open>frac_digits v prec\<close> is the fraction
  \<open>v mod 10^prec\<close> with its point and without trailing zeros.
\<close>

definition frac_digits :: "nat \<Rightarrow> nat \<Rightarrow> string" where
  "frac_digits v prec =
     (let ds = nat_digits (v mod 10 ^ prec);
          padded = replicate (prec - length ds) (CHR ''0'') @ ds;
          trimmed = trim_right_byte (CHR ''0'') padded
      in if trimmed = [] then [] else CHR ''.'' # trimmed)"

definition duration_string :: "duration \<Rightarrow> string" where
  "duration_string d =
     (let u = nat \<bar>d\<bar>;
          sign = (if d < 0 then ''-'' else []);
          secs = u div 1000000000;
          mins = secs div 60
      in if u = 0 then ''0s''
         else if u < 1000 then sign @ nat_digits u @ ''ns''
         else if u < 1000000 then sign @ nat_digits (u div 1000) @ frac_digits u 3 @ [CHR 0xC2, CHR 0xB5, CHR ''s'']
         else if u < 1000000000 then sign @ nat_digits (u div 1000000) @ frac_digits u 6 @ ''ms''
         else sign @ (if mins div 60 > 0 then nat_digits (mins div 60) @ ''h'' else [])
                @ (if mins > 0 then nat_digits (mins mod 60) @ ''m'' else [])
                @ nat_digits (secs mod 60) @ frac_digits u 9 @ ''s'')"

definition rune_start :: "char \<Rightarrow> bool" where
  "rune_start c \<longleftrightarrow> (of_char c :: nat) div 64 \<noteq> 2"

definition ellipsis :: string where
  "ellipsis = [CHR 0xE2, CHR 0x80, CHR 0xA6]"

definition em_dash :: string where
  "em_dash = [CHR 0xE2, CHR 0x80, CHR 0x94]"

section \<open>Facts about searching and cutting\<close>

lemma str_index_Some_iff:
  "str_index s p = Some i \<Longrightarrow> i \<le> length s \<and> prefix p (drop i s)"
  by (induction s arbitrary: i) (auto split: if_splits)

lemma str_index_None: "str_index s p = None \<Longrightarrow> \<not> sublist p s"
  by (induction s) (auto split: if_splits simp: sublist_Cons_right)

lemma contains_iff: "contains s p \<longleftrightarrow> sublist p s"
proof
  assume "contains s p"
  then obtain i where "str_index s p = Some i" by (auto simp: contains_def)
  then have "prefix p (drop i s)" by (simp add: str_index_Some_iff)
  then show "sublist p s" by (meson sublist_drop prefix_imp_sublist sublist_order.order_trans)
next
  assume "sublist p s"
  then show "contains s p" unfolding contains_def using str_index_None by blast
qed

lemma contains_append: "contains s p \<Longrightarrow> contains (a @ s @ b) p"
  unfolding contains_iff by (meson sublist_appendI sublist_order.order_trans)

lemma split_on_not_Nil [simp]: "split_on c s \<noteq> []"
  by (induction s) (auto split: list.splits)

lemma join_Cons: "xs \<noteq> [] \<Longrightarrow> join sep (x # xs) = x @ sep @ join sep xs"
  by (cases xs) auto

lemma join_split_on: "join [c] (split_on c s) = s"
proof (induction s)
  case Nil
  then show ?case by simp
next
  case (Cons x xs)
  obtain y ys where ys: "split_on c xs = y # ys" by (cases "split_on c xs") auto
  show ?case
  proof (cases "x = c")
    case True
    then show ?thesis using Cons by (simp add: join_Cons)
  next
    case False
    then show ?thesis using Cons ys by (cases ys) auto
  qed
qed

lemma split_on_none: "c \<notin> set s \<Longrightarrow> split_on c s = [s]"
  by (induction s) auto

lemma split_on_append: "c \<notin> set x \<Longrightarrow> split_on c (x @ c # s) = x # split_on c s"
  by (induction x) auto

lemma split_on_join:
  assumes "xs \<noteq> []" and "\<And>x. x \<in> set xs \<Longrightarrow> c \<notin> set x"
  shows "split_on c (join [c] xs) = xs"
  using assms
proof (induction xs)
  case Nil
  then show ?case by simp
next
  case (Cons x xs)
  then show ?case
    by (cases xs) (auto simp: split_on_none split_on_append)
qed

lemma split_on_no_sep: "x \<in> set (split_on c s) \<Longrightarrow> c \<notin> set x"
proof (induction s arbitrary: x)
  case Nil
  then show ?case by simp
next
  case (Cons a s)
  then show ?case by (cases "split_on c s") (auto split: if_splits)
qed

section \<open>Facts about trimming\<close>

lemma suffix_strip_fuel: "suffix (strip_fuel n ws s) s"
proof (induction n arbitrary: s)
  case 0
  then show ?case by simp
next
  case (Suc n)
  then show ?case by (auto split: option.split) (meson suffix_drop suffix_order.trans)
qed

lemma length_strip_fuel: "length (strip_fuel n ws s) \<le> length s"
  by (rule suffix_length_le [OF suffix_strip_fuel])

lemma strip_fuel_done:
  assumes "\<And>w. w \<in> set ws \<Longrightarrow> w \<noteq> []" and "length s \<le> n"
  shows "find (\<lambda>w. prefix w (strip_fuel n ws s)) ws = None"
  using assms(2)
proof (induction n arbitrary: s)
  case 0
  then show ?case using assms(1) by (auto simp: find_None_iff)
next
  case (Suc n)
  show ?case
  proof (cases "find (\<lambda>w. prefix w s) ws")
    case None
    then show ?thesis by simp
  next
    case (Some w)
    then have "w \<noteq> []" and "prefix w s" using assms(1) by (auto simp: find_Some_iff)
    then have "length (drop (length w) s) \<le> n"
      using Suc.prems by (cases w) (auto dest: prefix_length_le)
    then show ?thesis using Some Suc.IH by simp
  qed
qed

lemma strip_fuel_idle: "find (\<lambda>w. prefix w s) ws = None \<Longrightarrow> strip_fuel n ws s = s"
  by (cases n) auto

lemma white_space_nonempty: "w \<in> set white_space \<Longrightarrow> w \<noteq> []"
  by (auto simp: white_space_def)

lemma length_trim_space: "length (trim_space s) \<le> length s"
  unfolding trim_space_def Let_def
  by (metis length_rev length_strip_fuel order_trans)

lemma trim_space_sublist: "sublist (trim_space s) s"
proof -
  let ?l = "strip_fuel (length s) white_space s"
  have "suffix (strip_fuel (length ?l) (map rev white_space) (rev ?l)) (rev ?l)"
    by (rule suffix_strip_fuel)
  then have "prefix (trim_space s) ?l"
    unfolding trim_space_def Let_def by (simp add: suffix_to_prefix)
  moreover have "suffix ?l s" by (rule suffix_strip_fuel)
  ultimately show ?thesis
    by (meson prefix_imp_sublist suffix_imp_sublist sublist_order.order_trans)
qed

lemma trim_space_id:
  assumes "\<And>w. w \<in> set white_space \<Longrightarrow> \<not> prefix w s"
    and "\<And>w. w \<in> set white_space \<Longrightarrow> \<not> suffix w s"
  shows "trim_space s = s"
proof -
  have "strip_fuel (length s) white_space s = s"
    using assms(1) by (intro strip_fuel_idle) (auto simp: find_None_iff)
  moreover have "strip_fuel (length s) (map rev white_space) (rev s) = rev s"
    using assms(2) by (intro strip_fuel_idle) (auto simp: find_None_iff suffix_to_prefix)
  ultimately show ?thesis by (simp add: trim_space_def Let_def)
qed

lemma trim_space_idem [simp]: "trim_space (trim_space s) = trim_space s"
proof (rule trim_space_id)
  let ?l = "strip_fuel (length s) white_space s"
  have front: "find (\<lambda>w. prefix w ?l) white_space = None"
    by (rule strip_fuel_done) (auto dest: white_space_nonempty)
  have rear: "find (\<lambda>w. prefix w (rev (trim_space s))) (map rev white_space) = None"
    unfolding trim_space_def Let_def rev_rev_ident
    by (rule strip_fuel_done) (auto dest: white_space_nonempty)
  have pre: "prefix (trim_space s) ?l"
    unfolding trim_space_def Let_def using suffix_strip_fuel [of "length ?l" "map rev white_space" "rev ?l"]
    by (simp add: suffix_to_prefix)
  fix w assume w: "w \<in> set white_space"
  show "\<not> prefix w (trim_space s)"
    using front w pre by (auto simp: find_None_iff)
  show "\<not> suffix w (trim_space s)"
    using rear w by (auto simp: find_None_iff suffix_to_prefix)
qed

section \<open>Facts about numbers\<close>

lemma of_char_digit: "d < (10::nat) \<Longrightarrow> (of_char (char_of (48 + d) :: char) :: nat) = 48 + d"
  by (simp add: of_char_of)

lemma digit_val_digit: "d < (10::nat) \<Longrightarrow> digit_val (char_of (48 + d)) = Some d"
  by (simp add: digit_val_def of_char_digit)

lemma parse_digits_append:
  "parse_digits a (xs @ ys) = (case parse_digits a xs of None \<Rightarrow> None | Some b \<Rightarrow> parse_digits b ys)"
  by (induction xs arbitrary: a) (auto split: option.split)

lemma nat_digits_nonempty [simp]: "nat_digits n \<noteq> []"
  by (subst nat_digits.simps) simp

lemma parse_nat_digits: "parse_digits 0 (nat_digits n) = Some (int n)"
proof (induction n rule: nat_digits.induct)
  case (1 n)
  show ?case
  proof (cases "n < 10")
    case True
    then show ?thesis by (subst nat_digits.simps) (simp add: digit_val_digit)
  next
    case False
    then have "parse_digits 0 (nat_digits (n div 10)) = Some (int (n div 10))" using 1 by simp
    moreover have "int (n div 10) * 10 + int (n mod 10) = int n" by presburger
    ultimately show ?thesis using False
      by (subst nat_digits.simps) (simp add: parse_digits_append digit_val_digit)
  qed
qed

lemma hd_nat_digits: "\<exists>d < (10::nat). \<exists>r. nat_digits n = char_of (48 + d) # r"
proof (induction n rule: nat_digits.induct)
  case (1 n)
  show ?case
  proof (cases "n < 10")
    case True
    then show ?thesis by (subst nat_digits.simps) auto
  next
    case False
    then obtain d r where "d < (10::nat)" "nat_digits (n div 10) = char_of (48 + d) # r" using 1 by auto
    then show ?thesis using False by (subst nat_digits.simps) auto
  qed
qed

lemma digit_char_neq:
  assumes "d < (10::nat)"
  shows "(char_of (48 + d) :: char) \<noteq> CHR ''-''" and "(char_of (48 + d) :: char) \<noteq> CHR ''+''"
proof -
  have m: "(of_char (CHR ''-'') :: nat) = 45" and p: "(of_char (CHR ''+'') :: nat) = 43" by simp_all
  show "(char_of (48 + d) :: char) \<noteq> CHR ''-''"
  proof
    assume "(char_of (48 + d) :: char) = CHR ''-''"
    then have "48 + d = 45" using of_char_digit [OF assms] m by metis
    then show False by simp
  qed
  show "(char_of (48 + d) :: char) \<noteq> CHR ''+''"
  proof
    assume "(char_of (48 + d) :: char) = CHR ''+''"
    then have "48 + d = 43" using of_char_digit [OF assms] p by metis
    then show False by simp
  qed
qed

lemma atoi_itoa:
  assumes "min_int64 \<le> i" and "i \<le> max_int64"
  shows "atoi (itoa i) = (i, True)"
proof -
  obtain d r where d: "d < (10::nat)" and r: "nat_digits (nat \<bar>i\<bar>) = char_of (48 + d) # r"
    using hd_nat_digits by blast
  have p: "parse_digits 0 (char_of (48 + d) # r) = Some \<bar>i\<bar>"
    using parse_nat_digits [of "nat \<bar>i\<bar>"] r by simp
  show ?thesis
  proof (cases "i < 0")
    case True
    then have "itoa i = CHR ''-'' # char_of (48 + d) # r" using r by (simp add: itoa_def)
    then show ?thesis using p True assms by (simp add: atoi_def has_prefix_def Let_def)
  next
    case False
    then have "itoa i = char_of (48 + d) # r" using r by (simp add: itoa_def)
    then show ?thesis using p False assms digit_char_neq [OF d]
      by (simp add: atoi_def has_prefix_def Let_def)
  qed
qed

lemma atoi_range: "min_int64 \<le> fst (atoi s) \<and> fst (atoi s) \<le> max_int64"
  unfolding atoi_def Let_def
  by (auto simp: min_int64_def max_int64_def split: option.split)

lemma digit_val_nat_digits: "c \<in> set (nat_digits n) \<Longrightarrow> digit_val c \<noteq> None"
proof (induction n rule: nat_digits.induct)
  case (1 n)
  show ?case
  proof (cases "n < 10")
    case True
    then have "nat_digits n = [char_of (48 + n)]" by (subst nat_digits.simps) simp
    then show ?thesis using 1(2) True by (simp add: digit_val_digit)
  next
    case False
    then have "nat_digits n = nat_digits (n div 10) @ [char_of (48 + n mod 10)]"
      by (subst nat_digits.simps) simp
    then show ?thesis using 1 False by (auto simp: digit_val_digit)
  qed
qed

lemma white_space_no_digit:
  "w \<in> set white_space \<Longrightarrow> digit_val (hd w) = None \<and> digit_val (last w) = None"
  by (simp add: white_space_def) (elim disjE; simp add: digit_val_def)

lemma trim_space_itoa: "0 \<le> i \<Longrightarrow> trim_space (itoa i) = itoa i"
proof (rule trim_space_id)
  assume "0 \<le> i"
  then have i: "itoa i = nat_digits (nat i)" by (simp add: itoa_def)
  fix w assume w: "w \<in> set white_space"
  then have ne: "w \<noteq> []" by (rule white_space_nonempty)
  show "\<not> prefix w (itoa i)"
  proof
    assume "prefix w (itoa i)"
    then have "hd w \<in> set (nat_digits (nat i))" using ne i by (auto simp: prefix_def)
    then show False using digit_val_nat_digits white_space_no_digit [OF w] by blast
  qed
  show "\<not> suffix w (itoa i)"
  proof
    assume "suffix w (itoa i)"
    then have "last w \<in> set (nat_digits (nat i))" using ne i by (auto simp: suffix_def)
    then show False using digit_val_nat_digits white_space_no_digit [OF w] by blast
  qed
qed

end
