(* ===== verification/Events.thy ===== *)
theory Events
  imports GoStd
begin

text \<open>
  \<open>common/events.go\<close>: events, and the event log the daemon keeps of them.

  The log is a ring buffer (\<open>el_buf\<close>, \<open>el_start\<close>, \<open>el_count\<close>) with a file behind it. The file is
  held as the list of its lines (\<open>disk\<close>); one line is one JSON document, and the JSON codec is a
  pair of parameters \<open>enc\<close> (\<open>json.Marshal\<close>) and \<open>dec\<close> (\<open>json.Unmarshal\<close> into an \<open>Event\<close>).
  The outcome of the file operations is an argument of the operations that use them.

  The first half shows that the ring buffer is a bounded queue (\<open>bounded_log\<close>, interpreted on
  the model), the second that identifiers increase, what \<open>Since\<close> returns, and that a daemon that
  restarts finds the events of its predecessor.
\<close>

section \<open>Events\<close>

definition EventCommit :: string where [simp]: "EventCommit = ''commit''"
definition EventPull :: string where [simp]: "EventPull = ''pull''"
definition EventPush :: string where [simp]: "EventPush = ''push''"
definition EventSynced :: string where [simp]: "EventSynced = ''synced''"
definition EventError :: string where [simp]: "EventError = ''error''"
definition EventConflict :: string where [simp]: "EventConflict = ''conflict''"
definition EventPreflight :: string where [simp]: "EventPreflight = ''preflight''"
definition EventOffline :: string where [simp]: "EventOffline = ''offline''"
definition EventRecovered :: string where [simp]: "EventRecovered = ''recovered''"
definition EventPaused :: string where [simp]: "EventPaused = ''paused''"
definition EventResumed :: string where [simp]: "EventResumed = ''resumed''"

definition CodeNetwork :: string where [simp]: "CodeNetwork = ''network''"
definition CodeAuth :: string where [simp]: "CodeAuth = ''auth''"
definition CodeTimeout :: string where [simp]: "CodeTimeout = ''timeout''"
definition CodeConflict :: string where [simp]: "CodeConflict = ''conflict''"
definition CodeLock :: string where [simp]: "CodeLock = ''lock''"
definition CodeXcodeLicense :: string where [simp]: "CodeXcodeLicense = ''xcode_license''"
definition CodeGitMissing :: string where [simp]: "CodeGitMissing = ''git_missing''"
definition CodeNoAuthor :: string where [simp]: "CodeNoAuthor = ''no_author''"
definition CodePushRejected :: string where [simp]: "CodePushRejected = ''push_rejected''"
definition CodeConfig :: string where [simp]: "CodeConfig = ''config''"
definition CodeUnknown :: string where [simp]: "CodeUnknown = ''unknown''"
definition CodeNotARepo :: string where [simp]: "CodeNotARepo = ''not_a_repo''"
definition CodeNotWatching :: string where [simp]: "CodeNotWatching = ''not_watching''"
definition CodeMissingRepo :: string where [simp]: "CodeMissingRepo = ''missing_repo''"
definition CodeBadRequest :: string where [simp]: "CodeBadRequest = ''bad_request''"
definition CodeUnknownCmd :: string where [simp]: "CodeUnknownCmd = ''unknown_command''"
definition CodeAlreadyExists :: string where [simp]: "CodeAlreadyExists = ''already_exists''"
definition CodeNotFound :: string where [simp]: "CodeNotFound = ''not_found''"
definition CodeRepoMissing :: string where [simp]: "CodeRepoMissing = ''repo_missing''"

record event =
  ev_ID :: u64
  ev_Type :: string
  ev_Repo :: string
  ev_Message :: string
  ev_Status :: string
  ev_Code :: string
  ev_Ts :: int

definition zero_event :: event where
  "zero_event = \<lparr>ev_ID = 0, ev_Type = [], ev_Repo = [], ev_Message = [], ev_Status = [],
     ev_Code = [], ev_Ts = 0\<rparr>"

definition NewEvent :: "int \<Rightarrow> string \<Rightarrow> string \<Rightarrow> string \<Rightarrow> string \<Rightarrow> event" where
  "NewEvent now eventType repo message status =
     zero_event\<lparr>ev_Type := eventType, ev_Repo := repo, ev_Message := message,
       ev_Status := status, ev_Ts := now\<rparr>"

definition NewCodedEvent :: "int \<Rightarrow> string \<Rightarrow> string \<Rightarrow> string \<Rightarrow> string \<Rightarrow> event" where
  "NewCodedEvent now eventType repo message code =
     (NewEvent now eventType repo message [])\<lparr>ev_Code := code\<rparr>"

section \<open>The log\<close>

definition EventLogCapacity :: nat where "EventLogCapacity = 1000"

definition MaxRequestSize :: nat where "MaxRequestSize = 1024 * 1024"

record event_log =
  el_path :: string
  el_capacity :: nat
  el_buf :: "event list"
  el_start :: nat
  el_count :: nat
  el_lastID :: u64
  el_file :: bool \<comment> \<open>the handle is not nil\<close>
  el_lines :: nat

definition NewMemoryEventLog :: "int \<Rightarrow> event_log" where
  "NewMemoryEventLog capacity =
     (let c = (if capacity \<le> 0 then EventLogCapacity else nat capacity)
      in \<lparr>el_path = [], el_capacity = c, el_buf = replicate c zero_event, el_start = 0,
          el_count = 0, el_lastID = 0, el_file = False, el_lines = 0\<rparr>)"

definition push :: "event_log \<Rightarrow> event \<Rightarrow> event_log" where
  "push l ev =
     (if el_count l < el_capacity l
      then l\<lparr>el_buf := (el_buf l)[(el_start l + el_count l) mod el_capacity l := ev],
             el_count := el_count l + 1\<rparr>
      else l\<lparr>el_buf := (el_buf l)[el_start l := ev],
             el_start := (el_start l + 1) mod el_capacity l\<rparr>)"

definition at :: "event_log \<Rightarrow> nat \<Rightarrow> event" where
  "at l i = el_buf l ! ((el_start l + i) mod el_capacity l)"

text \<open>
  One round of the loop of \<open>load\<close>, on a line that \<open>ReadLine\<close> found in the file. The second
  component counts the skipped lines.
\<close>

definition load_line ::
  "(string \<Rightarrow> event option) \<Rightarrow> event_log \<times> nat \<Rightarrow> string \<Rightarrow> event_log \<times> nat" where
  "load_line dec ls line =
     (case ls of (l, skipped) \<Rightarrow>
        if length line > MaxRequestSize then (l, skipped + 1)
        else if line = [] then (l, skipped)
        else (case dec line of
                None \<Rightarrow> (l, skipped + 1)
              | Some ev \<Rightarrow>
                  if ev_ID ev = 0 \<or> ev_ID ev \<le> el_lastID l then (l, skipped + 1)
                  else (push (l\<lparr>el_lastID := ev_ID ev\<rparr>) ev, skipped)))"

definition load :: "(string \<Rightarrow> event option) \<Rightarrow> event_log \<Rightarrow> string list \<Rightarrow> event_log \<times> nat" where
  "load dec l disk = foldl (load_line dec) (l, 0) disk"

text \<open>
  \<open>rewrite\<close> writes the retained events to a temporary file, renames it over the log and opens it
  again. It has closed the old handle by then, so after any failure the log has no file.
\<close>

datatype rewrite_io = RewriteOk | FailBeforeRename | FailReopen

definition rewrite ::
  "rewrite_io \<Rightarrow> (event \<Rightarrow> string) \<Rightarrow> event_log \<times> string list \<Rightarrow> bool \<times> event_log \<times> string list" where
  "rewrite io enc ld =
     (case ld of (l, disk) \<Rightarrow>
        let l0 = l\<lparr>el_file := False\<rparr>;
            new = map (\<lambda>i. enc (at l i)) [0..<el_count l]
        in case io of
             FailBeforeRename \<Rightarrow> (False, l0, disk)
           | FailReopen \<Rightarrow> (False, l0, new)
           | RewriteOk \<Rightarrow> (True, l\<lparr>el_file := True, el_lines := el_count l\<rparr>, new))"

text \<open>
  \<open>NewEventLog\<close>: \<open>disk = None\<close> when the file does not exist. \<open>None\<close> is the error return.
\<close>

definition NewEventLog ::
  "rewrite_io \<Rightarrow> (event \<Rightarrow> string) \<Rightarrow> (string \<Rightarrow> event option) \<Rightarrow> string \<Rightarrow> int \<Rightarrow>
   string list option \<Rightarrow> (event_log \<times> string list) option" where
  "NewEventLog io enc dec path capacity disk =
     (let l = NewMemoryEventLog capacity
      in if path = [] then Some (l, [])
         else let l1 = l\<lparr>el_path := path\<rparr>;
                  d = (case disk of None \<Rightarrow> [] | Some d \<Rightarrow> d)
              in case rewrite io enc (fst (load dec l1 d), d) of
                   (True, l2, d2) \<Rightarrow> Some (l2, d2)
                 | (False, _) \<Rightarrow> None)"

record append_io =
  io_now :: int
  io_write_ok :: bool
  io_rewrite :: rewrite_io

definition Append ::
  "append_io \<Rightarrow> (event \<Rightarrow> string) \<Rightarrow> event_log \<times> string list \<Rightarrow> event \<Rightarrow>
   event \<times> event_log \<times> string list" where
  "Append io enc ld ev0 =
     (case ld of (l0, disk) \<Rightarrow>
        let l1 = l0\<lparr>el_lastID := el_lastID l0 + 1\<rparr>;
            ev1 = ev0\<lparr>ev_ID := el_lastID l1\<rparr>;
            ev = (if ev_Ts ev1 = 0 then ev1\<lparr>ev_Ts := io_now io\<rparr> else ev1);
            l2 = push l1 ev
        in if el_file l2
           then let disk1 = (if io_write_ok io then disk @ [enc ev] else disk);
                    l3 = l2\<lparr>el_lines := el_lines l2 + 1\<rparr>
                in if el_lines l3 > 2 * el_capacity l3
                   then (ev, snd (rewrite (io_rewrite io) enc (l3, disk1)))
                   else (ev, l3, disk1)
           else (ev, l2, disk))"

definition LastID :: "event_log \<Rightarrow> u64" where
  "LastID l = el_lastID l"

fun since_loop :: "event_log \<Rightarrow> u64 \<Rightarrow> string \<Rightarrow> int \<Rightarrow> nat \<Rightarrow> event list \<Rightarrow> event list" where
  "since_loop l since repo limit 0 out = out"
| "since_loop l since repo limit (Suc i) out =
     (let ev = at l i
      in if ev_ID ev \<le> since then out
         else if repo \<noteq> [] \<and> ev_Repo ev \<noteq> repo then since_loop l since repo limit i out
         else let out' = out @ [ev]
              in if limit > 0 \<and> int (length out') \<ge> limit then out'
                 else since_loop l since repo limit i out')"

definition Since :: "event_log \<Rightarrow> u64 \<Rightarrow> string \<Rightarrow> int \<Rightarrow> event list" where
  "Since l since repo limit = rev (since_loop l since repo limit (el_count l) [])"

definition Close_log :: "event_log \<Rightarrow> event_log" where
  "Close_log l = l\<lparr>el_file := False\<rparr>"

section \<open>The ring buffer is a bounded queue\<close>

definition keep_last :: "nat \<Rightarrow> 'a list \<Rightarrow> 'a list" where
  "keep_last n xs = drop (length xs - n) xs"

definition el_events :: "event_log \<Rightarrow> event list" where
  "el_events l = map (at l) [0..<el_count l]"

definition wf_log :: "event_log \<Rightarrow> bool" where
  "wf_log l \<longleftrightarrow> 0 < el_capacity l \<and> length (el_buf l) = el_capacity l \<and>
     el_start l < el_capacity l \<and> el_count l \<le> el_capacity l"

lemma keep_last_le: "length xs \<le> n \<Longrightarrow> keep_last n xs = xs"
  by (simp add: keep_last_def)

lemma length_keep_last [simp]: "length (keep_last n xs) = min n (length xs)"
  by (simp add: keep_last_def)

lemma keep_last_append_keep_last:
  "keep_last n (keep_last n xs @ ys) = keep_last n (xs @ ys)"
proof (cases "length xs \<le> n")
  case False
  then have "length xs - (length xs - n) = n" by simp
  with False show ?thesis by (simp add: keep_last_def add.commute)
qed (simp add: keep_last_le)

lemma keep_last_append1:
  "keep_last n (xs @ [x]) = (if n = 0 then [] else keep_last (n - 1) xs @ [x])"
  by (auto simp: keep_last_def Suc_diff_le)

lemma keep_last_suffix: "suffix (keep_last n xs) xs"
  by (simp add: keep_last_def suffix_drop)

lemma sorted_wrt_keep_last: "sorted_wrt P xs \<Longrightarrow> sorted_wrt P (keep_last n xs)"
  by (simp add: keep_last_def sorted_wrt_drop)

lemma set_keep_last: "set (keep_last n xs) \<subseteq> set xs"
  by (simp add: keep_last_def set_drop_subset)

locale bounded_log =
  fixes push_op :: "'l \<Rightarrow> 'e \<Rightarrow> 'l"
    and contents :: "'l \<Rightarrow> 'e list"
    and capacity :: "'l \<Rightarrow> nat"
    and invar :: "'l \<Rightarrow> bool"
  assumes contents_push: "invar l \<Longrightarrow> contents (push_op l e) = keep_last (capacity l) (contents l @ [e])"
    and capacity_push: "capacity (push_op l e) = capacity l"
    and invar_push: "invar l \<Longrightarrow> invar (push_op l e)"
    and contents_bound: "invar l \<Longrightarrow> length (contents l) \<le> capacity l"
begin

lemma invar_pushes: "invar l \<Longrightarrow> invar (foldl push_op l es)"
  by (induction es arbitrary: l) (auto intro: invar_push)

lemma capacity_pushes: "capacity (foldl push_op l es) = capacity l"
  by (induction es arbitrary: l) (auto simp: capacity_push)

lemma contents_pushes:
  "invar l \<Longrightarrow> contents (foldl push_op l es) = keep_last (capacity l) (contents l @ es)"
proof (induction es arbitrary: l)
  case Nil
  then show ?case by (simp add: keep_last_le contents_bound)
next
  case (Cons e es)
  have "contents (foldl push_op l (e # es)) =
      keep_last (capacity l) (keep_last (capacity l) (contents l @ [e]) @ es)"
    using Cons invar_push by (simp add: contents_push capacity_push)
  then show ?case by (simp add: keep_last_append_keep_last)
qed

end

lemma wf_push: "wf_log l \<Longrightarrow> wf_log (push l ev)"
  by (auto simp: wf_log_def push_def)

lemma push_frame [simp]:
  "el_capacity (push l ev) = el_capacity l" "el_lastID (push l ev) = el_lastID l"
  "el_file (push l ev) = el_file l" "el_lines (push l ev) = el_lines l"
  "el_path (push l ev) = el_path l"
  by (simp_all add: push_def)

lemma length_el_events [simp]: "length (el_events l) = el_count l"
  by (simp add: el_events_def)

lemma ring_index_inj:
  assumes "i < c" and "j < c" and "(s + i) mod c = (s + j) mod (c::nat)"
  shows "i = j"
proof -
  have "int c dvd int (s + i) - int (s + j)"
    using assms(3) by (metis mod_eq_dvd_iff of_nat_mod)
  then have "int c dvd int i - int j" by simp
  moreover have "\<bar>int i - int j\<bar> < int c" using assms(1,2) by linarith
  ultimately have "int i - int j = 0" by (metis dvd_imp_le_int linorder_not_less of_nat_less_0_iff abs_of_nat)
  then show ?thesis by simp
qed

lemma at_push_room:
  assumes "wf_log l" and "el_count l < el_capacity l" and "i \<le> el_count l"
  shows "at (push l ev) i = (if i = el_count l then ev else at l i)"
proof -
  have idx: "(el_start l + k) mod el_capacity l < length (el_buf l)" for k
    using assms(1) by (simp add: wf_log_def)
  have "(el_start l + i) mod el_capacity l = (el_start l + el_count l) mod el_capacity l \<longleftrightarrow>
      i = el_count l"
    using ring_index_inj [of i "el_capacity l" "el_count l" "el_start l"] assms(2,3) by auto
  then show ?thesis
    using assms(2) idx [of "el_count l"] by (auto simp: at_def push_def nth_list_update)
qed

lemma at_push_full:
  assumes "wf_log l" and "el_count l = el_capacity l" and "i < el_capacity l"
  shows "at (push l ev) i = (if Suc i = el_capacity l then ev else at l (Suc i))"
proof -
  let ?c = "el_capacity l" and ?s = "el_start l"
  have s: "?s < ?c" and b: "length (el_buf l) = ?c" using assms(1) by (auto simp: wf_log_def)
  have "((?s + 1) mod ?c + i) mod ?c = (?s + Suc i) mod ?c"
    by (simp add: mod_add_left_eq)
  moreover have "(?s + Suc i) mod ?c = ?s \<longleftrightarrow> Suc i = ?c"
  proof (cases "Suc i = ?c")
    case True
    then show ?thesis using s by simp
  next
    case False
    then have "Suc i < ?c" using assms(3) by simp
    then have "(?s + Suc i) mod ?c \<noteq> (?s + 0) mod ?c"
      using ring_index_inj [of "Suc i" ?c 0 ?s] by auto
    then show ?thesis using s False by simp
  qed
  ultimately show ?thesis
    using assms(2) s b by (auto simp: at_def push_def nth_list_update)
qed

lemma el_events_push:
  assumes "wf_log l"
  shows "el_events (push l ev) = keep_last (el_capacity l) (el_events l @ [ev])"
proof (cases "el_count l < el_capacity l")
  case True
  have "el_events (push l ev) = el_events l @ [ev]"
    using True at_push_room [OF assms True]
    by (auto simp: el_events_def push_def intro!: nth_equalityI simp: nth_append)
  with True show ?thesis by (simp add: keep_last_le)
next
  case False
  then have full: "el_count l = el_capacity l" and pos: "0 < el_capacity l"
    using assms by (auto simp: wf_log_def)
  have "el_events (push l ev) = tl (el_events l) @ [ev]"
    using full pos at_push_full [OF assms full]
    by (auto simp: el_events_def push_def intro!: nth_equalityI simp: nth_append nth_tl)
  moreover have "keep_last (el_capacity l) (el_events l @ [ev]) = tl (el_events l) @ [ev]"
    using full pos by (simp add: keep_last_def drop_Suc)
  ultimately show ?thesis by simp
qed

interpretation ring: bounded_log push el_events el_capacity wf_log
proof
  fix l e
  show "wf_log l \<Longrightarrow> el_events (push l e) = keep_last (el_capacity l) (el_events l @ [e])"
    by (rule el_events_push)
  show "el_capacity (push l e) = el_capacity l" by simp
  show "wf_log l \<Longrightarrow> wf_log (push l e)" by (rule wf_push)
  show "wf_log l \<Longrightarrow> length (el_events l) \<le> el_capacity l" by (simp add: wf_log_def)
qed

section \<open>Identifiers increase\<close>

definition ids_inv :: "event_log \<Rightarrow> bool" where
  "ids_inv l \<longleftrightarrow> sorted_wrt (<) (map ev_ID (el_events l)) \<and>
     (\<forall>e \<in> set (el_events l). 0 < ev_ID e \<and> ev_ID e \<le> el_lastID l)"

fun Appends ::
  "append_io list \<Rightarrow> (event \<Rightarrow> string) \<Rightarrow> event_log \<times> string list \<Rightarrow> event list \<Rightarrow>
   event list \<times> event_log \<times> string list" where
  "Appends (io # ios) enc ld (ev # evs) =
     (case Append io enc ld ev of (e, ld1) \<Rightarrow>
        case Appends ios enc ld1 evs of (es, ld2) \<Rightarrow> (e # es, ld2))"
| "Appends _ enc ld _ = ([], ld)"

lemma rewrite_frame [simp]:
  "el_events (fst (snd (rewrite io enc (l, d)))) = el_events l"
  "el_lastID (fst (snd (rewrite io enc (l, d)))) = el_lastID l"
  "wf_log (fst (snd (rewrite io enc (l, d)))) = wf_log l"
  "el_capacity (fst (snd (rewrite io enc (l, d)))) = el_capacity l"
  by (cases io; simp add: rewrite_def Let_def el_events_def at_def wf_log_def)+

lemma el_events_update [simp]:
  "el_events (l\<lparr>el_lastID := i\<rparr>) = el_events l" "el_events (l\<lparr>el_lines := n\<rparr>) = el_events l"
  "el_events (l\<lparr>el_file := b\<rparr>) = el_events l" "el_events (l\<lparr>el_path := p\<rparr>) = el_events l"
  by (simp_all add: el_events_def at_def)

lemma wf_log_update [simp]:
  "wf_log (l\<lparr>el_lastID := i\<rparr>) = wf_log l" "wf_log (l\<lparr>el_lines := n\<rparr>) = wf_log l"
  "wf_log (l\<lparr>el_file := b\<rparr>) = wf_log l" "wf_log (l\<lparr>el_path := p\<rparr>) = wf_log l"
  by (simp_all add: wf_log_def)

text \<open>What \<open>Append\<close> does to the log in memory, whatever the file operations do.\<close>

definition stamped :: "append_io \<Rightarrow> event_log \<Rightarrow> event \<Rightarrow> event" where
  "stamped io l ev = ev\<lparr>ev_ID := el_lastID l + 1,
     ev_Ts := (if ev_Ts ev = 0 then io_now io else ev_Ts ev)\<rparr>"

lemma Append_event: "fst (Append io enc (l, d) ev) = stamped io l ev"
  by (auto simp: Append_def Let_def stamped_def)

lemma Append_log:
  "el_events (fst (snd (Append io enc (l, d) ev))) =
     el_events (push (l\<lparr>el_lastID := el_lastID l + 1\<rparr>) (stamped io l ev))"
  "el_lastID (fst (snd (Append io enc (l, d) ev))) = el_lastID l + 1"
  "wf_log (fst (snd (Append io enc (l, d) ev))) =
     wf_log (push (l\<lparr>el_lastID := el_lastID l + 1\<rparr>) (stamped io l ev))"
  "el_capacity (fst (snd (Append io enc (l, d) ev))) = el_capacity l"
  by (simp_all add: Append_def Let_def stamped_def)

lemma Append_frame:
  assumes "Append io enc (l, d) ev = (e, l', d')" and "wf_log l"
  shows "el_events l' = keep_last (el_capacity l) (el_events l @ [e])"
    and "el_lastID l' = el_lastID l + 1" and "ev_ID e = el_lastID l + 1" and "wf_log l'"
    and "el_capacity l' = el_capacity l"
proof -
  have e: "e = stamped io l ev" using Append_event [of io enc l d ev] assms(1) by simp
  note A = Append_log [of io enc l d ev]
  show "el_events l' = keep_last (el_capacity l) (el_events l @ [e])"
    using A(1) assms ring.contents_push [of "l\<lparr>el_lastID := el_lastID l + 1\<rparr>" e] e by simp
  show "el_lastID l' = el_lastID l + 1" and "ev_ID e = el_lastID l + 1"
    and "el_capacity l' = el_capacity l"
    using A(2,4) assms(1) e by (simp_all add: stamped_def)
  show "wf_log l'" using A(3) assms wf_push by simp
qed

lemma Append_ids_inv:
  assumes "Append io enc (l, d) ev = (e, l', d')" and "wf_log l" and "ids_inv l"
    and "el_lastID l \<noteq> - 1"
  shows "ids_inv l'"
proof -
  note F = Append_frame [OF assms(1,2)]
  have lt: "el_lastID l < el_lastID l + 1" using assms(4) by (rule u64_Suc_greater)
  have all: "\<And>x. x \<in> set (el_events l) \<Longrightarrow> 0 < ev_ID x \<and> ev_ID x \<le> el_lastID l"
    using assms(3) by (simp add: ids_inv_def)
  have "sorted_wrt (<) (map ev_ID (el_events l @ [e]))"
    using assms(3) order_le_less_trans [OF _ lt] F(3) all by (auto simp: ids_inv_def sorted_wrt_append)
  then have "sorted_wrt (<) (map ev_ID (el_events l'))"
    unfolding F(1) keep_last_def drop_map [symmetric] by (rule sorted_wrt_drop)
  moreover have "0 < ev_ID x \<and> ev_ID x \<le> el_lastID l'" if "x \<in> set (el_events l')" for x
  proof -
    have "x \<in> set (el_events l) \<or> x = e" using that set_keep_last F(1) by fastforce
    then show ?thesis
    proof
      assume "x \<in> set (el_events l)"
      then show ?thesis using all [of x] order_trans [OF _ order_less_imp_le [OF lt]] F(2) by simp
    next
      assume "x = e"
      then show ?thesis using F(2,3) u64_Suc_pos [OF assms(4)] by simp
    qed
  qed
  ultimately show ?thesis by (simp add: ids_inv_def)
qed

lemma Append_no_overflow:
  assumes "Append io enc (l, d) ev = (e, l', d')" and "wf_log l"
    and "unat (el_lastID l) + Suc n < 2 ^ 64"
  shows "unat (el_lastID l') = Suc (unat (el_lastID l))" and "el_lastID l \<noteq> - 1"
proof -
  show ne: "el_lastID l \<noteq> - 1" using assms(3) by (rule u64_not_max)
  show "unat (el_lastID l') = Suc (unat (el_lastID l))"
    using Append_frame(2) [OF assms(1,2)] ne by (simp add: unat_Suc_u64)
qed

lemma Appends_ids:
  assumes "Appends ios enc (l, d) evs = (es, l', d')" and "wf_log l" and "ids_inv l"
    and "unat (el_lastID l) + length evs < 2 ^ 64"
  shows "ids_inv l' \<and> wf_log l' \<and> el_capacity l' = el_capacity l \<and>
    el_events l' = keep_last (el_capacity l) (el_events l @ es)"
  using assms
proof (induction ios enc "(l, d)" evs arbitrary: l d es l' d' rule: Appends.induct)
  case (1 io ios enc ev evs)
  obtain e l1 d1 where a: "Append io enc (l, d) ev = (e, l1, d1)" by (metis prod_cases3)
  obtain es' l2 d2 where b: "Appends ios enc (l1, d1) evs = (es', l2, d2)" by (metis prod_cases3)
  note F = Append_frame [OF a "1.prems"(2)]
  have lim: "unat (el_lastID l) + Suc (length evs) < 2 ^ 64" using "1.prems"(4) by simp
  note O = Append_no_overflow [OF a "1.prems"(2) lim]
  have "ids_inv l1" by (rule Append_ids_inv [OF a "1.prems"(2,3) O(2)])
  moreover have "unat (el_lastID l1) + length evs < 2 ^ 64" using O(1) lim by simp
  ultimately have IH: "ids_inv l2 \<and> wf_log l2 \<and> el_capacity l2 = el_capacity l1 \<and>
      el_events l2 = keep_last (el_capacity l1) (el_events l1 @ es')"
    using "1.hyps" [OF a [symmetric] b F(4)] by simp
  have "es = e # es'" and "l' = l2" using "1.prems"(1) a b by simp_all
  then show ?case using IH F(1,5) by (simp add: keep_last_append_keep_last)
qed (auto simp: keep_last_le wf_log_def)

section \<open>What \<open>Since\<close> returns\<close>

definition wanted :: "u64 \<Rightarrow> string \<Rightarrow> event \<Rightarrow> bool" where
  "wanted since repo ev \<longleftrightarrow> since < ev_ID ev \<and> (repo = [] \<or> ev_Repo ev = repo)"

definition since_spec :: "event_log \<Rightarrow> u64 \<Rightarrow> string \<Rightarrow> int \<Rightarrow> event list" where
  "since_spec l since repo limit =
     (let evs = filter (wanted since repo) (el_events l)
      in if limit > 0 then keep_last (nat limit) evs else evs)"

lemma filter_older_none:
  assumes "sorted_wrt (<) (map ev_ID (xs @ [e]))" and "ev_ID e \<le> since"
  shows "filter (wanted since repo) (xs @ [e]) = []"
proof -
  have "ev_ID x \<le> since" if "x \<in> set (xs @ [e])" for x
    using assms that by (auto simp: sorted_wrt_append)
  then show ?thesis by (auto simp: filter_empty_conv wanted_def not_less)
qed

lemma take_events_Suc: "map (at l) [0..<Suc i] = map (at l) [0..<i] @ [at l i]"
  by simp

lemma since_loop_eq:
  assumes "sorted_wrt (<) (map ev_ID (map (at l) [0..<n]))"
    and "limit > 0 \<Longrightarrow> int (length out) < limit"
  shows "since_loop l since repo limit n out =
    out @ (let evs = rev (filter (wanted since repo) (map (at l) [0..<n]))
           in if limit > 0 then take (nat limit - length out) evs else evs)"
  using assms
proof (induction n arbitrary: out)
  case 0
  then show ?case by simp
next
  case (Suc i)
  let ?ev = "at l i"
  have sorted: "sorted_wrt (<) (map ev_ID (map (at l) [0..<i]))"
    using Suc.prems(1) by (simp add: sorted_wrt_append)
  consider (old) "ev_ID ?ev \<le> since"
    | (other) "\<not> ev_ID ?ev \<le> since" "repo \<noteq> [] \<and> ev_Repo ?ev \<noteq> repo"
    | (hit) "wanted since repo ?ev"
    unfolding wanted_def not_le [symmetric] by blast
  then show ?case
  proof cases
    case old
    then have "filter (wanted since repo) (map (at l) [0..<Suc i]) = []"
      using filter_older_none Suc.prems(1) unfolding take_events_Suc by blast
    with old show ?thesis by (simp add: Let_def del: upt_Suc)
  next
    case other
    then have "\<not> wanted since repo ?ev" by (auto simp: wanted_def)
    with other Suc.IH [OF sorted Suc.prems(2)] show ?thesis by (simp add: Let_def)
  next
    case hit
    then have step: "since_loop l since repo limit (Suc i) out =
        (if limit > 0 \<and> int (length out) + 1 \<ge> limit then out @ [?ev]
         else since_loop l since repo limit i (out @ [?ev]))"
      by (auto simp: wanted_def Let_def)
    show ?thesis
    proof (cases "limit > 0 \<and> int (length out) + 1 \<ge> limit")
      case True
      then have "nat limit - length out = 1" using Suc.prems(2) by linarith
      then show ?thesis using True hit step by (simp add: Let_def)
    next
      case False
      have "nat limit - length out = Suc (nat limit - length (out @ [?ev]))" if "limit > 0"
        using that False by auto
      moreover have "limit > 0 \<Longrightarrow> int (length (out @ [?ev])) < limit" using False by auto
      ultimately show ?thesis
        using False hit step Suc.IH [OF sorted, of "out @ [?ev]"] by (simp add: Let_def)
    qed
  qed
qed

lemma Since_eq_spec:
  assumes "ids_inv l"
  shows "Since l since repo limit = since_spec l since repo limit"
proof -
  have "sorted_wrt (<) (map ev_ID (map (at l) [0..<el_count l]))"
    using assms by (simp add: ids_inv_def el_events_def)
  then show ?thesis
    by (simp add: Since_def since_spec_def since_loop_eq el_events_def keep_last_def Let_def
        rev_take)
qed

section \<open>Restarting on the file\<close>

text \<open>
  The codec is used correctly on an event when the line written for it reads back as that event
  and is a line \<open>ReadLine\<close> accepts.
\<close>

definition codec_ok :: "(event \<Rightarrow> string) \<Rightarrow> (string \<Rightarrow> event option) \<Rightarrow> event \<Rightarrow> bool" where
  "codec_ok enc dec ev \<longleftrightarrow>
     dec (enc ev) = Some ev \<and> enc ev \<noteq> [] \<and> length (enc ev) \<le> MaxRequestSize"

text \<open>The last identifier of a list of events, 0 for none.\<close>

definition last_id :: "event list \<Rightarrow> u64" where
  "last_id es = (if es = [] then 0 else ev_ID (last es))"

text \<open>
  \<open>history enc dec l old\<close>: the events \<open>old\<close> are what the file still holds of the time before the
  events in memory. \<open>durable\<close>: the file is the history followed by the events in memory.
\<close>

definition history ::
  "(event \<Rightarrow> string) \<Rightarrow> (string \<Rightarrow> event option) \<Rightarrow> event_log \<Rightarrow> event list \<Rightarrow> bool" where
  "history enc dec l old \<longleftrightarrow>
     sorted_wrt (<) (map ev_ID (old @ el_events l)) \<and>
     (\<forall>e \<in> set (old @ el_events l). 0 < ev_ID e \<and> codec_ok enc dec e) \<and>
     (old \<noteq> [] \<longrightarrow> el_count l = el_capacity l)"

definition durable ::
  "(event \<Rightarrow> string) \<Rightarrow> (string \<Rightarrow> event option) \<Rightarrow> event_log \<times> string list \<Rightarrow> bool" where
  "durable enc dec ld \<longleftrightarrow>
     (case ld of (l, disk) \<Rightarrow>
        wf_log l \<and> el_file l \<and> el_lastID l = last_id (el_events l) \<and> el_lines l = length disk \<and>
        (\<exists>old. history enc dec l old \<and> disk = map enc (old @ el_events l)))"

lemma load_valid:
  assumes "sorted_wrt (<) (map ev_ID es)"
    and "\<forall>e \<in> set es. el_lastID l < ev_ID e \<and> 0 < ev_ID e \<and> codec_ok enc dec e"
    and "wf_log l" and "el_lastID l = last_id (el_events l)"
  shows "\<exists>l'. foldl (load_line dec) (l, n) (map enc es) = (l', n) \<and> wf_log l' \<and>
     el_events l' = keep_last (el_capacity l) (el_events l @ es) \<and>
     el_capacity l' = el_capacity l \<and> el_lastID l' = last_id (el_events l @ es) \<and>
     el_path l' = el_path l"
  using assms
proof (induction es arbitrary: l)
  case Nil
  then show ?case by (simp add: keep_last_le wf_log_def)
next
  case (Cons e es)
  let ?l1 = "push (l\<lparr>el_lastID := ev_ID e\<rparr>) e"
  have step: "load_line dec (l, n) (enc e) = (?l1, n)"
    using Cons.prems(2) by (auto simp: load_line_def codec_ok_def)
  have wf1: "wf_log ?l1" using Cons.prems(3) by (simp add: wf_push)
  have ev1: "el_events ?l1 = keep_last (el_capacity l) (el_events l @ [e])"
    using Cons.prems(3) by (simp add: ring.contents_push)
  have id1: "el_lastID ?l1 = last_id (el_events ?l1)"
    using Cons.prems(3) ev1 by (simp add: last_id_def keep_last_append1 wf_log_def)
  have "\<forall>x \<in> set es. el_lastID ?l1 < ev_ID x \<and> 0 < ev_ID x \<and> codec_ok enc dec x"
    using Cons.prems(1,2) by auto
  with Cons.IH [of ?l1] Cons.prems(1) wf1 id1 obtain l' where l':
    "foldl (load_line dec) (?l1, n) (map enc es) = (l', n)" "wf_log l'"
    "el_events l' = keep_last (el_capacity l) (el_events ?l1 @ es)"
    "el_capacity l' = el_capacity l" "el_lastID l' = last_id (el_events ?l1 @ es)"
    "el_path l' = el_path l"
    by auto
  have "last_id (el_events ?l1 @ es) = last_id (el_events l @ e # es)"
    using Cons.prems(3) ev1 by (simp add: last_id_def keep_last_append1 wf_log_def)
  with l' ev1 step show ?case by (simp add: keep_last_append_keep_last)
qed

lemma wf_NewMemoryEventLog [simp]: "wf_log (NewMemoryEventLog c)"
  by (simp add: NewMemoryEventLog_def wf_log_def Let_def EventLogCapacity_def)

lemma NewMemoryEventLog_fields [simp]:
  "el_events (NewMemoryEventLog c) = []" "el_lastID (NewMemoryEventLog c) = 0"
  "el_capacity (NewMemoryEventLog c) = (if c \<le> 0 then EventLogCapacity else nat c)"
  by (simp_all add: NewMemoryEventLog_def el_events_def Let_def)

lemma rewrite_RewriteOk:
  "rewrite RewriteOk enc (l, d) =
     (True, l\<lparr>el_file := True, el_lines := el_count l\<rparr>, map enc (el_events l))"
  by (simp add: rewrite_def Let_def el_events_def comp_def)

lemma keep_last_last_id: "0 < n \<Longrightarrow> last_id (keep_last n xs) = last_id xs"
  by (cases xs rule: rev_cases) (simp_all add: last_id_def keep_last_append1 keep_last_def)

lemma NewEventLog_valid:
  assumes "path \<noteq> []" and "sorted_wrt (<) (map ev_ID es)"
    and "\<forall>e \<in> set es. 0 < ev_ID e \<and> codec_ok enc dec e"
    and cap: "cap = el_capacity (NewMemoryEventLog c)"
  shows "\<exists>l d. NewEventLog RewriteOk enc dec path c (Some (map enc es)) = Some (l, d) \<and>
     el_events l = keep_last cap es \<and> el_lastID l = last_id es \<and> el_capacity l = cap \<and>
     durable enc dec (l, d)"
proof -
  let ?l0 = "(NewMemoryEventLog c)\<lparr>el_path := path\<rparr>"
  have "\<exists>l'. foldl (load_line dec) (?l0, 0) (map enc es) = (l', 0) \<and> wf_log l' \<and>
     el_events l' = keep_last (el_capacity ?l0) (el_events ?l0 @ es) \<and>
     el_capacity l' = el_capacity ?l0 \<and> el_lastID l' = last_id (el_events ?l0 @ es) \<and>
     el_path l' = el_path ?l0"
    by (rule load_valid) (use assms in \<open>auto simp: last_id_def\<close>)
  then obtain l' where l': "load dec ?l0 (map enc es) = (l', 0)" "wf_log l'"
    "el_events l' = keep_last cap es" "el_capacity l' = cap" "el_lastID l' = last_id es"
    by (auto simp: load_def cap)
  let ?l = "l'\<lparr>el_file := True, el_lines := el_count l'\<rparr>"
  have new: "NewEventLog RewriteOk enc dec path c (Some (map enc es)) =
      Some (?l, map enc (el_events l'))"
    using assms(1) l'(1) by (simp add: NewEventLog_def Let_def rewrite_RewriteOk)
  have srt: "sorted_wrt (<) (map ev_ID (el_events l'))"
    using assms(2) l'(3) by (simp add: sorted_wrt_map sorted_wrt_keep_last)
  have mem: "\<forall>e \<in> set (el_events l'). 0 < ev_ID e \<and> codec_ok enc dec e"
    using assms(3) l'(3) set_keep_last by fastforce
  have pos: "0 < cap" using l'(2,4) by (simp add: wf_log_def)
  have lid: "el_lastID l' = last_id (el_events l')"
    using l'(3,5) keep_last_last_id [OF pos] by simp
  have "durable enc dec (?l, map enc (el_events l'))"
    unfolding durable_def
    using l'(2) lid srt mem by (auto simp: history_def intro!: exI [of _ "[]"])
  with new l'(3,4,5) show ?thesis by auto
qed

text \<open>A log on a file stays durable over \<open>Append\<close> as long as the file operations succeed.\<close>

definition io_ok :: "append_io \<Rightarrow> bool" where
  "io_ok io \<longleftrightarrow> io_write_ok io \<and> io_rewrite io = RewriteOk"

lemma Append_file:
  assumes "io_ok io" and "el_file l" and "Append io enc (l, d) ev = (e, l', d')" and "wf_log l"
  shows "el_file l' \<and>
    (if el_lines l + 1 > 2 * el_capacity l
     then d' = map enc (el_events l') \<and> el_lines l' = length (el_events l')
     else d' = d @ [enc e] \<and> el_lines l' = el_lines l + 1)"
  using assms
  by (auto simp: Append_def Let_def io_ok_def rewrite_RewriteOk split: if_splits)

lemma history_le_lastID:
  assumes "history enc dec l old" and "wf_log l" and "el_lastID l = last_id (el_events l)"
    and "x \<in> set (old @ el_events l)"
  shows "ev_ID x \<le> el_lastID l"
proof -
  have ne: "el_events l \<noteq> []"
  proof
    assume "el_events l = []"
    then have "el_count l = 0" by (metis length_el_events list.size(3))
    with assms(1,2,4) \<open>el_events l = []\<close> show False by (auto simp: history_def wf_log_def)
  qed
  then obtain ys y where y: "el_events l = ys @ [y]" by (metis rev_exhaust)
  then have "el_lastID l = ev_ID y" using assms(3) by (simp add: last_id_def)
  moreover have "sorted_wrt (<) (map ev_ID ((old @ ys) @ [y]))" using assms(1) y by (simp add: history_def)
  ultimately show ?thesis using assms(4) y by (auto simp: sorted_wrt_append)
qed

lemma durable_ids_inv: "durable enc dec (l, d) \<Longrightarrow> ids_inv l"
  using history_le_lastID [of enc dec l]
  by (auto simp: durable_def ids_inv_def history_def sorted_wrt_append)

lemma keep_last_drop_old:
  assumes "old \<noteq> [] \<Longrightarrow> length xs = n" and "length xs \<le> n"
  shows "keep_last n (old @ xs @ [e]) = keep_last n (xs @ [e])"
proof (cases "old = []")
  case False
  then have "keep_last n (old @ xs) = xs" using assms by (simp add: keep_last_def)
  then show ?thesis using keep_last_append_keep_last [of n "old @ xs" "[e]"] by simp
qed simp

lemma history_Append:
  assumes "history enc dec l old" and "wf_log l" and "el_lastID l = last_id (el_events l)"
    and "el_lastID l \<noteq> - 1" and "Append io enc (l, d) ev = (e, l', d')" and "codec_ok enc dec e"
  shows "\<exists>old'. history enc dec l' old' \<and> old' @ el_events l' = old @ el_events l @ [e]"
proof -
  note F = Append_frame [OF assms(5,2)]
  let ?all = "old @ el_events l @ [e]" and ?c = "el_capacity l"
  have full: "old \<noteq> [] \<longrightarrow> length (el_events l) = ?c" and le: "length (el_events l) \<le> ?c"
    using assms(1,2) by (simp_all add: history_def wf_log_def)
  have ev': "el_events l' = keep_last ?c ?all"
    using F(1) keep_last_drop_old [of old "el_events l" ?c e] full le by simp
  have older: "ev_ID x < ev_ID e" if "x \<in> set (old @ el_events l)" for x
    using history_le_lastID [OF assms(1-3) that] u64_Suc_greater [OF assms(4)] F(3)
    by (simp add: order_le_less_trans)
  have split_all: "take (length ?all - ?c) ?all @ el_events l' = ?all"
    by (simp only: ev' keep_last_def append_take_drop_id)
  have "sorted_wrt (<) (map ev_ID ?all)"
    using assms(1) older by (auto simp: history_def sorted_wrt_append)
  moreover have "\<forall>x \<in> set ?all. 0 < ev_ID x \<and> codec_ok enc dec x"
    using assms(1,6) F(3) u64_Suc_pos [OF assms(4)] by (auto simp: history_def)
  moreover have "el_count l' = ?c" if "take (length ?all - ?c) ?all \<noteq> []"
  proof -
    have "?c < length ?all" using that by (metis diff_is_0_eq' not_le take0)
    then show ?thesis using ev' by (metis length_el_events length_keep_last min.absorb3)
  qed
  ultimately have "history enc dec l' (take (length ?all - ?c) ?all)"
    unfolding history_def split_all F(5) by blast
  then show ?thesis using split_all by blast
qed

lemma Append_durable:
  assumes "durable enc dec (l, d)" and "Append io enc (l, d) ev = (e, l', d')" and "io_ok io"
    and "codec_ok enc dec e" and "el_lastID l \<noteq> - 1"
  shows "durable enc dec (l', d')"
proof -
  from assms(1) obtain old where wf: "wf_log l" and handle: "el_file l"
    and lid: "el_lastID l = last_id (el_events l)" and d: "d = map enc (old @ el_events l)"
    and lines: "el_lines l = length d" and hist: "history enc dec l old"
    by (auto simp: durable_def)
  note F = Append_frame [OF assms(2) wf]
  note A = Append_file [OF assms(3) handle assms(2) wf]
  obtain old' where old': "history enc dec l' old'" "old' @ el_events l' = old @ el_events l @ [e]"
    using history_Append [OF hist wf lid assms(5,2,4)] by blast
  have "0 < el_capacity l" using wf by (simp add: wf_log_def)
  then have lid': "el_lastID l' = last_id (el_events l')"
    using F(1,2,3) keep_last_last_id by (simp add: last_id_def)
  have "history enc dec l' []" using old'(1) by (auto simp: history_def sorted_wrt_append)
  moreover have "map enc (old' @ el_events l') = d @ [enc e]" using old'(2) d by simp
  ultimately have "\<exists>old. history enc dec l' old \<and> d' = map enc (old @ el_events l')"
    using A old'(1) by (cases "el_lines l + 1 > 2 * el_capacity l") (auto simp flip: map_append)
  moreover have "el_lines l' = length d'" using A lines by (auto split: if_splits)
  ultimately show ?thesis using F(4) A lid' by (auto simp: durable_def)
qed

lemma Appends_durable:
  assumes "Appends ios enc (l, d) evs = (es, l', d')" and "durable enc dec (l, d)"
    and "list_all io_ok ios" and "list_all (codec_ok enc dec) es"
    and "unat (el_lastID l) + length evs < 2 ^ 64"
  shows "durable enc dec (l', d')"
  using assms
proof (induction ios enc "(l, d)" evs arbitrary: l d es l' d' rule: Appends.induct)
  case (1 io ios enc ev evs)
  obtain e l1 d1 where a: "Append io enc (l, d) ev = (e, l1, d1)" by (metis prod_cases3)
  obtain es' l2 d2 where b: "Appends ios enc (l1, d1) evs = (es', l2, d2)" by (metis prod_cases3)
  have eqs: "es = e # es'" "l' = l2" "d' = d2" using "1.prems"(1) a b by simp_all
  have wf: "wf_log l" using "1.prems"(2) by (simp add: durable_def)
  have lim: "unat (el_lastID l) + Suc (length evs) < 2 ^ 64" using "1.prems"(5) by simp
  note O = Append_no_overflow [OF a wf lim]
  have "durable enc dec (l1, d1)"
    by (rule Append_durable [OF "1.prems"(2) a _ _ O(2)]) (use "1.prems" eqs in simp_all)
  then show ?case
    using "1.hyps" [OF a [symmetric] b] "1.prems" eqs O(1) lim by simp
qed auto

section \<open>Properties\<close>

text \<open>
  The ring buffer is a bounded queue: pushing any sequence of events onto a well-formed log
  leaves exactly the last \<open>capacity\<close> of the old and the new events, oldest first.
\<close>

theorem push_keeps_last_events:
  assumes "wf_log l"
  shows "el_events (foldl push l es) = keep_last (el_capacity l) (el_events l @ es)"
  using assms by (rule ring.contents_pushes)

theorem push_keeps_last_events_witness:
  "wf_log (NewMemoryEventLog 2) \<and>
   el_events (foldl push (NewMemoryEventLog 2) [zero_event\<lparr>ev_ID := 1\<rparr>, zero_event\<lparr>ev_ID := 2\<rparr>,
     zero_event\<lparr>ev_ID := 3\<rparr>]) = [zero_event\<lparr>ev_ID := 2\<rparr>, zero_event\<lparr>ev_ID := 3\<rparr>]"
proof -
  let ?es = "[zero_event\<lparr>ev_ID := 1\<rparr>, zero_event\<lparr>ev_ID := 2\<rparr>, zero_event\<lparr>ev_ID := 3\<rparr>]"
  have "keep_last (el_capacity (NewMemoryEventLog 2)) (el_events (NewMemoryEventLog 2) @ ?es) = drop 1 ?es"
    by (simp add: keep_last_def)
  then show ?thesis
    using push_keeps_last_events [OF wf_NewMemoryEventLog, of 2 ?es] wf_NewMemoryEventLog by simp
qed

text \<open>
  \<open>Since\<close> answers from the log what the daemon appended to it: starting from a new log, after
  any appends it returns, oldest first, the events that are still retained, newer than \<open>since\<close>
  and of the given repository (all for the empty string), the last \<open>limit\<close> of them for a
  positive limit; and the identifiers in the log strictly increase.
\<close>

theorem Since_after_Appends:
  assumes "Appends ios enc (NewMemoryEventLog c, []) evs = (es, l, d)" and "length evs < 2 ^ 64"
  shows "sorted_wrt (<) (map ev_ID (el_events l)) \<and>
    Since l since repo limit =
      (let xs = filter (wanted since repo) (keep_last (el_capacity (NewMemoryEventLog c)) es)
       in if limit > 0 then keep_last (nat limit) xs else xs)"
proof -
  have ids: "ids_inv (NewMemoryEventLog c)" by (simp add: ids_inv_def)
  have "ids_inv l \<and> wf_log l \<and> el_capacity l = el_capacity (NewMemoryEventLog c) \<and>
      el_events l = keep_last (el_capacity (NewMemoryEventLog c)) (el_events (NewMemoryEventLog c) @ es)"
    by (rule Appends_ids [OF assms(1) _ ids]) (use assms(2) in simp_all)
  then have "ids_inv l" and ev: "el_events l = keep_last (el_capacity (NewMemoryEventLog c)) es" by simp_all
  then show ?thesis unfolding ev [symmetric] by (simp add: Since_eq_spec since_spec_def ids_inv_def)
qed

definition demo_io :: append_io where
  "demo_io = \<lparr>io_now = 7, io_write_ok = True, io_rewrite = RewriteOk\<rparr>"

definition demo_events :: "event list" where
  "demo_events = [NewEvent 5 ''commit'' ''/r'' ''A x'' [], NewEvent 6 ''push'' ''/s'' ''p'' [],
     NewEvent 6 ''push'' ''/r'' ''q'' []]"

theorem Since_after_Appends_witness:
  "\<exists>es l d. Appends [demo_io, demo_io, demo_io] ev_Message (NewMemoryEventLog 2, []) demo_events = (es, l, d) \<and>
     length demo_events < 2 ^ 64 \<and> Since l 1 ''/r'' 5 = [(demo_events ! 2)\<lparr>ev_ID := 3\<rparr>]"
proof -
  obtain es l d where a:
    "Appends [demo_io, demo_io, demo_io] ev_Message (NewMemoryEventLog 2, []) demo_events = (es, l, d)"
    by (metis prod_cases3)
  have n: "length demo_events < 2 ^ 64" by (simp add: demo_events_def)
  have "es = map (\<lambda>i. (demo_events ! i)\<lparr>ev_ID := of_nat (Suc i)\<rparr>) [0, 1, 2]"
    using arg_cong [OF a, of fst]
    by (simp add: demo_events_def demo_io_def Append_def push_def NewMemoryEventLog_def NewEvent_def
        zero_event_def Let_def eval_nat_numeral)
  then have "Since l 1 ''/r'' 5 = [(demo_events ! 2)\<lparr>ev_ID := 3\<rparr>]"
    using Since_after_Appends [OF a n, of 1 "''/r''" 5]
    by (simp add: keep_last_def wanted_def demo_events_def NewEvent_def zero_event_def)
  with a n show ?thesis by blast
qed

text \<open>
  C37. Restarting keeps the history: a log opened on a fresh file, appended to while the file
  operations succeed and every line reads back as the event written, and opened again on that
  file, holds the same events and continues the same identifiers.
\<close>

theorem reopen_restores_events:
  assumes "NewEventLog RewriteOk enc dec path c None = Some (l0, d0)" and "path \<noteq> []"
    and "Appends ios enc (l0, d0) evs = (es, l, d)" and "length evs < 2 ^ 64"
    and "list_all io_ok ios" and "list_all (codec_ok enc dec) es"
  shows "\<exists>l' d'. NewEventLog RewriteOk enc dec path c (Some d) = Some (l', d') \<and>
    el_events l' = el_events l \<and> LastID l' = LastID l"
proof -
  have same: "NewEventLog RewriteOk enc dec path c None = NewEventLog RewriteOk enc dec path c (Some (map enc []))"
    by (simp add: NewEventLog_def Let_def)
  let ?cap = "el_capacity (NewMemoryEventLog c)"
  have l0: "el_lastID l0 = 0 \<and> el_capacity l0 = ?cap \<and> durable enc dec (l0, d0)"
    using NewEventLog_valid [of path "[]" enc dec ?cap c] assms(1,2) same by (auto simp: last_id_def)
  have "durable enc dec (l, d)"
    by (rule Appends_durable [OF assms(3)]) (use l0 assms in simp_all)
  then obtain old where old: "history enc dec l old" "d = map enc (old @ el_events l)" "wf_log l"
    "el_lastID l = last_id (el_events l)" by (auto simp: durable_def)
  have "ids_inv l0" using l0 durable_ids_inv by blast
  then have cap: "el_capacity l = ?cap"
    using Appends_ids [OF assms(3)] l0 assms(4) by (simp add: durable_def)
  have kl: "keep_last ?cap (old @ el_events l) = el_events l"
    using old(1,3) cap by (cases "old = []") (auto simp: history_def wf_log_def keep_last_def)
  have pos: "0 < ?cap" using old(3) cap by (simp add: wf_log_def)
  have "\<exists>l' d'. NewEventLog RewriteOk enc dec path c (Some d) = Some (l', d') \<and>
      el_events l' = keep_last ?cap (old @ el_events l) \<and> el_lastID l' = last_id (old @ el_events l) \<and>
      el_capacity l' = ?cap \<and> durable enc dec (l', d')"
    unfolding old(2)
    by (rule NewEventLog_valid [OF assms(2)]) (use old(1) in \<open>simp_all add: history_def\<close>)
  then show ?thesis
    using kl keep_last_last_id [OF pos, of "old @ el_events l"] old(4) by (auto simp: LastID_def)
qed

definition demo_enc :: "event \<Rightarrow> string" where
  "demo_enc ev = (if ev_ID ev = 1 then ''a'' else if ev_ID ev = 2 then ''b'' else ''c'')"

definition demo_dec :: "string \<Rightarrow> event option" where
  "demo_dec s =
     (if s = ''a'' then Some ((demo_events ! 0)\<lparr>ev_ID := 1\<rparr>)
      else if s = ''b'' then Some ((demo_events ! 1)\<lparr>ev_ID := 2\<rparr>)
      else if s = ''c'' then Some ((demo_events ! 2)\<lparr>ev_ID := 3\<rparr>) else None)"


lemma demo_appends_eval:
  "map_option (\<lambda>ld. case Appends [demo_io, demo_io, demo_io] demo_enc ld demo_events of (es, l, d) \<Rightarrow>
       (es, LastID l, d)) (NewEventLog RewriteOk demo_enc demo_dec ''/e'' 1 None) =
     Some (map (\<lambda>i. (demo_events ! i)\<lparr>ev_ID := of_nat (Suc i)\<rparr>) [0, 1, 2], 3, [''c''])"
  by code_simp

theorem reopen_restores_events_witness:
  "\<exists>l d l' d'. NewEventLog RewriteOk demo_enc demo_dec ''/e'' 1 (Some d) = Some (l', d') \<and>
     d = [''c''] \<and> el_events l' = el_events l \<and> LastID l' = 3"
proof -
  obtain l0 d0 where o0: "NewEventLog RewriteOk demo_enc demo_dec ''/e'' 1 None = Some (l0, d0)"
    using demo_appends_eval by (cases "NewEventLog RewriteOk demo_enc demo_dec ''/e'' 1 None") auto
  obtain es l d where a: "Appends [demo_io, demo_io, demo_io] demo_enc (l0, d0) demo_events = (es, l, d)"
    by (metis prod_cases3)
  have es: "es = map (\<lambda>i. (demo_events ! i)\<lparr>ev_ID := of_nat (Suc i)\<rparr>) [0, 1, 2]"
    and c: "LastID l = 3" "d = [''c'']"
    using demo_appends_eval o0 a by simp_all
  have ok: "list_all (codec_ok demo_enc demo_dec) es"
    unfolding es by (simp add: codec_ok_def demo_enc_def demo_dec_def MaxRequestSize_def)
  have "\<exists>l' d'. NewEventLog RewriteOk demo_enc demo_dec ''/e'' 1 (Some d) = Some (l', d') \<and>
      el_events l' = el_events l \<and> LastID l' = LastID l"
    by (rule reopen_restores_events [OF o0 _ a _ _ ok])
      (simp_all add: demo_events_def demo_io_def io_ok_def)
  then show ?thesis using c by auto
qed

end
