(* ===== verification/Errors.thy ===== *)
theory Errors
  imports Events
begin

text \<open>
  The error values of the sources and what the code observes of them: \<open>GitError\<close> and the helpers
  on git's arguments (\<open>common/git.go\<close>), \<open>PreflightError\<close>, \<open>hookError\<close>,
  \<open>rebaseConflictError\<close>, \<open>CodedError\<close>, the sentinel errors, and the error types of Go's library
  that reach them.

  An error is a chain of values linked by \<open>Unwrap\<close>; \<open>errors.As\<close> and \<open>errors.Is\<close> search the chain.
  \<open>Traced\<close> is a value wrapped by the third-party \<open>tracerr.Wrap\<close>: it has the text of the wrapped
  error and unwraps to it, which is all the sources see of it. \<open>Wrapped\<close> is the result of
  \<open>fmt.Errorf\<close> with \<open>%w\<close>: its whole text, and the wrapped error.

  The text of a hook error is a summary of the error below it, so the summary of an error and
  the helpers it uses (\<open>common/classify.go\<close>) are here too.
\<close>

section \<open>Values\<close>

datatype sentinel =
    errRebaseFailed | errDirtyWorktree | errDetachedHead | errUnbornBranch
  | errNoGitAuthorEmail | errNoGitAuthorName
  | DeadlineExceeded | Canceled | ErrNotExist | ErrNotFound

datatype goerror =
    GitError (ge_Args: "string list") (ge_Stdout: string) (ge_Stderr: string) (ge_ExitCode: int)
      (ge_TimedOut: bool) (ge_Timeout: duration) (ge_Err: goerror)
  | PreflightError (pe_Code: string) (pe_Message: string)
  | CodedError (ce_Code: string) (ce_Msg: string)
  | HookError (he_Hook: string) (he_Err: goerror)
  | RebaseConflictError (rc_Files: "string list") (rc_Head: string) (rc_Upstream: string)
  | Sentinel sentinel
  | Plain string
  | Wrapped string goerror
  | Traced goerror
  | ExitError int string
  | PathError (pa_Op: string) string goerror
  | ExecError string goerror
  | Errno string bool \<comment> \<open>its text, and whether it is \<open>ENOENT\<close>\<close>

section \<open>The chain of an error\<close>

fun chain :: "goerror \<Rightarrow> goerror list" where
  "chain (GitError a so se ec to t e) = GitError a so se ec to t e # chain e"
| "chain (HookError h e) = HookError h e # chain e"
| "chain (Wrapped m e) = Wrapped m e # chain e"
| "chain (Traced e) = Traced e # chain e"
| "chain (PathError op p e) = PathError op p e # chain e"
| "chain (ExecError n e) = ExecError n e # chain e"
| "chain e = [e]"

text \<open>\<open>errors.As\<close> for each of the types the sources ask for.\<close>

definition as_git :: "goerror \<Rightarrow> goerror option" where
  "as_git e = find is_GitError (chain e)"

definition as_preflight :: "goerror \<Rightarrow> goerror option" where
  "as_preflight e = find is_PreflightError (chain e)"

definition as_coded :: "goerror \<Rightarrow> goerror option" where
  "as_coded e = find is_CodedError (chain e)"

definition as_hook :: "goerror \<Rightarrow> goerror option" where
  "as_hook e = find is_HookError (chain e)"

definition as_conflict :: "goerror \<Rightarrow> goerror option" where
  "as_conflict e = find is_RebaseConflictError (chain e)"

definition as_exit :: "goerror \<Rightarrow> goerror option" where
  "as_exit e = find is_ExitError (chain e)"

definition as_path :: "goerror \<Rightarrow> goerror option" where
  "as_path e = find is_PathError (chain e)"

text \<open>
  One link against a target: identity, or the type's own \<open>Is\<close> (\<open>rebaseConflictError\<close> in
  \<open>rebase.go\<close>, \<open>Errno\<close> in Go's library).
\<close>

fun is_link :: "sentinel \<Rightarrow> goerror \<Rightarrow> bool" where
  "is_link t (Sentinel u) = (t = u)"
| "is_link t (RebaseConflictError _ _ _) = (t = errRebaseFailed)"
| "is_link t (Errno _ enoent) = (t = ErrNotExist \<and> enoent)"
| "is_link t _ = False"

definition is_error :: "sentinel \<Rightarrow> goerror \<Rightarrow> bool" where
  "is_error t e = list_ex (is_link t) (chain e)"

section \<open>Arguments of git\<close>

fun gitSubcommand :: "string list \<Rightarrow> string" where
  "gitSubcommand [] = []"
| "gitSubcommand (a # args) =
     (if a = ''-c'' \<or> a = ''-C'' then (case args of [] \<Rightarrow> [] | _ # rest \<Rightarrow> gitSubcommand rest)
      else if has_prefix a ''-'' then gitSubcommand args
      else a)"

declare gitSubcommand.simps [simp del]

definition isNetworkCommand :: "string \<Rightarrow> bool" where
  "isNetworkCommand sub \<longleftrightarrow> sub \<in> set [''fetch'', ''push'', ''pull'', ''clone'', ''ls-remote'']"

definition gitNetworkTimeout :: duration where "gitNetworkTimeout = 120000000000"
definition gitWriteTimeout :: duration where "gitWriteTimeout = 120000000000"
definition gitDefaultTimeout :: duration where "gitDefaultTimeout = 30000000000"

definition gitTimeout :: "string list \<Rightarrow> duration" where
  "gitTimeout args =
     (let sub = gitSubcommand args
      in if isNetworkCommand sub then gitNetworkTimeout
         else if sub = ''commit'' \<or> sub = ''rebase'' \<or> sub = ''add'' then gitWriteTimeout
         else gitDefaultTimeout)"

section \<open>Text\<close>

text \<open>\<open>cut_point s n\<close>: the loop of \<open>truncate\<close> that moves back to the start of a rune.\<close>

fun cut_point :: "string \<Rightarrow> nat \<Rightarrow> nat" where
  "cut_point s 0 = 0"
| "cut_point s (Suc n) = (if rune_start (s ! Suc n) then Suc n else cut_point s n)"

definition truncate_str :: "string \<Rightarrow> nat \<Rightarrow> string" where
  "truncate_str s n = (if length s \<le> n then s else take (cut_point s n) s @ ellipsis)"

definition firstLine :: "string \<Rightarrow> string" where
  "firstLine s = takeWhile (\<lambda>c. c \<noteq> CHR 0x0A) (trim_space s)"

definition after_last :: "char \<Rightarrow> string \<Rightarrow> string" where
  "after_last c s = (case str_last_index s [c] of None \<Rightarrow> s | Some i \<Rightarrow> drop (Suc i) s)"

definition meaningfulLines :: "string \<Rightarrow> string list" where
  "meaningfulLines s =
     filter (\<lambda>line. \<not> (line = [] \<or> has_prefix line ''hint:'' \<or> line = ''(no gpg output)''))
       (map (\<lambda>line. trim_space (after_last (CHR 0x0D) line)) (split_on (CHR 0x0A) s))"

definition summary_prefixes :: "string list" where
  "summary_prefixes = [''fatal: '', ''error: '', ''remote: error: '', ''ERROR: '']"

fun pick_messages :: "string list \<Rightarrow> string list \<Rightarrow> string list" where
  "pick_messages [] picked = picked"
| "pick_messages (line # ls) picked =
     (case find (\<lambda>p. has_prefix line p) summary_prefixes of
        None \<Rightarrow> pick_messages ls picked
      | Some p \<Rightarrow>
          let msg = trim_suffix (trim_space (trim_prefix line p)) '':''
          in if msg \<noteq> [] \<and> msg \<notin> set picked then pick_messages ls (picked @ [msg])
             else pick_messages ls picked)"

text \<open>\<open>errorSummary\<close> of an error with a git error in its chain.\<close>

fun git_summary :: "goerror \<Rightarrow> string" where
  "git_summary (GitError args stdout stderr ec timedOut timeout e) =
     (if timedOut then ''git '' @ gitSubcommand args @ '' timed out after '' @ duration_string timeout
      else
        let ls = meaningfulLines stderr;
            picked0 = pick_messages ls [];
            picked1 = (if picked0 = [] \<and> ls \<noteq> [] then [last ls] else picked0);
            outs = meaningfulLines stdout;
            picked = (if picked1 = [] \<and> outs \<noteq> [] then [last outs] else picked1)
        in if picked \<noteq> [] then truncate_str (join ''; '' picked) 300
           else if gitSubcommand args \<noteq> [] then ''git '' @ gitSubcommand args @ '' failed without output''
           else ''git failed without output'')"
| "git_summary e = []"

definition summary_with :: "goerror \<Rightarrow> string \<Rightarrow> string" where
  "summary_with e txt =
     (case as_git e of Some g \<Rightarrow> git_summary g | None \<Rightarrow> truncate_str (firstLine txt) 300)"

fun sentinel_text :: "sentinel \<Rightarrow> string" where
  "sentinel_text errRebaseFailed = ''git rebase failed''"
| "sentinel_text errDirtyWorktree = ''worktree changed during sync''"
| "sentinel_text errDetachedHead = ''detached HEAD''"
| "sentinel_text errUnbornBranch = ''branch has no commits''"
| "sentinel_text errNoGitAuthorEmail =
     ''git user.email is not set; run `git config --global user.email you@example.com`''"
| "sentinel_text errNoGitAuthorName =
     ''git user.name is not set; run `git config --global user.name '' @ [CHR 0x22] @ ''Your Name'' @
     [CHR 0x22] @ ''`''"
| "sentinel_text DeadlineExceeded = ''context deadline exceeded''"
| "sentinel_text Canceled = ''context canceled''"
| "sentinel_text ErrNotExist = ''file does not exist''"
| "sentinel_text ErrNotFound = ''executable file not found in $PATH''"

text \<open>\<open>Error()\<close>. The name in an \<open>exec.Error\<close> is printed quoted; quoting is the identity on plain names.\<close>

fun error_text :: "goerror \<Rightarrow> string" where
  "error_text (GitError args stdout stderr _ _ _ e) =
     error_text e @ '': Command: git '' @ join '' '' args @ [CHR 0x0A] @ ''StdOut: '' @ stdout @
     [CHR 0x0A] @ ''StdErr: '' @ stderr"
| "error_text (PreflightError _ msg) = msg"
| "error_text (CodedError _ msg) = msg"
| "error_text (HookError hook e) =
     ''commit rejected by the '' @ hook @ '' hook: '' @ summary_with e (error_text e)"
| "error_text (RebaseConflictError _ _ _) = sentinel_text errRebaseFailed"
| "error_text (Sentinel t) = sentinel_text t"
| "error_text (Plain msg) = msg"
| "error_text (Wrapped txt _) = txt"
| "error_text (Traced e) = error_text e"
| "error_text (ExitError _ msg) = msg"
| "error_text (PathError op p e) = op @ '' '' @ p @ '': '' @ error_text e"
| "error_text (ExecError name e) = ''exec: '' @ [CHR 0x22] @ name @ [CHR 0x22] @ '': '' @ error_text e"
| "error_text (Errno msg _) = msg"

definition errorSummary :: "goerror option \<Rightarrow> string" where
  "errorSummary err = (case err of None \<Rightarrow> [] | Some e \<Rightarrow> summary_with e (error_text e))"

definition gitExitCode :: "goerror option \<Rightarrow> int" where
  "gitExitCode err =
     (case err of
        None \<Rightarrow> - 1
      | Some e \<Rightarrow>
          (case as_git e of
             Some g \<Rightarrow> ge_ExitCode g
           | None \<Rightarrow> (case as_exit e of Some (ExitError code _) \<Rightarrow> code | _ \<Rightarrow> - 1)))"

definition ErrorCode :: "goerror option \<Rightarrow> string" where
  "ErrorCode err =
     (case err of None \<Rightarrow> [] | Some e \<Rightarrow> (case as_coded e of None \<Rightarrow> [] | Some c \<Rightarrow> ce_Code c))"

definition preflightCode :: "goerror option \<Rightarrow> string" where
  "preflightCode err =
     (case err of None \<Rightarrow> [] | Some e \<Rightarrow> (case as_preflight e of None \<Rightarrow> [] | Some p \<Rightarrow> pe_Code p))"

section \<open>Results of \<open>os.Stat\<close>\<close>

record file_info =
  fi_IsDir :: bool
  fi_Exec :: bool \<comment> \<open>\<open>Mode() & 0111 != 0\<close>\<close>
  fi_ModTime :: int \<comment> \<open>nanoseconds\<close>
  fi_Size :: int

type_synonym stat_result = "goerror + file_info"

section \<open>Lemmas\<close>

text \<open>
  \<open>tracerr.Wrap\<close> is transparent for everything the sources ask of an error; the rules are in
  the collection \<open>traced\<close>.
\<close>

named_theorems traced "transparency of Traced"

lemma as_Traced [simp, traced]:
  "as_git (Traced e) = as_git e" "as_preflight (Traced e) = as_preflight e"
  "as_coded (Traced e) = as_coded e" "as_hook (Traced e) = as_hook e"
  "as_conflict (Traced e) = as_conflict e" "as_exit (Traced e) = as_exit e"
  "as_path (Traced e) = as_path e" "is_error t (Traced e) = is_error t e"
  by (simp_all add: as_git_def as_preflight_def as_coded_def as_hook_def as_conflict_def as_exit_def
      as_path_def is_error_def)

lemma as_git_GitError:
  "as_git e = Some g \<Longrightarrow> \<exists>a so se ec to t e'. g = GitError a so se ec to t e'"
  by (auto simp: as_git_def find_Some_iff is_GitError_def)

lemma as_PreflightError [simp]:
  "as_git (PreflightError c m) = None" "as_preflight (PreflightError c m) = Some (PreflightError c m)"
  "as_coded (PreflightError c m) = None" "as_hook (PreflightError c m) = None"
  "as_conflict (PreflightError c m) = None" "is_error t (PreflightError c m) = False"
  by (simp_all add: as_git_def as_preflight_def as_coded_def as_hook_def as_conflict_def is_error_def)

lemma as_Sentinel [simp]:
  "as_git (Sentinel u) = None" "as_preflight (Sentinel u) = None"
  "as_coded (Sentinel u) = None" "as_hook (Sentinel u) = None"
  "as_conflict (Sentinel u) = None" "is_error t (Sentinel u) = (t = u)"
  by (simp_all add: as_git_def as_preflight_def as_coded_def as_hook_def as_conflict_def is_error_def)

lemma as_RebaseConflictError [simp]:
  "as_git (RebaseConflictError f h u) = None" "as_preflight (RebaseConflictError f h u) = None"
  "as_coded (RebaseConflictError f h u) = None" "as_hook (RebaseConflictError f h u) = None"
  "as_conflict (RebaseConflictError f h u) = Some (RebaseConflictError f h u)"
  "is_error t (RebaseConflictError f h u) = (t = errRebaseFailed)"
  by (simp_all add: as_git_def as_preflight_def as_coded_def as_hook_def as_conflict_def is_error_def)

lemma cut_point_le: "cut_point s n \<le> n"
  by (induction n) auto

lemma cut_point_start: "cut_point s n = 0 \<or> rune_start (s ! cut_point s n)"
  by (induction n) auto

lemma length_truncate: "length (truncate_str s n) \<le> n + 3"
  using cut_point_le [of s n] by (auto simp: truncate_str_def ellipsis_def)

lemma meaningfulLines_nonempty: "l \<in> set (meaningfulLines s) \<Longrightarrow> l \<noteq> []"
  by (auto simp: meaningfulLines_def)

lemma pick_messages_nonempty: "[] \<notin> set picked \<Longrightarrow> [] \<notin> set (pick_messages ls picked)"
proof (induction ls arbitrary: picked)
  case (Cons line ls)
  have "[] \<notin> set (pick_messages ls (picked @ [m]))" if "m \<noteq> []" for m
    using Cons.prems that by (intro Cons.IH) auto
  then show ?case using Cons.IH [OF Cons.prems]
    by (cases "find (\<lambda>p. has_prefix line p) summary_prefixes") (simp_all add: Let_def)
qed simp

end
