(* ===== verification/Classify.thy ===== *)
theory Classify
  imports Errors
begin

text \<open>
  \<open>common/classify.go\<close> and \<open>common/author.go\<close>: the code and the message shown for an error. The
  table of patterns is the one of the source, in its order; the first rule with a pattern in the
  lower-cased text decides.
\<close>

section \<open>The table\<close>

definition xcodeLicenseMessage :: string where
  "xcodeLicenseMessage = ''Xcode license not accepted. Run `sudo xcodebuild -license accept`''"

definition gitMissingMessage :: string where
  "gitMissingMessage = ''git is not installed or not working. Install the Xcode Command Line Tools with `xcode-select --install`''"

definition lfsMissingMessage :: string where
  "lfsMissingMessage = ''This repository uses Git LFS, but git-lfs is not installed. Install it with `brew install git-lfs`''"

definition untrustedMessage :: string where
  "untrustedMessage = ''Git does not trust this folder because another user owns it. Run `git config --global --add safe.directory <path>`''"

definition lockMessage :: string where
  "lockMessage = ''Another git process is using this repository; will retry''"

definition repoMissingMessage :: string where
  "repoMissingMessage = ''Repository folder is missing or is not a git repository''"

definition lfsMissingPatterns :: "string list" where
  "lfsMissingPatterns = [''git-lfs: command not found'', ''git-lfs: not found'',
     CHR 0x27 # ''git-lfs'' @ [CHR 0x27] @ '' was not found'']"

definition signingPatterns :: "string list" where
  "signingPatterns = [''failed to sign the data'', ''gpg: signing failed'']"

definition untrustedPatterns :: "string list" where
  "untrustedPatterns = [''dubious ownership'']"

definition errorRules :: "(string \<times> string list) list" where
  "errorRules =
    [(CodeXcodeLicense, [''xcode license'', ''xcodebuild -license'']),
     (CodeGitMissing,
       [''invalid active developer path'', ''no developer tools were found'',
        ''executable file not found'']),
     (CodeConfig,
       lfsMissingPatterns @ signingPatterns @ untrustedPatterns @
       [''couldn'' @ [CHR 0x27] @ ''t find remote ref'']),
     (CodeAuth,
       [''authentication failed'', ''could not read username'', ''could not read password'',
        ''terminal prompts disabled'', ''permission denied (publickey'',
        ''permission denied, please try again'', ''invalid username or password'',
        ''invalid credentials'', ''bad credentials'', ''password authentication was removed'',
        ''requested url returned error: 401'', ''requested url returned error: 403'',
        ''host key verification failed'', ''repository not found'']),
     (CodeNetwork,
       [''could not resolve host'', ''could not resolve hostname'',
        ''couldn'' @ [CHR 0x27] @ ''t resolve host'',
        ''temporary failure in name resolution'', ''nodename nor servname'',
        ''name or service not known'', ''failed to connect'', ''connection refused'',
        ''connection timed out'', ''connection timeout'', ''operation timed out'',
        ''connection reset'', ''connection closed by'', ''network is unreachable'',
        ''no route to host'', ''requested url returned error: 5'', ''rpc failed'', ''early eof'',
        ''remote end hung up unexpectedly'', ''unexpected disconnect'',
        ''kex_exchange_identification'', ''ssl_connect'', ''ssl_error'', ''ssl routines'', ''gnutls'',
        ''tls connection'', ''broken pipe'', ''from proxy after connect'']),
     (CodeConfig,
       [''does not appear to be a git repository'', ''no such remote'', ''not a git repository'',
        ''bad config'']),
     (CodeLock, [''index.lock'', ''cannot lock ref'']),
     (CodePushRejected,
       [''[rejected]'', ''[remote rejected]'', ''non-fast-forward'', ''fetch first'',
        ''pre-receive hook declined'', ''protected branch'', ''failed to push some refs'']),
     (CodeNetwork, [''could not read from remote repository''])]"

section \<open>Classification\<close>

definition containsAny :: "string \<Rightarrow> string list \<Rightarrow> bool" where
  "containsAny s patterns = list_ex (contains s) patterns"

definition match_rules :: "string \<Rightarrow> (string \<times> string list) list \<Rightarrow> string" where
  "match_rules lower rules =
     (case find (\<lambda>(_, ps). containsAny lower ps) rules of None \<Rightarrow> CodeUnknown | Some (code, _) \<Rightarrow> code)"

definition isHookError :: "goerror \<Rightarrow> bool" where
  "isHookError e \<longleftrightarrow> as_hook e \<noteq> None"

text \<open>What the failure to start git itself says, for a git error with exit code \<open>-1\<close>.\<close>

definition start_failure :: "goerror \<Rightarrow> string option" where
  "start_failure g =
     (if ge_ExitCode g = - 1 \<and> (case as_path (ge_Err g) of None \<Rightarrow> False | Some p \<Rightarrow> pa_Op p = ''chdir'')
      then Some CodeNotARepo
      else if ge_ExitCode g = - 1 \<and> (is_error ErrNotFound (ge_Err g) \<or> is_error ErrNotExist (ge_Err g))
      then Some CodeGitMissing
      else None)"

definition classify_text :: "goerror \<Rightarrow> string \<Rightarrow> string" where
  "classify_text e txt =
     (let lower = to_lower txt
      in if gitExitCode (Some e) = 69 \<and> contains lower ''license'' then CodeXcodeLicense
         else match_rules lower errorRules)"

definition ClassifyError :: "goerror option \<Rightarrow> string" where
  "ClassifyError err =
     (case err of
        None \<Rightarrow> []
      | Some e \<Rightarrow>
          if ErrorCode err \<noteq> [] then ErrorCode err
          else if is_error errRebaseFailed e then CodeConflict
          else if is_error errNoGitAuthorEmail e \<or> is_error errNoGitAuthorName e then CodeNoAuthor
          else if as_preflight e \<noteq> None then CodeConfig
          else if isHookError e then CodeConfig
          else if (case as_git e of None \<Rightarrow> False | Some g \<Rightarrow> ge_TimedOut g) \<or> is_error DeadlineExceeded e
          then CodeTimeout
          else (case as_git e of
                  None \<Rightarrow> classify_text e (error_text e)
                | Some g \<Rightarrow>
                    (case start_failure g of
                       Some code \<Rightarrow> code
                     | None \<Rightarrow> classify_text e (ge_Stderr g @ [CHR 0x0A] @ ge_Stdout g))))"

definition gitErrorText :: "goerror \<Rightarrow> string" where
  "gitErrorText e =
     (case as_git e of
        Some g \<Rightarrow> to_lower (ge_Stderr g @ [CHR 0x0A] @ ge_Stdout g)
      | None \<Rightarrow> to_lower (error_text e))"

definition isNetworkTimeout :: "goerror \<Rightarrow> bool" where
  "isNetworkTimeout e =
     (case as_git e of Some g \<Rightarrow> isNetworkCommand (gitSubcommand (ge_Args g)) | None \<Rightarrow> True)"

definition isUntrustedRepo :: "goerror option \<Rightarrow> bool" where
  "isUntrustedRepo err =
     (case err of None \<Rightarrow> False | Some e \<Rightarrow> containsAny (gitErrorText e) untrustedPatterns)"

definition authorError :: "goerror \<Rightarrow> goerror option" where
  "authorError e =
     (case as_git e of
        None \<Rightarrow> None
      | Some g \<Rightarrow>
          let s = to_lower (ge_Stderr g) in
          if contains s ''no email was given'' \<or> contains s ''unable to auto-detect email'' \<or>
             contains s ''empty ident email'' then Some (Sentinel errNoGitAuthorEmail)
          else if contains s ''no name was given'' \<or> contains s ''empty ident name'' \<or>
             contains s ''name consists only of disallowed characters''
          then Some (Sentinel errNoGitAuthorName)
          else None)"

section \<open>Messages\<close>

fun capitalize :: "string \<Rightarrow> string" where
  "capitalize [] = []"
| "capitalize (c # cs) = (if (of_char c :: nat) \<ge> 128 then c # cs else upper_byte c # cs)"

definition withDetail :: "string \<Rightarrow> string \<Rightarrow> string" where
  "withDetail label detail =
     (if detail = [] then label
      else if contains (to_lower detail) (to_lower label) then capitalize detail
      else label @ '': '' @ detail)"

definition networkDetail :: "string \<Rightarrow> string" where
  "networkDetail detail =
     (let marker = ''unable to access '' @ [CHR 0x27] in
      case str_index detail marker of
        None \<Rightarrow> detail
      | Some i \<Rightarrow>
          let rest = drop (i + length marker) detail in
          (case str_index rest (CHR 0x27 # '': '') of
             None \<Rightarrow> detail
           | Some j \<Rightarrow> take i detail @ drop (j + 3) rest))"

definition reject_reason :: "string \<Rightarrow> string \<Rightarrow> string" where
  "reject_reason line reason =
     (if contains line ''[rejected]'' \<or> contains line ''[remote rejected]'' then
        (case str_last_index line ''('' of
           None \<Rightarrow> reason
         | Some i \<Rightarrow> if has_suffix line '')'' then take (length line - 1 - Suc i) (drop (Suc i) line)
                     else reason)
      else reason)"

fun reject_scan :: "string list \<Rightarrow> string list \<Rightarrow> string \<Rightarrow> string list \<times> string" where
  "reject_scan [] remoteErrs reason = (remoteErrs, reason)"
| "reject_scan (line # ls) remoteErrs reason =
     (if has_prefix line ''remote: error: ''
      then reject_scan ls (remoteErrs @ [trim_prefix line ''remote: error: '']) reason
      else reject_scan ls remoteErrs (reject_reason line reason))"

definition pushRejectDetail :: "goerror \<Rightarrow> string \<Rightarrow> string" where
  "pushRejectDetail e detail =
     (case as_git e of
        None \<Rightarrow> detail
      | Some g \<Rightarrow>
          (case reject_scan (meaningfulLines (ge_Stderr g)) [] [] of
             (remoteErrs, reason) \<Rightarrow>
               if remoteErrs \<noteq> [] then truncate_str (join ''; '' remoteErrs) 300
               else if reason = [] then detail
               else if reason = ''fetch first'' \<or> reason = ''non-fast-forward''
               then ''the remote has new commits; will retry''
               else reason))"

definition stageLabel :: "string \<Rightarrow> string" where
  "stageLabel stage =
     (if stage = ''preflight'' then ''Repository check failed''
      else if stage = ''commit'' then ''Commit failed''
      else if stage = ''fetch'' then ''Fetch failed''
      else if stage = ''rebase'' then ''Rebase failed''
      else if stage = ''push'' then ''Push failed''
      else ''Git failed'')"

text \<open>The message by code, after the error types that carry their own message.\<close>

definition code_message :: "string \<Rightarrow> goerror \<Rightarrow> string" where
  "code_message stage e =
     (let code = ClassifyError (Some e);
          txt = gitErrorText e;
          detail = errorSummary (Some e);
          general = withDetail (stageLabel stage) detail
      in if code = CodeXcodeLicense then xcodeLicenseMessage
         else if code = CodeGitMissing then gitMissingMessage
         else if code = CodeNoAuthor then firstLine (error_text e)
         else if code = CodeNotARepo then repoMissingMessage
         else if code = CodeLock then lockMessage
         else if code = CodeConflict then ''Rebase conflict''
         else if code = CodeTimeout then capitalize detail
         else if code = CodeNetwork then withDetail (''Can'' @ [CHR 0x27] @ ''t reach the remote'') (networkDetail detail)
         else if code = CodeAuth then withDetail ''Authentication failed'' (networkDetail detail)
         else if code = CodePushRejected then withDetail ''Push rejected'' (pushRejectDetail e detail)
         else if code = CodeConfig then
           (if containsAny txt lfsMissingPatterns then lfsMissingMessage
            else if containsAny txt untrustedPatterns then untrustedMessage
            else if containsAny txt signingPatterns
            then withDetail ''Commit signing failed (commit.gpgsign is on)'' detail
            else general)
         else general)"

definition errorMessage :: "string \<Rightarrow> goerror option \<Rightarrow> string" where
  "errorMessage stage err =
     (case err of
        None \<Rightarrow> []
      | Some e \<Rightarrow>
          (case as_preflight e of
             Some p \<Rightarrow> pe_Message p
           | None \<Rightarrow>
               (case as_hook e of
                  Some h \<Rightarrow> capitalize (error_text h)
                | None \<Rightarrow>
                    (case as_coded e of Some c \<Rightarrow> ce_Msg c | None \<Rightarrow> code_message stage e))))"

definition ErrorMessage :: "goerror option \<Rightarrow> string" where
  "ErrorMessage err = errorMessage [] err"

definition isEnvironmentError :: "goerror option \<Rightarrow> bool" where
  "isEnvironmentError err \<longleftrightarrow>
     ClassifyError err \<in> set [CodeXcodeLicense, CodeGitMissing, CodeTimeout]"

section \<open>Lemmas\<close>

definition ErrorCodes :: "string set" where
  "ErrorCodes = {CodeNetwork, CodeAuth, CodeTimeout, CodeConflict, CodeLock, CodeXcodeLicense,
     CodeGitMissing, CodeNoAuthor, CodePushRejected, CodeConfig, CodeUnknown, CodeNotARepo}"

lemma rule_codes: "(code, ps) \<in> set errorRules \<Longrightarrow> code \<in> ErrorCodes"
  by (auto simp: errorRules_def ErrorCodes_def)

lemma match_rules_code: "match_rules lower errorRules \<in> ErrorCodes"
proof (cases "find (\<lambda>(_, ps). containsAny lower ps) errorRules")
  case None
  then show ?thesis by (simp add: match_rules_def ErrorCodes_def)
next
  case (Some r)
  obtain code ps where r: "r = (code, ps)" by (cases r)
  then have "(code, ps) \<in> set errorRules" using Some by (auto simp: find_Some_iff in_set_conv_nth)
  then show ?thesis using Some r rule_codes by (simp add: match_rules_def)
qed

lemma classify_text_code: "classify_text e txt \<in> ErrorCodes"
  using match_rules_code by (simp add: classify_text_def Let_def) (simp add: ErrorCodes_def)

lemma start_failure_code: "start_failure g = Some code \<Longrightarrow> code \<in> ErrorCodes"
  by (auto simp: start_failure_def ErrorCodes_def split: if_splits)

lemma ClassifyError_known:
  assumes "as_coded e = None"
  shows "ClassifyError (Some e) \<in> ErrorCodes"
proof -
  have c: "CodeConflict \<in> ErrorCodes" "CodeNoAuthor \<in> ErrorCodes" "CodeConfig \<in> ErrorCodes"
    "CodeTimeout \<in> ErrorCodes" by (simp_all add: ErrorCodes_def)
  have "ErrorCode (Some e) = []" using assms by (simp add: ErrorCode_def)
  then show ?thesis
    unfolding ClassifyError_def using c classify_text_code start_failure_code
    by (auto simp del: CodeConflict_def CodeNoAuthor_def CodeConfig_def CodeTimeout_def
        split: option.split)
qed

lemma gitExitCode_Traced [traced]: "gitExitCode (Some (Traced e)) = gitExitCode (Some e)"
  by (simp add: gitExitCode_def cong: option.case_cong)

lemma error_text_Traced [traced]: "error_text (Traced e) = error_text e"
  by simp

lemma ClassifyError_Traced [simp]: "ClassifyError (Some (Traced e)) = ClassifyError (Some e)"
  by (simp add: ClassifyError_def ErrorCode_def isHookError_def classify_text_def traced
      cong: option.case_cong)

lemma errorSummary_Traced [simp]: "errorSummary (Some (Traced e)) = errorSummary (Some e)"
  by (simp add: errorSummary_def summary_with_def traced)

lemma gitErrorText_Traced [traced]: "gitErrorText (Traced e) = gitErrorText e"
  by (simp add: gitErrorText_def cong: option.case_cong)

lemma pushRejectDetail_Traced [traced]: "pushRejectDetail (Traced e) detail = pushRejectDetail e detail"
  by (simp add: pushRejectDetail_def)

lemma code_message_Traced [traced]: "code_message stage (Traced e) = code_message stage e"
  unfolding code_message_def traced ClassifyError_Traced errorSummary_Traced by (rule refl)

lemma errorMessage_Traced: "errorMessage stage (Some (Traced e)) = errorMessage stage (Some e)"
  by (simp add: errorMessage_def traced cong: option.case_cong)

lemma as_git_Wrapped: "as_git (Wrapped m e) = as_git e"
  by (simp add: as_git_def)

lemma capitalize_nonempty [simp]: "capitalize s = [] \<longleftrightarrow> s = []"
  by (cases s) auto

lemma withDetail_nonempty: "label \<noteq> [] \<Longrightarrow> withDetail label detail \<noteq> []"
  by (simp add: withDetail_def)

lemma truncate_nonempty: "s \<noteq> [] \<Longrightarrow> truncate_str s n \<noteq> []"
  by (simp add: truncate_str_def ellipsis_def)

lemma join_nonempty: "xs \<noteq> [] \<Longrightarrow> [] \<notin> set xs \<Longrightarrow> join sep xs \<noteq> []"
  by (cases xs; cases "tl xs") auto

lemma meaningfulLines_no_Nil: "[] \<notin> set (meaningfulLines s)"
  using meaningfulLines_nonempty by blast

lemma git_summary_nonempty: "git_summary (GitError args so se ec to t e) \<noteq> []"
proof -
  have "[] \<notin> set (pick_messages (meaningfulLines se) [])" by (rule pick_messages_nonempty) simp
  moreover have "x \<noteq> []" if "xs \<noteq> []" "[] \<notin> set xs" "x = last xs" for x :: string and xs
    using that last_in_set by metis
  ultimately show ?thesis
    using meaningfulLines_no_Nil [of se] meaningfulLines_no_Nil [of so]
    by (simp add: Let_def truncate_nonempty join_nonempty)
qed

lemma errorSummary_git: "as_git e = Some g \<Longrightarrow> errorSummary (Some e) \<noteq> []"
  using as_git_GitError [of e g] git_summary_nonempty
  by (auto simp: errorSummary_def summary_with_def simp del: git_summary.simps)

section \<open>Properties\<close>

text \<open>
  Classification is total and stable: an error that does not carry its own code gets one of
  the twelve codes of the program, and wrapping an error with a stack trace, which the sources do
  at nearly every return, changes neither its code nor its message.
\<close>

theorem ClassifyError_total_and_transparent:
  "(as_coded e = None \<longrightarrow> ClassifyError (Some e) \<in> ErrorCodes) \<and>
   ClassifyError (Some (Traced e)) = ClassifyError (Some e) \<and>
   errorMessage stage (Some (Traced e)) = errorMessage stage (Some e)"
  using ClassifyError_known errorMessage_Traced by simp

theorem ClassifyError_total_and_transparent_witness:
  "as_coded (Plain ''fatal: Could not resolve host: x'') = None \<and>
   ClassifyError (Some (Plain ''fatal: Could not resolve host: x'')) \<in> ErrorCodes \<and>
   ClassifyError (Some (Plain ''fatal: Could not resolve host: x'')) = CodeNetwork"
proof -
  have "as_coded (Plain ''fatal: Could not resolve host: x'') = None" by (simp add: as_coded_def)
  moreover have "ClassifyError (Some (Plain ''fatal: Could not resolve host: x'')) = CodeNetwork"
    by code_simp
  ultimately show ?thesis
    using ClassifyError_total_and_transparent [of "Plain ''fatal: Could not resolve host: x''" "[]"]
    by blast
qed

text \<open>
  A git command that was stopped by its time limit is reported as a timeout and as nothing
  else, whatever it had printed, and the message names the command and the limit.
\<close>

theorem timed_out_git_is_timeout:
  "let e = Traced (GitError args out err ec True limit (Wrapped m (Sentinel DeadlineExceeded)))
   in ClassifyError (Some e) = CodeTimeout \<and>
      errorMessage stage (Some e) =
        capitalize (''git '' @ gitSubcommand args @ '' timed out after '' @ duration_string limit)"
proof -
  let ?g = "GitError args out err ec True limit (Wrapped m (Sentinel DeadlineExceeded))"
  have as: "as_git ?g = Some ?g" "as_preflight ?g = None" "as_coded ?g = None" "as_hook ?g = None"
    "\<not> is_error errRebaseFailed ?g" "\<not> is_error errNoGitAuthorEmail ?g"
    "\<not> is_error errNoGitAuthorName ?g"
    by (simp_all add: as_git_def as_preflight_def as_coded_def as_hook_def is_error_def)
  then have c: "ClassifyError (Some ?g) = CodeTimeout"
    by (simp add: ClassifyError_def ErrorCode_def isHookError_def)
  moreover have "errorSummary (Some ?g) =
      ''git '' @ gitSubcommand args @ '' timed out after '' @ duration_string limit"
    using as(1) by (simp add: errorSummary_def summary_with_def)
  ultimately have "errorMessage stage (Some ?g) =
      capitalize (''git '' @ gitSubcommand args @ '' timed out after '' @ duration_string limit)"
    using as by (simp add: errorMessage_def code_message_def Let_def)
  then show ?thesis using c by (simp add: Let_def errorMessage_Traced)
qed

text \<open>
  A failed git command never gets an empty message: if there is a git error in the chain,
  no error type that brings its own message and no author error, then the message for any stage
  is non-empty, even when git printed nothing at all.
\<close>

theorem git_failure_has_message:
  assumes "as_git e = Some g" and "as_preflight e = None" and "as_hook e = None"
    and "as_coded e = None" and "ClassifyError (Some e) \<noteq> CodeNoAuthor"
  shows "errorMessage stage (Some e) \<noteq> []"
proof -
  have n: "xcodeLicenseMessage \<noteq> []" "gitMissingMessage \<noteq> []" "repoMissingMessage \<noteq> []"
    "lockMessage \<noteq> []" "lfsMissingMessage \<noteq> []" "untrustedMessage \<noteq> []" "stageLabel stage \<noteq> []"
    by (simp_all add: xcodeLicenseMessage_def gitMissingMessage_def repoMissingMessage_def
        lockMessage_def lfsMissingMessage_def untrustedMessage_def stageLabel_def)
  then have "code_message stage e \<noteq> []"
    using assms(5) errorSummary_git [OF assms(1)] unfolding code_message_def Let_def
    by (auto intro!: withDetail_nonempty simp del: CodeNoAuthor_def)
  then show ?thesis using assms by (simp add: errorMessage_def)
qed

theorem git_failure_has_message_witness:
  "errorMessage ''push'' (Some (Traced (GitError [''push''] [] [] 1 False 0 (ExitError 1 ''exit status 1'')))) \<noteq> []"
  by (rule git_failure_has_message
      [where g = "GitError [''push''] [] [] 1 False 0 (ExitError 1 ''exit status 1'')"])
    (simp_all add: as_git_def as_preflight_def as_hook_def as_coded_def, code_simp)

text \<open>
  Truncation keeps the text whole up to the limit, and otherwise cuts it at or before the
  limit, never in the middle of a UTF-8 sequence, and says so with an ellipsis.
\<close>

theorem truncate_cuts_at_rune:
  "(length s \<le> n \<longrightarrow> truncate_str s n = s) \<and>
   (n < length s \<longrightarrow> (\<exists>k \<le> n. truncate_str s n = take k s @ ellipsis \<and> (k = 0 \<or> rune_start (s ! k))
      \<and> (\<forall>j. k < j \<and> j \<le> n \<longrightarrow> \<not> rune_start (s ! j))))"
proof -
  have max: "\<not> rune_start (s ! j)" if "cut_point s n < j" "j \<le> n" for j
    using that
  proof (induction n)
    case (Suc n)
    then show ?case by (cases "j = Suc n") (auto split: if_splits)
  qed simp
  show ?thesis
    using cut_point_le [of s n] cut_point_start [of s n] max
    by (auto simp: truncate_str_def intro!: exI [of _ "cut_point s n"])
qed

theorem truncate_cuts_at_rune_witness:
  "(\<exists>k \<le> 2. truncate_str [CHR ''a'', CHR 0xC3, CHR 0xA9, CHR ''b''] 2 =
      take k [CHR ''a'', CHR 0xC3, CHR 0xA9, CHR ''b''] @ ellipsis \<and>
      (k = 0 \<or> rune_start ([CHR ''a'', CHR 0xC3, CHR 0xA9, CHR ''b''] ! k)))"
  using truncate_cuts_at_rune [of "[CHR ''a'', CHR 0xC3, CHR 0xA9, CHR ''b'']" 2] by auto

end
