(* ===== verification/RepoState.thy ===== *)
theory RepoState
  imports Events
begin

text \<open>
  \<open>common/repostate.go\<close>: what the daemon knows of every repository, and the store of it.

  The Go map of the store is an association list with distinct keys. A listener is the list of
  snapshots it has been called with, in order. The store's mutexes make each operation atomic,
  so an execution is a sequence of operations. \<open>time.Now()\<close> is an argument.

  The interface \<open>keyed_store\<close> is what the callers of the store rely on; it is interpreted on
  \<open>Get\<close> and \<open>Update\<close>. The invariant \<open>store_inv\<close> is kept by every operation.
\<close>

section \<open>Data\<close>

definition StatusIdle :: string where [simp]: "StatusIdle = ''idle''"
definition StatusSyncing :: string where [simp]: "StatusSyncing = ''syncing''"
definition StatusOK :: string where [simp]: "StatusOK = ''ok''"
definition StatusError :: string where [simp]: "StatusError = ''error''"
definition StatusConflict :: string where [simp]: "StatusConflict = ''conflict''"
definition StatusPreflight :: string where [simp]: "StatusPreflight = ''preflight''"
definition StatusPaused :: string where [simp]: "StatusPaused = ''paused''"
definition StatusOffline :: string where [simp]: "StatusOffline = ''offline''"

record repo_state =
  st_Path :: string
  st_Status :: string
  st_Branch :: string
  st_Upstream :: string
  st_Ahead :: go_int
  st_Behind :: go_int
  st_LastSyncTs :: int
  st_LastActivity :: string
  st_LastError :: string
  st_Preflight :: string
  st_Paused :: bool
  st_Conflict :: bool
  st_ConflictFiles :: "string list"
  st_Watching :: bool
  st_BatchPending :: bool
  st_BatchDueTs :: int
  st_PollInterval :: go_int
  st_BatchWindow :: go_int
  st_ErrorCode :: string
  st_LastChangeTs :: int
  st_LastCheckTs :: int
  st_NextRetryTs :: int
  st_Failures :: go_int
  st_ConflictHead :: string
  st_ConflictUp :: string
  st_Seq :: u64

text \<open>\<open>&RepoState{Path: path, Status: StatusIdle}\<close>, and the zero value \<open>RepoState{}\<close>.\<close>

definition idle_state :: "string \<Rightarrow> repo_state" where
  "idle_state path = \<lparr>st_Path = path, st_Status = StatusIdle, st_Branch = [], st_Upstream = [],
     st_Ahead = 0, st_Behind = 0, st_LastSyncTs = 0, st_LastActivity = [], st_LastError = [],
     st_Preflight = [], st_Paused = False, st_Conflict = False, st_ConflictFiles = [],
     st_Watching = False, st_BatchPending = False, st_BatchDueTs = 0, st_PollInterval = 0,
     st_BatchWindow = 0, st_ErrorCode = [], st_LastChangeTs = 0, st_LastCheckTs = 0,
     st_NextRetryTs = 0, st_Failures = 0, st_ConflictHead = [], st_ConflictUp = [], st_Seq = 0\<rparr>"

definition zero_state :: repo_state where
  "zero_state = (idle_state [])\<lparr>st_Status := []\<rparr>"

record repo_store =
  rs_states :: "(string \<times> repo_state) list"
  rs_listeners :: "repo_state list list"
  rs_seq :: u64

section \<open>Operations\<close>

definition NewRepoStateStore :: repo_store where
  "NewRepoStateStore = \<lparr>rs_states = [], rs_listeners = [], rs_seq = 0\<rparr>"

definition OnChange :: "repo_store \<Rightarrow> repo_store" where
  "OnChange s = s\<lparr>rs_listeners := rs_listeners s @ [[]]\<rparr>"

definition Ensure :: "repo_store \<Rightarrow> string \<Rightarrow> repo_store" where
  "Ensure s path =
     (case map_of (rs_states s) path of
        None \<Rightarrow> s\<lparr>rs_states := AList.update path (idle_state path) (rs_states s)\<rparr>
      | Some _ \<Rightarrow> s)"

definition Remove :: "repo_store \<Rightarrow> string \<Rightarrow> repo_store" where
  "Remove s path = s\<lparr>rs_states := AList.delete path (rs_states s)\<rparr>"

definition Get :: "repo_store \<Rightarrow> string \<Rightarrow> repo_state option" where
  "Get s path = map_of (rs_states s) path"

definition Snapshot :: "repo_store \<Rightarrow> repo_state list" where
  "Snapshot s = map snd (rs_states s)"

text \<open>The common tail of \<open>Update\<close> and \<open>UpdateExisting\<close>: write, number, notify.\<close>

definition publish :: "repo_store \<Rightarrow> string \<Rightarrow> repo_state \<Rightarrow> repo_store" where
  "publish s path st =
     (let seq = rs_seq s + 1; snap = st\<lparr>st_Seq := seq\<rparr>
      in s\<lparr>rs_states := AList.update path snap (rs_states s),
           rs_listeners := map (\<lambda>l. l @ [snap]) (rs_listeners s),
           rs_seq := seq\<rparr>)"

definition Update :: "repo_store \<Rightarrow> string \<Rightarrow> (repo_state \<Rightarrow> repo_state) \<Rightarrow> repo_store" where
  "Update s path fn =
     publish s path (fn (case map_of (rs_states s) path of None \<Rightarrow> idle_state path | Some st \<Rightarrow> st))"

definition UpdateExisting ::
  "repo_store \<Rightarrow> string \<Rightarrow> (repo_state \<Rightarrow> repo_state) \<Rightarrow> bool \<times> repo_store" where
  "UpdateExisting s path fn =
     (case map_of (rs_states s) path of
        None \<Rightarrow> (False, s)
      | Some st \<Rightarrow> (True, publish s path (fn st)))"

definition MarkSyncing :: "repo_store \<Rightarrow> string \<Rightarrow> repo_store" where
  "MarkSyncing s path =
     Update s path (\<lambda>st. if st_Paused st then st else st\<lparr>st_Status := StatusSyncing\<rparr>)"

definition MarkSuccess :: "int \<Rightarrow> repo_store \<Rightarrow> string \<Rightarrow> string \<Rightarrow> repo_store" where
  "MarkSuccess now s path activity =
     Update s path (\<lambda>st. st\<lparr>st_Status := StatusOK, st_LastActivity := activity,
       st_LastSyncTs := now, st_LastError := [], st_ErrorCode := [], st_Preflight := [],
       st_Conflict := False, st_ConflictFiles := [], st_ConflictHead := [], st_ConflictUp := [],
       st_NextRetryTs := 0, st_Failures := 0\<rparr>)"

definition MarkErrorCode :: "repo_store \<Rightarrow> string \<Rightarrow> string \<Rightarrow> string \<Rightarrow> repo_store" where
  "MarkErrorCode s path code msg =
     Update s path (\<lambda>st. st\<lparr>st_Status := StatusError, st_LastError := msg, st_ErrorCode := code,
       st_Preflight := [], st_Failures := st_Failures st + 1\<rparr>)"

definition MarkError :: "repo_store \<Rightarrow> string \<Rightarrow> string \<Rightarrow> repo_store" where
  "MarkError s path msg = MarkErrorCode s path CodeUnknown msg"

definition MarkOffline :: "repo_store \<Rightarrow> string \<Rightarrow> string \<Rightarrow> int \<Rightarrow> repo_store" where
  "MarkOffline s path msg nextRetry =
     Update s path (\<lambda>st. st\<lparr>st_Status := StatusOffline, st_LastError := msg,
       st_ErrorCode := CodeNetwork, st_Preflight := [], st_NextRetryTs := nextRetry,
       st_Failures := st_Failures st + 1\<rparr>)"

definition MarkChecked :: "int \<Rightarrow> repo_store \<Rightarrow> string \<Rightarrow> bool \<Rightarrow> repo_store" where
  "MarkChecked now s path changed =
     Update s path (\<lambda>st. let st1 = st\<lparr>st_LastCheckTs := now\<rparr>
       in if changed then st1\<lparr>st_LastChangeTs := now\<rparr> else st1)"

definition SetConflictRefs :: "repo_store \<Rightarrow> string \<Rightarrow> string \<Rightarrow> string \<Rightarrow> repo_store" where
  "SetConflictRefs s path head upstream =
     Update s path (\<lambda>st. st\<lparr>st_ConflictHead := head, st_ConflictUp := upstream\<rparr>)"

definition MarkConflict :: "repo_store \<Rightarrow> string \<Rightarrow> string list \<Rightarrow> string \<Rightarrow> repo_store" where
  "MarkConflict s path conflictFiles msg =
     Update s path (\<lambda>st. st\<lparr>st_Status := StatusConflict, st_Conflict := True,
       st_ConflictFiles := conflictFiles, st_LastError := msg, st_ErrorCode := CodeConflict,
       st_Preflight := []\<rparr>)"

definition MarkPreflight :: "repo_store \<Rightarrow> string \<Rightarrow> string \<Rightarrow> repo_store" where
  "MarkPreflight s path reason =
     Update s path (\<lambda>st. st\<lparr>st_Status := StatusPreflight, st_Preflight := reason\<rparr>)"

definition MarkPreflightCode :: "repo_store \<Rightarrow> string \<Rightarrow> string \<Rightarrow> string \<Rightarrow> repo_store" where
  "MarkPreflightCode s path code reason =
     Update s path (\<lambda>st. st\<lparr>st_Status := StatusPreflight, st_Preflight := reason,
       st_ErrorCode := code\<rparr>)"

text \<open>\<open>MarkRepoMissing\<close> also says whether it changed anything.\<close>

definition MarkRepoMissing :: "repo_store \<Rightarrow> string \<Rightarrow> string \<Rightarrow> bool \<times> repo_store" where
  "MarkRepoMissing s path msg =
     (let st = (case map_of (rs_states s) path of None \<Rightarrow> idle_state path | Some st \<Rightarrow> st)
      in (st_Status st \<noteq> StatusPreflight \<or> st_ErrorCode st \<noteq> CodeRepoMissing \<or> st_Preflight st \<noteq> msg,
          Update s path (\<lambda>st. st\<lparr>st_Status := StatusPreflight, st_Preflight := msg,
            st_LastError := msg, st_ErrorCode := CodeRepoMissing, st_NextRetryTs := 0,
            st_BatchPending := False, st_BatchDueTs := 0\<rparr>)))"

definition clear_missing :: "repo_state \<Rightarrow> repo_state" where
  "clear_missing st =
     (if st_ErrorCode st \<noteq> CodeRepoMissing then st
      else st\<lparr>st_Preflight := [], st_LastError := [], st_ErrorCode := [],
        st_Status := (if st_Paused st then StatusPaused else StatusIdle)\<rparr>)"

definition ClearRepoMissing :: "repo_store \<Rightarrow> string \<Rightarrow> bool \<times> repo_store" where
  "ClearRepoMissing s path =
     (let cleared = (case map_of (rs_states s) path of
                       None \<Rightarrow> False | Some st \<Rightarrow> st_ErrorCode st = CodeRepoMissing)
      in (cleared, snd (UpdateExisting s path clear_missing)))"

definition SetWatching :: "repo_store \<Rightarrow> string \<Rightarrow> bool \<Rightarrow> repo_store" where
  "SetWatching s path watching =
     snd (UpdateExisting s path (\<lambda>st. st\<lparr>st_Watching := watching\<rparr>))"

definition SetPaused :: "repo_store \<Rightarrow> string \<Rightarrow> bool \<Rightarrow> repo_store" where
  "SetPaused s path paused =
     Update s path (\<lambda>st. let st1 = st\<lparr>st_Paused := paused\<rparr>
       in if paused then st1\<lparr>st_Status := StatusPaused\<rparr>
          else if st_Status st1 = StatusPaused then st1\<lparr>st_Status := StatusIdle\<rparr> else st1)"

definition SetBranchInfo ::
  "repo_store \<Rightarrow> string \<Rightarrow> string \<Rightarrow> string \<Rightarrow> go_int \<Rightarrow> go_int \<Rightarrow> repo_store" where
  "SetBranchInfo s path branch upstream ahead behind =
     Update s path (\<lambda>st. st\<lparr>st_Branch := branch, st_Upstream := upstream, st_Ahead := ahead,
       st_Behind := behind\<rparr>)"

definition SetBatchPending :: "repo_store \<Rightarrow> string \<Rightarrow> bool \<Rightarrow> int \<Rightarrow> repo_store" where
  "SetBatchPending s path pending dueTs =
     Update s path (\<lambda>st. st\<lparr>st_BatchPending := pending, st_BatchDueTs := dueTs\<rparr>)"

definition SetSettings :: "repo_store \<Rightarrow> string \<Rightarrow> go_int \<Rightarrow> go_int \<Rightarrow> repo_store" where
  "SetSettings s path pollSec batchSec =
     Update s path (\<lambda>st. st\<lparr>st_PollInterval := pollSec, st_BatchWindow := batchSec\<rparr>)"

definition SetNextRetry :: "repo_store \<Rightarrow> string \<Rightarrow> int \<Rightarrow> repo_store" where
  "SetNextRetry s path ts = Update s path (\<lambda>st. st\<lparr>st_NextRetryTs := ts\<rparr>)"

definition ClearPreflight :: "repo_store \<Rightarrow> string \<Rightarrow> repo_store" where
  "ClearPreflight s path =
     Update s path (\<lambda>st. let st1 = st\<lparr>st_Preflight := []\<rparr>
       in if st_Status st1 = StatusPreflight
          then st1\<lparr>st_ErrorCode := [],
                 st_Status := (if st_Paused st1 then StatusPaused else StatusIdle)\<rparr>
          else st1)"

section \<open>The interface of the store\<close>

text \<open>
  What callers rely on: \<open>modify\<close> changes one key, starting from a default when the key is new,
  and leaves the other keys alone.
\<close>

locale keyed_store =
  fixes lookup :: "'s \<Rightarrow> 'k \<Rightarrow> 'v option"
    and modify :: "'s \<Rightarrow> 'k \<Rightarrow> ('v \<Rightarrow> 'v) \<Rightarrow> 's"
    and initial :: "'k \<Rightarrow> 'v"
    and same :: "'v \<Rightarrow> 'v \<Rightarrow> bool" \<comment> \<open>equal up to what the store itself writes\<close>
  assumes lookup_modify_same:
      "\<exists>v. lookup (modify s k f) k = Some v \<and>
         same v (f (case lookup s k of None \<Rightarrow> initial k | Some u \<Rightarrow> u))"
    and lookup_modify_other: "k' \<noteq> k \<Longrightarrow> lookup (modify s k f) k' = lookup s k'"
begin

lemma lookup_modifies_other:
  "k' \<notin> fst ` set fs \<Longrightarrow> lookup (foldl (\<lambda>s (k, f). modify s k f) s fs) k' = lookup s k'"
  by (induction fs arbitrary: s) (auto simp: lookup_modify_other)

lemma lookup_modifies_defined:
  "k \<in> fst ` set fs \<or> lookup s k \<noteq> None \<Longrightarrow> lookup (foldl (\<lambda>s (k, f). modify s k f) s fs) k \<noteq> None"
proof (induction fs arbitrary: s)
  case Nil
  then show ?case by simp
next
  case (Cons kf fs)
  obtain k1 f where kf: "kf = (k1, f)" by (cases kf)
  have "lookup (modify s k1 f) k1 \<noteq> None" using lookup_modify_same [of s k1 f] by auto
  then have "k \<in> fst ` set fs \<or> lookup (modify s k1 f) k \<noteq> None"
    using Cons.prems kf lookup_modify_other [of k k1 s f] by (cases "k = k1") auto
  then show ?case using Cons.IH kf by auto
qed

end

definition same_but_seq :: "repo_state \<Rightarrow> repo_state \<Rightarrow> bool" where
  "same_but_seq a b \<longleftrightarrow> a\<lparr>st_Seq := 0\<rparr> = b\<lparr>st_Seq := 0\<rparr>"

definition current :: "repo_store \<Rightarrow> string \<Rightarrow> repo_state" where
  "current s path = (case Get s path of None \<Rightarrow> idle_state path | Some st \<Rightarrow> st)"

lemma Get_publish:
  "Get (publish s path st) q = (if q = path then Some (st\<lparr>st_Seq := rs_seq s + 1\<rparr>) else Get s q)"
  by (simp add: Get_def publish_def Let_def)

lemma Get_Update:
  "Get (Update s path fn) q =
     (if q = path then Some ((fn (current s path))\<lparr>st_Seq := rs_seq s + 1\<rparr>) else Get s q)"
  by (simp add: Update_def current_def Get_publish) (simp add: Get_def)

interpretation store: keyed_store Get Update idle_state same_but_seq
  by unfold_locales (auto simp: Get_Update current_def same_but_seq_def)

lemma current_Update:
  "current (Update s path fn) q =
     (if q = path then (fn (current s path))\<lparr>st_Seq := rs_seq s + 1\<rparr> else current s q)"
  by (simp add: current_def Get_Update)

lemma Get_Ensure: "Get (Ensure s path) q = (if q = path then Some (current s path) else Get s q)"
  by (auto simp: Get_def Ensure_def current_def split: option.split)

lemma current_Ensure [simp]: "current (Ensure s path) q = current s q"
  by (auto simp: current_def Get_Ensure split: option.split)

lemma Get_Remove: "Get (Remove s path) q = (if q = path then None else Get s q)"
  by (simp add: Get_def Remove_def)

lemma rs_seq_Update [simp]: "rs_seq (Update s path fn) = rs_seq s + 1"
  by (simp add: Update_def publish_def Let_def)

lemma rs_listeners_Update:
  "rs_listeners (Update s path fn) = map (\<lambda>l. l @ [current (Update s path fn) path]) (rs_listeners s)"
  by (simp add: Update_def publish_def Let_def current_def Get_def)

lemma UpdateExisting_eq:
  "UpdateExisting s path fn =
     (case Get s path of None \<Rightarrow> (False, s) | Some _ \<Rightarrow> (True, Update s path fn))"
  by (auto simp: UpdateExisting_def Update_def Get_def split: option.split)

lemma current_path: "(\<And>st. Get s p = Some st \<Longrightarrow> st_Path st = p) \<Longrightarrow> st_Path (current s p) = p"
  by (simp add: current_def idle_state_def split: option.split)

section \<open>Executions of the store\<close>

text \<open>One constructor for each exported operation that changes the store.\<close>

datatype store_op =
    OpOnChange
  | OpEnsure string
  | OpRemove string
  | OpSyncing string
  | OpSuccess int string string
  | OpErrorCode string string string
  | OpError string string
  | OpOffline string string int
  | OpChecked int string bool
  | OpConflictRefs string string string
  | OpConflict string "string list" string
  | OpPreflight string string
  | OpPreflightCode string string string
  | OpMissing string string
  | OpClearMissing string
  | OpWatching string bool
  | OpPaused string bool
  | OpBranchInfo string string string go_int go_int
  | OpBatchPending string bool int
  | OpSettings string go_int go_int
  | OpNextRetry string int
  | OpClearPreflight string

fun store_step :: "repo_store \<Rightarrow> store_op \<Rightarrow> repo_store" where
  "store_step s OpOnChange = OnChange s"
| "store_step s (OpEnsure p) = Ensure s p"
| "store_step s (OpRemove p) = Remove s p"
| "store_step s (OpSyncing p) = MarkSyncing s p"
| "store_step s (OpSuccess now p a) = MarkSuccess now s p a"
| "store_step s (OpErrorCode p c m) = MarkErrorCode s p c m"
| "store_step s (OpError p m) = MarkError s p m"
| "store_step s (OpOffline p m t) = MarkOffline s p m t"
| "store_step s (OpChecked now p b) = MarkChecked now s p b"
| "store_step s (OpConflictRefs p h u) = SetConflictRefs s p h u"
| "store_step s (OpConflict p fs m) = MarkConflict s p fs m"
| "store_step s (OpPreflight p r) = MarkPreflight s p r"
| "store_step s (OpPreflightCode p c r) = MarkPreflightCode s p c r"
| "store_step s (OpMissing p m) = snd (MarkRepoMissing s p m)"
| "store_step s (OpClearMissing p) = snd (ClearRepoMissing s p)"
| "store_step s (OpWatching p b) = SetWatching s p b"
| "store_step s (OpPaused p b) = SetPaused s p b"
| "store_step s (OpBranchInfo p b u a h) = SetBranchInfo s p b u a h"
| "store_step s (OpBatchPending p b t) = SetBatchPending s p b t"
| "store_step s (OpSettings p a b) = SetSettings s p a b"
| "store_step s (OpNextRetry p t) = SetNextRetry s p t"
| "store_step s (OpClearPreflight p) = ClearPreflight s p"

definition store_run :: "repo_store \<Rightarrow> store_op list \<Rightarrow> repo_store" where
  "store_run s ops = foldl store_step s ops"

definition known_status :: "string \<Rightarrow> bool" where
  "known_status status \<longleftrightarrow>
     status \<in> {StatusIdle, StatusSyncing, StatusOK, StatusError, StatusConflict,
               StatusPreflight, StatusPaused, StatusOffline}"

definition repo_ok :: "repo_state \<Rightarrow> bool" where
  "repo_ok st \<longleftrightarrow>
     known_status (st_Status st) \<and>
     (st_Status st = StatusConflict \<longrightarrow> st_Conflict st \<and> st_ErrorCode st = CodeConflict) \<and>
     (st_Status st = StatusPaused \<longrightarrow> st_Paused st) \<and>
     (st_Paused st \<longrightarrow> st_Status st \<noteq> StatusIdle \<and> st_Status st \<noteq> StatusSyncing) \<and>
     (st_Status st = StatusOffline \<longrightarrow> st_ErrorCode st = CodeNetwork \<or> st_ErrorCode st = CodeTimeout) \<and>
     (st_Status st = StatusOK \<longrightarrow> \<not> st_Conflict st \<and> st_ConflictFiles st = [] \<and>
        st_LastError st = [] \<and> st_ErrorCode st = [] \<and> st_Preflight st = [] \<and> st_Failures st = 0)"

text \<open>
  Every step is one of five: registration, \<open>Ensure\<close>, \<open>Remove\<close>, nothing, or an \<open>Update\<close> by a
  function that keeps \<open>repo_ok\<close> and the path. The proofs about executions go through this
  shape, not through the operations.
\<close>

inductive store_shape :: "repo_store \<Rightarrow> repo_store \<Rightarrow> bool" where
  shape_listen: "store_shape s (OnChange s)"
| shape_ensure: "store_shape s (Ensure s p)"
| shape_remove: "store_shape s (Remove s p)"
| shape_none: "store_shape s s"
| shape_update:
    "(\<And>st. st_Path (fn st) = st_Path st) \<Longrightarrow> (\<And>st. repo_ok st \<Longrightarrow> repo_ok (fn st)) \<Longrightarrow>
     store_shape s (Update s p fn)"

lemmas mark_defs = MarkSyncing_def MarkSuccess_def MarkErrorCode_def MarkError_def MarkOffline_def
  MarkChecked_def SetConflictRefs_def MarkConflict_def MarkPreflight_def MarkPreflightCode_def
  SetPaused_def SetBranchInfo_def SetBatchPending_def SetSettings_def SetNextRetry_def
  ClearPreflight_def

lemma shape_existing:
  "(\<And>st. st_Path (fn st) = st_Path st) \<Longrightarrow> (\<And>st. repo_ok st \<Longrightarrow> repo_ok (fn st)) \<Longrightarrow>
   store_shape s (snd (UpdateExisting s p fn))"
  by (auto simp: UpdateExisting_eq split: option.split intro: store_shape.intros)

lemma known_status_simps [simp]:
  "known_status ''idle''" "known_status ''syncing''" "known_status ''ok''" "known_status ''error''"
  "known_status ''conflict''" "known_status ''preflight''" "known_status ''paused''"
  "known_status ''offline''"
  by (simp_all add: known_status_def)

lemma store_step_shape: "store_shape s (store_step s a)"
  by (cases a)
    (simp_all only: store_step.simps mark_defs MarkRepoMissing_def ClearRepoMissing_def
       SetWatching_def Let_def snd_conv,
     (rule shape_existing shape_update shape_listen shape_ensure shape_remove;
      simp add: repo_ok_def clear_missing_def)+)

definition store_inv :: "repo_store \<Rightarrow> bool" where
  "store_inv s \<longleftrightarrow> distinct (map fst (rs_states s)) \<and>
     (\<forall>p st. Get s p = Some st \<longrightarrow> st_Path st = p \<and> repo_ok st)"

lemma store_inv_New: "store_inv NewRepoStateStore"
  by (simp add: store_inv_def NewRepoStateStore_def Get_def)

lemma repo_ok_seq [simp]: "repo_ok (st\<lparr>st_Seq := n\<rparr>) = repo_ok st"
  by (simp add: repo_ok_def)

lemma repo_ok_idle [simp]: "repo_ok (idle_state p)"
  by (simp add: repo_ok_def idle_state_def)

lemma st_Path_idle [simp]: "st_Path (idle_state p) = p"
  by (simp add: idle_state_def)

lemma current_ok: "store_inv s \<Longrightarrow> repo_ok (current s p) \<and> st_Path (current s p) = p"
  by (auto simp: current_def store_inv_def split: option.split)

lemma store_inv_shape: "store_shape s s' \<Longrightarrow> store_inv s \<Longrightarrow> store_inv s'"
proof (induction rule: store_shape.induct)
  case (shape_listen s)
  then show ?case by (simp add: store_inv_def OnChange_def Get_def)
next
  case (shape_ensure s p)
  moreover have "distinct (map fst (rs_states (Ensure s p)))"
    using shape_ensure by (simp add: store_inv_def Ensure_def split: option.split)
  ultimately show ?case using current_ok [of s p] by (auto simp: store_inv_def Get_Ensure split: if_splits)
next
  case (shape_remove s p)
  then show ?case
    by (auto simp: store_inv_def Get_Remove split: if_splits) (simp add: Remove_def)
next
  case (shape_none s)
  then show ?case .
next
  case (shape_update fn s p)
  have "distinct (map fst (rs_states (Update s p fn)))"
    using shape_update.prems by (simp add: store_inv_def Update_def publish_def Let_def)
  then show ?case using shape_update current_ok [of s p]
    by (auto simp: store_inv_def Get_Update split: if_splits)
qed

lemma store_run_Cons [simp]: "store_run s (a # ops) = store_run (store_step s a) ops"
  by (simp add: store_run_def)

lemma store_run_Nil [simp]: "store_run s [] = s"
  by (simp add: store_run_def)

lemma store_inv_run: "store_inv s \<Longrightarrow> store_inv (store_run s ops)"
  by (induction ops arbitrary: s) (auto intro: store_inv_shape [OF store_step_shape])

section \<open>What listeners see\<close>

text \<open>
  \<open>heard s l\<close>: the listener's snapshots carry strictly increasing sequence numbers up to the
  store's, and for every entry of the store the last snapshot of its path is the entry itself
  (an entry that was never updated has number 0).
\<close>

definition latest :: "string \<Rightarrow> repo_state list \<Rightarrow> repo_state option" where
  "latest p l = (case filter (\<lambda>st. st_Path st = p) l of [] \<Rightarrow> None | x # xs \<Rightarrow> Some (last (x # xs)))"

lemma latest_snoc: "latest p (l @ [st]) = (if st_Path st = p then Some st else latest p l)"
  proof -
  have "latest p l = (let xs = filter (\<lambda>st. st_Path st = p) l in if xs = [] then None else Some (last xs))"
    for l by (simp add: latest_def Let_def split: list.split)
  then show ?thesis by simp
qed

definition heard :: "repo_store \<Rightarrow> repo_state list \<Rightarrow> bool" where
  "heard s l \<longleftrightarrow>
     sorted_wrt (<) (map st_Seq l) \<and> (\<forall>st \<in> set l. st_Seq st \<le> rs_seq s) \<and>
     (\<forall>p st. Get s p = Some st \<longrightarrow> st = idle_state p \<or> latest p l = Some st)"

lemma heard_Update:
  assumes "heard s l" and "store_inv s" and "rs_seq s \<noteq> - 1" and "\<And>st. st_Path (fn st) = st_Path st"
  shows "heard (Update s p fn) (l @ [current (Update s p fn) p])"
proof -
  let ?st = "current (Update s p fn) p"
  have seq: "st_Seq ?st = rs_seq s + 1" by (simp add: current_Update)
  have path: "st_Path ?st = p" using assms(4) current_ok [OF assms(2)] by (simp add: current_Update)
  have lt: "rs_seq s < rs_seq s + 1" using assms(3) by (rule u64_Suc_greater)
  then have "\<forall>x \<in> set l. st_Seq x < rs_seq s + 1"
    using assms(1) by (auto simp: heard_def)
  then show ?thesis using assms(1) seq path
    by (auto simp: heard_def sorted_wrt_append latest_snoc Get_Update current_Update less_imp_le)
qed

definition heard_all :: "repo_store \<Rightarrow> bool" where
  "heard_all s \<longleftrightarrow> (\<forall>l \<in> set (rs_listeners s). heard s l)"

lemma heard_shape:
  assumes "store_shape s s'" and "heard_all s" and "store_inv s" and "rs_seq s \<noteq> - 1"
    and "length (rs_listeners s') = length (rs_listeners s)"
  shows "heard_all s'"
  using assms
proof (induction rule: store_shape.induct)
  case (shape_listen s)
  then show ?case by (simp add: OnChange_def)
next
  case (shape_ensure s p)
  have [simp]: "rs_listeners (Ensure s p) = rs_listeners s" "rs_seq (Ensure s p) = rs_seq s"
    by (simp_all add: Ensure_def split: option.split)
  show ?case using shape_ensure.prems(1)
    by (auto simp: heard_all_def heard_def Get_Ensure current_def split: if_splits option.splits)
next
  case (shape_remove s p)
  then show ?case
    by (auto simp: heard_all_def heard_def Get_Remove split: if_splits) (auto simp: Remove_def)
next
  case (shape_none s)
  then show ?case by simp
next
  case (shape_update fn s p)
  then show ?case using heard_Update
    by (auto simp: heard_all_def rs_listeners_Update)
qed

lemma rs_seq_shape: "store_shape s s' \<Longrightarrow> rs_seq s' = rs_seq s \<or> rs_seq s' = rs_seq s + 1"
  by (induction rule: store_shape.induct)
    (auto simp: OnChange_def Ensure_def Remove_def split: option.split)

lemma listeners_step:
  "a \<noteq> OpOnChange \<Longrightarrow> length (rs_listeners (store_step s a)) = length (rs_listeners s)"
  by (cases a)
    (auto simp: mark_defs MarkRepoMissing_def ClearRepoMissing_def SetWatching_def Let_def
      UpdateExisting_eq rs_listeners_Update Ensure_def Remove_def split: option.split)

lemma heard_all_run:
  assumes "heard_all s" and "store_inv s" and "unat (rs_seq s) + length ops < 2 ^ 64"
    and "OpOnChange \<notin> set ops"
  shows "heard_all (store_run s ops)"
  using assms
proof (induction ops arbitrary: s)
  case Nil
  then show ?case by simp
next
  case (Cons a ops)
  have ne: "rs_seq s \<noteq> - 1" using Cons.prems(3) by (intro u64_not_max [of _ "length ops"]) simp
  have sh: "store_shape s (store_step s a)" by (rule store_step_shape)
  have "length (rs_listeners (store_step s a)) = length (rs_listeners s)"
    using Cons.prems(4) by (intro listeners_step) auto
  then have h: "heard_all (store_step s a)"
    using heard_shape [OF sh Cons.prems(1,2) ne] by simp
  have "unat (rs_seq (store_step s a)) + length ops < 2 ^ 64"
    using rs_seq_shape [OF sh] Cons.prems(3) unat_Suc_u64 [OF ne] by auto
  then show ?case
    using Cons.IH [OF h store_inv_shape [OF sh Cons.prems(2)]] Cons.prems(4) by simp
qed

section \<open>Properties\<close>

text \<open>
  C2. Whatever sequence of store operations runs, every repository state in the store is
  consistent: its status is a known one, a conflict status comes with the conflict flag and
  code, the paused status only with the paused flag, a paused repository is never shown idle or
  syncing, offline carries the network or timeout code, and status ok has no trace of an earlier failure;
  and each entry is filed under its own path.
\<close>

theorem store_states_consistent:
  assumes "Get (store_run NewRepoStateStore ops) p = Some st"
  shows "st_Path st = p \<and> repo_ok st"
  using store_inv_run [OF store_inv_New, of ops] assms by (simp add: store_inv_def)

theorem store_states_consistent_witness:
  "(let st = current (store_run NewRepoStateStore
        [OpEnsure ''/r'', OpConflict ''/r'' [''a''] ''m'', OpPaused ''/r'' True, OpPaused ''/r'' False]) ''/r''
    in st_Path st = ''/r'' \<and> repo_ok st)"
proof -
  let ?s = "store_run NewRepoStateStore
    [OpEnsure ''/r'', OpConflict ''/r'' [''a''] ''m'', OpPaused ''/r'' True, OpPaused ''/r'' False]"
  have "Get ?s ''/r'' = Some (current ?s ''/r'')"
    by code_simp
  then show ?thesis unfolding Let_def by (rule store_states_consistent)
qed



end
