(* ===== verification/GoPath.thy ===== *)
theory GoPath
  imports GoStd
begin

text \<open>
  The functions of Go's \<open>path/filepath\<close> that the sources call, on a Unix system: \<open>Clean\<close>, \<open>Join\<close>,
  \<open>Dir\<close>, \<open>Base\<close> and \<open>IsAbs\<close>. \<open>Clean\<close> works on the components between the separators, keeping the
  components of the result in reverse order.
\<close>

section \<open>Definitions\<close>

fun clean_step :: "bool \<Rightarrow> string list \<Rightarrow> string \<Rightarrow> string list" where
  "clean_step rooted acc c =
     (if c = [] \<or> c = ''.'' then acc
      else if c = ''..'' then
        (case acc of
           [] \<Rightarrow> if rooted then [] else [c]
         | a # as \<Rightarrow> if a = ''..'' then c # acc else as)
      else c # acc)"

definition is_abs :: "string \<Rightarrow> bool" where
  "is_abs p = has_prefix p ''/''"

definition clean_parts :: "string \<Rightarrow> string list" where
  "clean_parts p = rev (foldl (clean_step (is_abs p)) [] (split_on (CHR ''/'') p))"

definition Clean :: "string \<Rightarrow> string" where
  "Clean p =
     (let body = join ''/'' (clean_parts p)
      in if is_abs p then CHR ''/'' # body else if body = [] then ''.'' else body)"

definition Join :: "string list \<Rightarrow> string" where
  "Join elems =
     (let es = filter (\<lambda>e. e \<noteq> []) elems in if es = [] then [] else Clean (join ''/'' es))"

definition Dir :: "string \<Rightarrow> string" where
  "Dir p = (case str_last_index p ''/'' of None \<Rightarrow> ''.'' | Some i \<Rightarrow> Clean (take (Suc i) p))"

definition Base :: "string \<Rightarrow> string" where
  "Base p =
     (if p = [] then ''.''
      else
        let q = trim_right_byte (CHR ''/'') p
        in if q = [] then ''/'' else last (split_on (CHR ''/'') q))"

section \<open>Cleaning is idempotent\<close>

text \<open>
  A list of components is \<open>clean\<close> when folding \<open>clean_step\<close> over it gives it back: no empty
  component, no dot, and the double dots, if any, all in front and only in a relative path.
\<close>

definition plain :: "string \<Rightarrow> bool" where
  "plain c \<longleftrightarrow> c \<noteq> [] \<and> c \<noteq> ''.'' \<and> c \<noteq> ''..'' \<and> CHR ''/'' \<notin> set c"

definition clean_acc :: "bool \<Rightarrow> string list \<Rightarrow> bool" where
  "clean_acc rooted acc \<longleftrightarrow>
     (\<exists>xs n. acc = xs @ replicate n ''..'' \<and> (\<forall>c \<in> set xs. plain c) \<and> (rooted \<longrightarrow> n = 0))"

lemma clean_acc_Nil: "clean_acc r []"
  by (auto simp: clean_acc_def)

lemma clean_acc_cons_plain: "clean_acc r acc \<Longrightarrow> plain c \<Longrightarrow> clean_acc r (c # acc)"
  unfolding clean_acc_def by (metis append_Cons set_ConsD)

lemma clean_acc_tl:
  assumes "clean_acc r (a # as)" and "a \<noteq> ''..''"
  shows "clean_acc r as"
proof -
  obtain xs n where x: "a # as = xs @ replicate n ''..''" "\<forall>c \<in> set xs. plain c" "r \<longrightarrow> n = 0"
    using assms(1) unfolding clean_acc_def by blast
  then obtain ys where "xs = a # ys" using assms(2) by (cases xs; cases n) auto
  then show ?thesis using x unfolding clean_acc_def by auto
qed

lemma clean_acc_dots:
  assumes "clean_acc r (''..'' # as)"
  shows "clean_acc r (''..'' # ''..'' # as)"
proof -
  obtain xs n where x: "''..'' # as = xs @ replicate n ''..''" "\<forall>c \<in> set xs. plain c" "r \<longrightarrow> n = 0"
    using assms unfolding clean_acc_def by blast
  then have "xs = []" by (cases xs) (auto simp: plain_def)
  then have "''..'' # ''..'' # as = [] @ replicate (Suc n) ''..''" "n > 0" using x by (cases n; auto)+
  then show ?thesis using x(3) unfolding clean_acc_def by (metis list.set(1) empty_iff less_irrefl)
qed

lemma clean_acc_one: "\<not> r \<Longrightarrow> clean_acc r [''..'']"
  unfolding clean_acc_def by (rule exI [of _ "[]"], rule exI [of _ 1]) simp

lemma clean_step_acc:
  assumes "clean_acc r acc" and "CHR ''/'' \<notin> set c"
  shows "clean_acc r (clean_step r acc c)"
proof -
  consider "c = [] \<or> c = ''.''" | "c = ''..''" "acc = []" | a as where "c = ''..''" "acc = a # as"
    | "plain c"
    using assms(2) by (cases acc) (auto simp: plain_def)
  then show ?thesis
  proof cases
    case 1
    then show ?thesis using assms(1) by auto
  next
    case 2
    then show ?thesis using clean_acc_one [of r] clean_acc_Nil [of r] by (cases r) simp_all
  next
    case 3
    then show ?thesis
      using assms(1) clean_acc_tl [of r a as] clean_acc_dots [of r as] by (cases "a = ''..''") simp_all
  next
    case 4
    then have "clean_step r acc c = c # acc" by (simp add: plain_def)
    then show ?thesis using clean_acc_cons_plain [OF assms(1) 4] by simp
  qed
qed

lemma clean_fold_acc:
  assumes "clean_acc r acc" and "\<And>c. c \<in> set cs \<Longrightarrow> CHR ''/'' \<notin> set c"
  shows "clean_acc r (foldl (clean_step r) acc cs)"
  using assms
proof (induction cs arbitrary: acc)
  case (Cons c cs)
  then have "clean_acc r (clean_step r acc c)" by (intro clean_step_acc) auto
  then show ?case using Cons by auto
qed simp

lemma clean_fold_plain:
  "(\<And>c. c \<in> set xs \<Longrightarrow> plain c) \<Longrightarrow> foldl (clean_step r) acc xs = rev xs @ acc"
  by (induction xs arbitrary: acc) (auto simp: plain_def)

lemma clean_fold_dots:
  "foldl (clean_step False) (replicate m ''..'') (replicate n ''..'') = replicate (n + m) ''..''"
proof (induction n arbitrary: m)
  case (Suc n)
  have "clean_step False (replicate m ''..'') ''..'' = replicate (Suc m) ''..''" by (cases m) auto
  then show ?case using Suc [of "Suc m"] by (simp del: clean_step.simps)
qed simp

lemma clean_fold_rev:
  assumes "clean_acc r acc"
  shows "foldl (clean_step r) [] (rev acc) = acc"
proof -
  obtain xs n where x: "acc = xs @ replicate n ''..''" "\<And>c. c \<in> set xs \<Longrightarrow> plain c" "r \<longrightarrow> n = 0"
    using assms unfolding clean_acc_def by blast
  have "foldl (clean_step r) [] (replicate n ''..'') = replicate n ''..''"
    using x(3) clean_fold_dots [of 0 n] by (cases r) auto
  moreover have "foldl (clean_step r) (replicate n ''..'') (rev xs) = rev (rev xs) @ replicate n ''..''"
    using x(2) by (intro clean_fold_plain) simp
  ultimately show ?thesis using x(1) by (simp del: clean_step.simps)
qed

lemma clean_parts_acc: "clean_acc (is_abs p) (rev (clean_parts p))"
  unfolding clean_parts_def
  by (simp add: clean_fold_acc clean_acc_Nil split_on_no_sep del: clean_step.simps)

lemma clean_acc_no_sep: "clean_acc r acc \<Longrightarrow> c \<in> set acc \<Longrightarrow> CHR ''/'' \<notin> set c \<and> c \<noteq> []"
proof -
  assume a: "clean_acc r acc" and c: "c \<in> set acc"
  obtain xs n where "acc = xs @ replicate n ''..''" "\<forall>c \<in> set xs. plain c"
    using a unfolding clean_acc_def by blast
  then have "plain c \<or> c = ''..''" using c by (auto simp del: replicate.simps)
  then show ?thesis by (auto simp: plain_def)
qed

lemma clean_parts_no_sep: "c \<in> set (clean_parts p) \<Longrightarrow> CHR ''/'' \<notin> set c \<and> c \<noteq> []"
  using clean_acc_no_sep [OF clean_parts_acc] by force

lemma join_eq_Nil: "(\<And>c. c \<in> set xs \<Longrightarrow> c \<noteq> []) \<Longrightarrow> join ''/'' xs = [] \<longleftrightarrow> xs = []"
  by (cases "xs = [] \<or> tl xs = []"; cases xs) (auto simp: join_Cons)

lemma clean_parts_rooted:
  assumes "clean_acc True (rev cs)"
  shows "clean_parts (CHR ''/'' # join ''/'' cs) = cs"
proof (cases "cs = []")
  case True
  then show ?thesis by (simp add: clean_parts_def)
next
  case False
  then have "split_on (CHR ''/'') (join ''/'' cs) = cs"
    using clean_acc_no_sep [OF assms] by (intro split_on_join) auto
  then show ?thesis using clean_fold_rev [OF assms]
    by (simp add: clean_parts_def is_abs_def has_prefix_def del: clean_step.simps) simp
qed

lemma clean_parts_relative:
  assumes "clean_acc False (rev cs)" and "cs \<noteq> []"
  shows "\<not> is_abs (join ''/'' cs)" and "clean_parts (join ''/'' cs) = cs"
proof -
  have sep: "\<And>c. c \<in> set cs \<Longrightarrow> CHR ''/'' \<notin> set c \<and> c \<noteq> []"
    using clean_acc_no_sep [OF assms(1)] by force
  obtain c cs' where c: "cs = c # cs'" using assms(2) by (cases cs) auto
  obtain x xs where x: "c = x # xs" using sep [of c] c by (cases c) auto
  have "x \<noteq> CHR ''/''" using sep [of c] c x by auto
  then show na: "\<not> is_abs (join ''/'' cs)"
    using c x by (cases cs') (auto simp: is_abs_def has_prefix_def)
  have "split_on (CHR ''/'') (join ''/'' cs) = cs"
    using sep assms(2) by (intro split_on_join) auto
  then show "clean_parts (join ''/'' cs) = cs"
    using clean_fold_rev [OF assms(1)] na by (simp add: clean_parts_def del: clean_step.simps)
qed

lemma is_abs_Clean: "is_abs (Clean p) = is_abs p"
proof (cases "is_abs p")
  case True
  then show ?thesis by (simp add: Clean_def Let_def) (simp add: is_abs_def has_prefix_def)
next
  case False
  show ?thesis
  proof (cases "clean_parts p = []")
    case True
    then show ?thesis using False by (simp add: Clean_def Let_def) (simp add: is_abs_def has_prefix_def)
  next
    case ne: False
    then have "join ''/'' (clean_parts p) \<noteq> []" using join_eq_Nil clean_parts_no_sep by blast
    then show ?thesis
      using False ne clean_parts_relative(1) [of "clean_parts p"] clean_parts_acc [of p]
      by (simp add: Clean_def Let_def)
  qed
qed

lemma Clean_Clean [simp]: "Clean (Clean p) = Clean p"
proof (cases "is_abs p")
  case True
  then have "clean_parts (CHR ''/'' # join ''/'' (clean_parts p)) = clean_parts p"
    using clean_parts_rooted clean_parts_acc [of p] by simp
  then show ?thesis using True
    by (simp add: Clean_def Let_def) (simp add: is_abs_def has_prefix_def)
next
  case False
  show ?thesis
  proof (cases "clean_parts p = []")
    case True
    then have "Clean p = ''.''" using False by (simp add: Clean_def Let_def)
    then show ?thesis by simp code_simp
  next
    case ne: False
    then have jn: "join ''/'' (clean_parts p) \<noteq> []" using join_eq_Nil clean_parts_no_sep by blast
    have acc: "clean_acc False (rev (clean_parts p))" using clean_parts_acc [of p] False by simp
    show ?thesis using False ne jn clean_parts_relative [OF acc ne]
      by (simp add: Clean_def Let_def)
  qed
qed

lemma Clean_not_Nil [simp]: "Clean p \<noteq> []"
  by (auto simp: Clean_def Let_def)

end
