(* ===== verification/Git.thy ===== *)
theory Git
  imports Classify RepoState GoPath
begin

text \<open>
  \<open>common/git.go\<close> (and the type \<open>RepoConfig\<close> of \<open>common/watch.go\<close>): running git.

  Everything outside the program is a parameter, the record \<open>env\<close>: how git answers, the file
  system, the clock, cancellation. Its functions work on a world of an arbitrary type \<open>'w\<close>, so
  git may answer anything. The state \<open>sys\<close> has the world, the state store, the emitted events,
  the caches of the sources, and \<open>sy_trace\<close>, which no code reads: the argument list of every git
  process started, with the number of the attempt.

  A context is either the one of the caller, cancelled when the world says so, or one made by
  \<open>context.WithoutCancel\<close> or \<open>context.Background\<close>, which never is. Only non-Windows code is
  modelled.
\<close>

section \<open>Parameters and state\<close>

record run_result =
  rr_out :: string
  rr_err :: string
  rr_fail :: "goerror option" \<comment> \<open>the error of \<open>cmd.Run\<close>\<close>
  rr_deadline :: bool \<comment> \<open>\<open>runCtx\<close> ended by its time limit\<close>

record git_invocation =
  gi_cmd :: string
  gi_dir :: string
  gi_args :: "string list"
  gi_env :: "string list"
  gi_stdin :: "string option"
  gi_timeout :: duration

record 'w env =
  en_run :: "'w \<Rightarrow> git_invocation \<Rightarrow> run_result \<times> 'w"
  en_stat :: "'w \<Rightarrow> string \<Rightarrow> stat_result"
  en_remove :: "'w \<Rightarrow> string \<Rightarrow> 'w"
  en_sleep :: "'w \<Rightarrow> duration \<Rightarrow> bool \<times> 'w" \<comment> \<open>whether the timer fired before cancellation\<close>
  en_cancelled :: "'w \<Rightarrow> sentinel option"
  en_now :: "'w \<Rightarrow> int" \<comment> \<open>nanoseconds\<close>
  en_append :: "'w \<Rightarrow> string \<Rightarrow> string list \<Rightarrow> 'w" \<comment> \<open>the conflict log in a git directory\<close>
  en_clients :: "'w \<Rightarrow> bool"
  en_quote :: "string \<Rightarrow> string" \<comment> \<open>the verb \<open>%q\<close>\<close>
  en_environ :: "string list"
  en_path :: string

datatype ctx = Live | WithoutCancel

record repo_config =
  cf_RepoPath :: string
  cf_PollInterval :: duration
  cf_FSLag :: duration
  cf_BatchWindow :: duration
  cf_GitExec :: string
  cf_Env :: "string list"
  cf_Emitter :: bool \<comment> \<open>not nil\<close>
  cf_State :: bool \<comment> \<open>not nil\<close>
  cf_Force :: bool
  cf_LocalOnly :: bool
  cf_MessagePrefix :: string
  cf_InitialDelay :: duration

record remote_facts =
  rf_github :: bool
  rf_ssh :: bool
  rf_stamp :: string

record 'w sys =
  sy_world :: 'w
  sy_store :: repo_store
  sy_events :: "event list"
  sy_trace :: "(string list \<times> nat) list"
  sy_facts :: "(string \<times> remote_facts) list"
  sy_warned :: "string list"
  sy_alerts :: "(string \<times> string) list"

definition ctx_err :: "'w env \<Rightarrow> ctx \<Rightarrow> 'w sys \<Rightarrow> sentinel option" where
  "ctx_err env ctx s = (case ctx of Live \<Rightarrow> en_cancelled env (sy_world s) | WithoutCancel \<Rightarrow> None)"

definition now_ns :: "'w env \<Rightarrow> 'w sys \<Rightarrow> int" where
  "now_ns env s = en_now env (sy_world s)"

definition now_unix :: "'w env \<Rightarrow> 'w sys \<Rightarrow> int" where
  "now_unix env s = en_now env (sy_world s) div 1000000000"

definition sleepCtx :: "'w env \<Rightarrow> ctx \<Rightarrow> duration \<Rightarrow> ('w sys, bool) state" where
  "sleepCtx env ctx d = State (\<lambda>s.
     case en_sleep env (sy_world s) d of
       (fired, w) \<Rightarrow> (ctx = WithoutCancel \<or> fired, s\<lparr>sy_world := w\<rparr>))"

section \<open>The environment of git\<close>

definition inheritedEnvVars :: "string list" where
  "inheritedEnvVars = [''HOME'', ''USER'', ''LOGNAME'', ''SSH_AUTH_SOCK'', ''LANG'', ''XDG_CONFIG_HOME'',
     ''HTTP_PROXY'', ''HTTPS_PROXY'', ''ALL_PROXY'', ''NO_PROXY'', ''http_proxy'', ''https_proxy'',
     ''all_proxy'', ''no_proxy'']"

definition repoLocationEnvVars :: "string list" where
  "repoLocationEnvVars = [''GIT_DIR'', ''GIT_WORK_TREE'', ''GIT_INDEX_FILE'', ''GIT_OBJECT_DIRECTORY'',
     ''GIT_ALTERNATE_OBJECT_DIRECTORIES'', ''GIT_COMMON_DIR'', ''GIT_PREFIX'', ''GIT_NAMESPACE'',
     ''GIT_TERMINAL_PROMPT'']"

definition augmentPath :: "string \<Rightarrow> string" where
  "augmentPath p0 =
     (let p = (if p0 = [] then ''/usr/bin:/bin:/usr/sbin:/sbin'' else p0)
      in join '':'' (foldl (\<lambda>parts extra. if list_ex (\<lambda>part. Clean part = extra) parts then parts else parts @ [extra])
           (split_on (CHR '':'') p) [''/opt/homebrew/bin'', ''/usr/local/bin'']))"

definition inherits :: "string \<Rightarrow> bool" where
  "inherits s =
     (case cut (CHR ''='') s of
        (k, _, ok) \<Rightarrow> ok \<and> (k \<in> set inheritedEnvVars \<or> (has_prefix k ''GIT_'' \<and> k \<notin> set repoLocationEnvVars)))"

definition toEnvString :: "'w env \<Rightarrow> repo_config \<Rightarrow> string list" where
  "toEnvString env cfg =
     [''PATH='' @ augmentPath (en_path env)] @ filter inherits (en_environ env) @ cf_Env cfg @
     [''GIT_TERMINAL_PROMPT=0'', ''LC_MESSAGES=C'']"

definition hasEnvVariable :: "string list \<Rightarrow> string \<Rightarrow> bool" where
  "hasEnvVariable vals name = list_ex (\<lambda>s. case cut (CHR ''='') s of (k, v, _) \<Rightarrow> k = name \<and> v \<noteq> []) vals"

section \<open>Running git\<close>

definition isIndexLockError :: "string \<Rightarrow> bool" where
  "isIndexLockError stderr \<longleftrightarrow> contains stderr ''index.lock'' \<and> contains stderr ''Unable to create''"

definition lockPathFromStderr :: "string \<Rightarrow> string \<Rightarrow> string" where
  "lockPathFromStderr stderr repoPath =
     (let marker = ''Unable to create '' @ [CHR 0x27];
          default = Join [repoPath, ''.git'', ''index.lock'']
      in case str_index stderr marker of
           None \<Rightarrow> default
         | Some i \<Rightarrow>
             let rest = drop (i + length marker) stderr in
             (case str_index rest [CHR 0x27] of
                None \<Rightarrow> default
              | Some j \<Rightarrow> if 0 < j then take j rest else default))"

definition gitStaleLockAge :: duration where "gitStaleLockAge = 300000000000"

definition removeStaleLock :: "'w env \<Rightarrow> string \<Rightarrow> ('w sys, unit) state" where
  "removeStaleLock env lockPath = State (\<lambda>s.
     case en_stat env (sy_world s) lockPath of
       Inl _ \<Rightarrow> ((), s)
     | Inr info \<Rightarrow>
         if now_ns env s - fi_ModTime info > gitStaleLockAge
         then ((), s\<lparr>sy_world := en_remove env (sy_world s) lockPath\<rparr>)
         else ((), s))"

definition exec_git ::
  "'w env \<Rightarrow> repo_config \<Rightarrow> string list \<Rightarrow> string list \<Rightarrow> string option \<Rightarrow> nat \<Rightarrow> ('w sys, run_result) state" where
  "exec_git env cfg prefixArgs args stdin attempt = State (\<lambda>s.
     case en_run env (sy_world s)
            \<lparr>gi_cmd = (if cf_GitExec cfg = [] then ''git'' else cf_GitExec cfg),
             gi_dir = cf_RepoPath cfg, gi_args = prefixArgs @ args, gi_env = toEnvString env cfg,
             gi_stdin = stdin, gi_timeout = gitTimeout args\<rparr> of
       (r, w) \<Rightarrow> (r, s\<lparr>sy_world := w, sy_trace := sy_trace s @ [(args, attempt)]\<rparr>))"

definition git_failure ::
  "string list \<Rightarrow> run_result \<Rightarrow> goerror \<Rightarrow> bool \<Rightarrow> sentinel option \<Rightarrow> goerror" where
  "git_failure args r runErr timedOut cerr =
     (let exitCode = (case as_exit runErr of Some (ExitError code _) \<Rightarrow> code | _ \<Rightarrow> - 1);
          sub = gitSubcommand args;
          err = (if timedOut then
                   Wrapped (''git '' @ sub @ '' timed out after '' @ duration_string (gitTimeout args) @ '': '' @
                            sentinel_text DeadlineExceeded) (Sentinel DeadlineExceeded)
                 else (case cerr of
                         Some c \<Rightarrow> Wrapped (''git '' @ sub @ '' cancelled: '' @ sentinel_text c) (Sentinel c)
                       | None \<Rightarrow> runErr))
      in GitError args (rr_out r) (rr_err r) exitCode timedOut (gitTimeout args) err)"

definition maxAttempts :: nat where "maxAttempts = 5"

text \<open>
  The retry loop; the first argument is the number of attempts left, so the attempt has number
  \<open>maxAttempts - n\<close> and \<open>attempt < maxAttempts\<close> is \<open>0 < n\<close>.
\<close>

primrec git_attempts ::
  "nat \<Rightarrow> 'w env \<Rightarrow> ctx \<Rightarrow> repo_config \<Rightarrow> string list \<Rightarrow> string list \<Rightarrow> string option \<Rightarrow> duration \<Rightarrow>
   string \<Rightarrow> string \<Rightarrow> ('w sys, string \<times> string \<times> goerror option) state" where
  "git_attempts 0 env ctx cfg prefixArgs args stdin backoff out err =
     State_Monad.return (out, err,
       Some (Traced (Plain (''git command failed after retries: '' @ join '' '' args))))"
| "git_attempts (Suc n) env ctx cfg prefixArgs args stdin backoff out err =
     do {
       r \<leftarrow> exec_git env cfg prefixArgs args stdin (maxAttempts - n);
       cerr \<leftarrow> ask (ctx_err env ctx);
       let timedOut = (rr_deadline r \<and> cerr = None);
       case rr_fail r of
         None \<Rightarrow> State_Monad.return (rr_out r, rr_err r, None)
       | Some runErr \<Rightarrow>
           if \<not> timedOut \<and> cerr = None \<and> isIndexLockError (rr_err r) \<and> 0 < n then
             do {
               removeStaleLock env (lockPathFromStderr (rr_err r) (cf_RepoPath cfg));
               slept \<leftarrow> sleepCtx env ctx backoff;
               if slept
               then git_attempts n env ctx cfg prefixArgs args stdin (backoff * 2) (rr_out r) (rr_err r)
               else State_Monad.return (rr_out r, rr_err r,
                 Some (Traced (Plain (''git command failed after retries: '' @ join '' '' args))))
             }
           else State_Monad.return (rr_out r, rr_err r, Some (Traced (git_failure args r runErr timedOut cerr)))
     }"

fun set_chdir :: "goerror \<Rightarrow> goerror" where
  "set_chdir (PathError op p e) = PathError ''chdir'' p e"
| "set_chdir (Traced e) = Traced (set_chdir e)"
| "set_chdir (Wrapped m e) = Wrapped m (set_chdir e)"
| "set_chdir e = e"

definition runGitFull ::
  "'w env \<Rightarrow> ctx \<Rightarrow> repo_config \<Rightarrow> string list \<Rightarrow> string list \<Rightarrow> string option \<Rightarrow>
   ('w sys, string \<times> string \<times> goerror option) state" where
  "runGitFull env ctx cfg prefixArgs args stdin =
     do {
       st \<leftarrow> ask (\<lambda>s. if cf_RepoPath cfg = [] then None
                      else (case en_stat env (sy_world s) (cf_RepoPath cfg) of Inl e \<Rightarrow> Some e | Inr _ \<Rightarrow> None));
       case st of
         Some e \<Rightarrow> State_Monad.return ([], [],
           Some (Traced (GitError args [] [] (- 1) False (gitTimeout args) (set_chdir e))))
       | None \<Rightarrow> git_attempts maxAttempts env ctx cfg prefixArgs args stdin 120000000 [] []
     }"

definition runGit ::
  "'w env \<Rightarrow> ctx \<Rightarrow> repo_config \<Rightarrow> string list \<Rightarrow> string list \<Rightarrow> string option \<Rightarrow>
   ('w sys, string \<times> goerror option) state" where
  "runGit env ctx cfg prefixArgs args stdin =
     do {
       (out, _, err) \<leftarrow> runGitFull env ctx cfg prefixArgs args stdin;
       State_Monad.return (out, err)
     }"

section \<open>Facts about the remotes\<close>

fun scan_urls :: "string list \<Rightarrow> remote_facts \<Rightarrow> remote_facts" where
  "scan_urls [] facts = facts"
| "scan_urls (line # ls) facts =
     (case cut (CHR '' '') (trim_space line) of
        (_, url, ok) \<Rightarrow>
          if \<not> ok then scan_urls ls facts
          else scan_urls ls
            (facts\<lparr>rf_github := rf_github facts \<or> contains url ''github.com'',
                   rf_ssh := rf_ssh facts \<or> has_prefix url ''git@'' \<or> has_prefix url ''ssh://''\<rparr>))"

definition refreshRemoteFacts ::
  "'w env \<Rightarrow> ctx \<Rightarrow> repo_config \<Rightarrow> string \<Rightarrow> ('w sys, remote_facts) state" where
  "refreshRemoteFacts env ctx cfg stamp =
     do {
       (out, err) \<leftarrow> runGit env ctx cfg [] [''config'', ''--get-regexp'', ''^remote'' @ [CHR 0x5C] @ ''..*'' @ [CHR 0x5C] @ ''.url$''] None;
       let none = \<lparr>rf_github = False, rf_ssh = False, rf_stamp = stamp\<rparr>;
       let facts = (if err = None then scan_urls (split_on (CHR 0x0A) out) none else none);
       upd (\<lambda>s. s\<lparr>sy_facts := AList.update (cf_RepoPath cfg) facts (sy_facts s),
         sy_warned := (if rf_ssh facts \<and> cf_RepoPath cfg \<notin> set (sy_warned s) \<and>
                          \<not> hasEnvVariable (toEnvString env cfg) ''SSH_AUTH_SOCK''
                       then cf_RepoPath cfg # sy_warned s else sy_warned s)\<rparr>);
       State_Monad.return facts
     }"

definition remoteFactsFor :: "'w env \<Rightarrow> ctx \<Rightarrow> repo_config \<Rightarrow> ('w sys, remote_facts) state" where
  "remoteFactsFor env ctx cfg =
     do {
       cached \<leftarrow> ask (\<lambda>s. map_of (sy_facts s) (cf_RepoPath cfg));
       case cached of
         Some facts \<Rightarrow> State_Monad.return facts
       | None \<Rightarrow> refreshRemoteFacts env ctx cfg []
     }"

definition configStamp :: "'w env \<Rightarrow> string \<Rightarrow> 'w sys \<Rightarrow> string" where
  "configStamp env commonDir s =
     (if commonDir = [] then []
      else (case en_stat env (sy_world s) (Join [commonDir, ''config'']) of
              Inl _ \<Rightarrow> []
            | Inr fi \<Rightarrow> itoa (fi_ModTime fi) @ '':'' @ itoa (fi_Size fi)))"

definition ensureRemoteFacts :: "'w env \<Rightarrow> ctx \<Rightarrow> repo_config \<Rightarrow> string \<Rightarrow> ('w sys, unit) state" where
  "ensureRemoteFacts env ctx cfg commonDir =
     do {
       stamp \<leftarrow> ask (configStamp env commonDir);
       cached \<leftarrow> ask (\<lambda>s. map_of (sy_facts s) (cf_RepoPath cfg));
       if (case cached of None \<Rightarrow> False | Some facts \<Rightarrow> stamp \<noteq> [] \<and> rf_stamp facts = stamp)
       then State_Monad.return ()
       else do { refreshRemoteFacts env ctx cfg stamp; State_Monad.return () }
     }"

definition gitPrefix :: "'w env \<Rightarrow> ctx \<Rightarrow> repo_config \<Rightarrow> string list \<Rightarrow> ('w sys, string list) state" where
  "gitPrefix env ctx cfg args =
     (if \<not> isNetworkCommand (gitSubcommand args) then State_Monad.return []
      else do {
        facts \<leftarrow> remoteFactsFor env ctx cfg;
        State_Monad.return ([''-c'', ''http.lowSpeedLimit=1000'', ''-c'', ''http.lowSpeedTime=30''] @
          (if rf_github facts
           then [''-c'', ''credential.https://github.com.helper=!gh auth git-credential''] else []))
      })"

definition GitCommandCtx ::
  "'w env \<Rightarrow> ctx \<Rightarrow> repo_config \<Rightarrow> string list \<Rightarrow> ('w sys, string \<times> goerror option) state" where
  "GitCommandCtx env ctx cfg args =
     do { p \<leftarrow> gitPrefix env ctx cfg args; runGit env ctx cfg p args None }"

definition gitCommandStderr ::
  "'w env \<Rightarrow> ctx \<Rightarrow> repo_config \<Rightarrow> string list \<Rightarrow> ('w sys, string \<times> goerror option) state" where
  "gitCommandStderr env ctx cfg args =
     do {
       p \<leftarrow> gitPrefix env ctx cfg args;
       (_, stderr, err) \<leftarrow> runGitFull env ctx cfg p args None;
       State_Monad.return (stderr, err)
     }"

definition revParse ::
  "'w env \<Rightarrow> ctx \<Rightarrow> repo_config \<Rightarrow> string \<Rightarrow> ('w sys, string \<times> goerror option) state" where
  "revParse env ctx cfg ref =
     do {
       (out, err) \<leftarrow> GitCommandCtx env ctx cfg [''rev-parse'', ''--verify'', ''-q'', ref @ ''^{commit}''];
       State_Monad.return (if err = None then (trim_space out, None) else ([], err))
     }"

definition isAncestor ::
  "'w env \<Rightarrow> ctx \<Rightarrow> repo_config \<Rightarrow> string \<Rightarrow> string \<Rightarrow> ('w sys, bool) state" where
  "isAncestor env ctx cfg ancestor descendant =
     do {
       (_, err) \<leftarrow> GitCommandCtx env ctx cfg [''merge-base'', ''--is-ancestor'', ancestor, descendant];
       State_Monad.return (err = None)
     }"

section \<open>What running git leaves alone\<close>

text \<open>The part of the state that the user sees: states, events, alerts.\<close>

definition observable :: "'w sys \<Rightarrow> repo_store \<times> event list \<times> (string \<times> string) list" where
  "observable s = (sy_store s, sy_events s, sy_alerts s)"

lemma keeps_sleepCtx [keeps_rules]: "keeps observable (sleepCtx env ctx d)"
  by (simp add: keeps_def sleepCtx_def observable_def split: prod.split)

lemma keeps_removeStaleLock [keeps_rules]: "keeps observable (removeStaleLock env p)"
  by (simp add: keeps_def removeStaleLock_def observable_def split: sum.split)

lemma keeps_exec_git [keeps_rules]: "keeps observable (exec_git env cfg p args stdin i)"
  by (simp add: keeps_def exec_git_def observable_def split: prod.split)

lemma keeps_git_attempts [keeps_rules]:
  "keeps observable (git_attempts n env ctx cfg p args stdin b out err)"
  by (induction n arbitrary: b out err) (auto intro!: keeps_rules)

lemma keeps_runGitFull [keeps_rules]: "keeps observable (runGitFull env ctx cfg p args stdin)"
  unfolding runGitFull_def by (intro keeps_rules)

lemma keeps_runGit [keeps_rules]: "keeps observable (runGit env ctx cfg p args stdin)"
  unfolding runGit_def by (intro keeps_rules)

lemma keeps_refreshRemoteFacts [keeps_rules]: "keeps observable (refreshRemoteFacts env ctx cfg stamp)"
  unfolding refreshRemoteFacts_def by (intro keeps_rules) (simp add: observable_def)

lemma keeps_remoteFactsFor [keeps_rules]: "keeps observable (remoteFactsFor env ctx cfg)"
  unfolding remoteFactsFor_def by (intro keeps_rules)

lemma keeps_ensureRemoteFacts [keeps_rules]: "keeps observable (ensureRemoteFacts env ctx cfg d)"
  unfolding ensureRemoteFacts_def by (intro keeps_rules)

lemma keeps_gitPrefix [keeps_rules]: "keeps observable (gitPrefix env ctx cfg args)"
  unfolding gitPrefix_def by (intro keeps_rules)

lemma keeps_GitCommandCtx [keeps_rules]: "keeps observable (GitCommandCtx env ctx cfg args)"
  unfolding GitCommandCtx_def by (intro keeps_rules)

lemma keeps_gitCommandStderr [keeps_rules]: "keeps observable (gitCommandStderr env ctx cfg args)"
  unfolding gitCommandStderr_def by (intro keeps_rules)

lemma keeps_revParse [keeps_rules]: "keeps observable (revParse env ctx cfg ref)"
  unfolding revParse_def by (intro keeps_rules)

lemma keeps_isAncestor [keeps_rules]: "keeps observable (isAncestor env ctx cfg a d)"
  unfolding isAncestor_def by (intro keeps_rules)

section \<open>Which commands a program runs\<close>

text \<open>
  \<open>runs C k m\<close>: \<open>m\<close> only adds commands to the trace, and at most \<open>k\<close> of them are first attempts of
  an argument list that satisfies \<open>C\<close>. With \<open>k = 0\<close> and \<open>C\<close> the forbidden commands it says that a
  program never runs one.
\<close>

definition calls :: "(string list \<Rightarrow> bool) \<Rightarrow> (string list \<times> nat) list \<Rightarrow> nat" where
  "calls C ts = length (filter (\<lambda>(args, i). C args \<and> i = 1) ts)"

lemma calls_append [simp]: "calls C (ts @ us) = calls C ts + calls C us"
  by (simp add: calls_def)

lemma calls_Nil [simp]: "calls C [] = 0"
  by (simp add: calls_def)

definition runs :: "(string list \<Rightarrow> bool) \<Rightarrow> nat \<Rightarrow> ('w sys, 'a) state \<Rightarrow> bool" where
  "runs C k m \<longleftrightarrow>
     (\<forall>s. \<exists>ts. sy_trace (snd (run_state m s)) = sy_trace s @ ts \<and> calls C ts \<le> k \<and>
        (k = 0 \<longrightarrow> list_all (\<lambda>(args, i). \<not> C args) ts))"

named_theorems runs_rules "which commands a program runs"

lemma runsD:
  "runs C k m \<Longrightarrow> \<exists>ts. sy_trace (snd (run_state m s)) = sy_trace s @ ts \<and> calls C ts \<le> k \<and>
     (k = 0 \<longrightarrow> list_all (\<lambda>(args, i). \<not> C args) ts)"
  by (simp add: runs_def)

lemma runs_keeps: "keeps sy_trace m \<Longrightarrow> runs C 0 m"
  by (simp add: runs_def keeps_def)

lemma runs_return [runs_rules]: "runs C 0 (State_Monad.return x)"
  by (simp add: runs_def)

lemma runs_ask [runs_rules]: "runs C 0 (ask f)"
  by (simp add: runs_def)

lemma runs_upd [runs_rules]: "(\<And>s. sy_trace (f s) = sy_trace s) \<Longrightarrow> runs C 0 (upd f)"
  by (simp add: runs_def)

lemma runs_bind:
  assumes "runs C j m" and "\<And>x. runs C k (n x)"
  shows "runs C (j + k) (State_Monad.bind m n)"
  unfolding runs_def run_bind
proof
  fix s
  let ?x = "fst (run_state m s)" and ?s = "snd (run_state m s)"
  obtain ts where ts: "sy_trace ?s = sy_trace s @ ts" "calls C ts \<le> j"
    "j = 0 \<longrightarrow> list_all (\<lambda>(args, i). \<not> C args) ts" using runsD [OF assms(1)] by blast
  obtain us where us: "sy_trace (snd (run_state (n ?x) ?s)) = sy_trace ?s @ us" "calls C us \<le> k"
    "k = 0 \<longrightarrow> list_all (\<lambda>(args, i). \<not> C args) us" using runsD [OF assms(2)] by blast
  show "\<exists>ts. sy_trace (snd (run_state (n ?x) ?s)) = sy_trace s @ ts \<and> calls C ts \<le> j + k \<and>
      (j + k = 0 \<longrightarrow> list_all (\<lambda>(args, i). \<not> C args) ts)"
    using ts us by (intro exI [of _ "ts @ us"]) simp
qed

lemma runs_weaken:
  assumes "runs C j m" and "j \<le> k"
  shows "runs C k m"
proof (cases "k = 0")
  case True
  then show ?thesis using assms by simp
next
  case False
  then show ?thesis using assms by (auto simp: runs_def) (meson order_trans)
qed

lemma runs_bind0 [runs_rules]:
  "runs C 0 m \<Longrightarrow> (\<And>x. runs C 0 (n x)) \<Longrightarrow> runs C 0 (State_Monad.bind m n)"
  using runs_bind [of C 0 m 0 n] by simp

lemma runs_bind_left: "runs C 0 m \<Longrightarrow> (\<And>x. runs C k (n x)) \<Longrightarrow> runs C k (State_Monad.bind m n)"
  using runs_bind [of C 0 m k n] by simp

lemma runs_bind_right: "runs C k m \<Longrightarrow> (\<And>x. runs C 0 (n x)) \<Longrightarrow> runs C k (State_Monad.bind m n)"
  using runs_bind [of C k m 0 n] by simp

lemma runs_if [runs_rules]:
  "(b \<Longrightarrow> runs C k m) \<Longrightarrow> (\<not> b \<Longrightarrow> runs C k n) \<Longrightarrow> runs C k (if b then m else n)"
  by simp

lemma runs_option [runs_rules]:
  "(\<And>y. x = Some y \<Longrightarrow> runs C k (f y)) \<Longrightarrow> (x = None \<Longrightarrow> runs C k n) \<Longrightarrow>
    runs C k (case x of None \<Rightarrow> n | Some y \<Rightarrow> f y)"
  by (cases x) auto

lemma runs_prod [runs_rules]:
  "(\<And>a b. p = (a, b) \<Longrightarrow> runs C k (f a b)) \<Longrightarrow> runs C k (case p of (a, b) \<Rightarrow> f a b)"
  by (cases p) auto

lemma runs_let [runs_rules]: "runs C k (f v) \<Longrightarrow> runs C k (let x = v in f x)"
  by simp

lemma runs_sleepCtx [runs_rules]: "runs C 0 (sleepCtx env ctx d)"
  by (rule runs_keeps) (simp add: keeps_def sleepCtx_def split: prod.split)

lemma runs_removeStaleLock [runs_rules]: "runs C 0 (removeStaleLock env p)"
  by (rule runs_keeps) (simp add: keeps_def removeStaleLock_def split: sum.split)

lemma runs_exec_git: "\<not> C args \<or> 1 < i \<and> 0 < k \<or> 0 < k \<Longrightarrow> runs C k (exec_git env cfg p args stdin i)"
  by (auto simp: runs_def exec_git_def calls_def split: prod.split)

lemma runs_exec_git_again: "1 < i \<Longrightarrow> calls C [(args, i)] = 0"
  by (simp add: calls_def)

text \<open>The attempts of one call: numbered from the first one on.\<close>

lemma git_attempts_trace:
  assumes "n \<le> maxAttempts"
  shows "\<exists>k \<le> n. sy_trace (snd (run_state (git_attempts n env ctx cfg p args stdin b out err) s)) =
      sy_trace s @ map (\<lambda>i. (args, i)) [Suc (maxAttempts - n)..<Suc (maxAttempts - n) + k] \<and> (0 < n \<longrightarrow> 0 < k)"
  using assms
proof (induction n arbitrary: b out err s)
  case 0
  then show ?case by simp
next
  case (Suc n)
  let ?i = "maxAttempts - n"
  have i: "Suc (maxAttempts - Suc n) = ?i" using Suc.prems by simp
  define r where "r = fst (run_state (exec_git env cfg p args stdin ?i) s)"
  define s1 where "s1 = snd (run_state (exec_git env cfg p args stdin ?i) s)"
  have t1: "sy_trace s1 = sy_trace s @ [(args, ?i)]"
    by (simp add: s1_def exec_git_def split: prod.split)
  define rest where "rest = snd (run_state (git_attempts (Suc n) env ctx cfg p args stdin b out err) s)"
  have stop: "sy_trace rest = sy_trace s @ map (\<lambda>i. (args, i)) [?i..<?i + 1] \<Longrightarrow> ?case"
    unfolding rest_def i by (intro exI [of _ 1]) simp
  consider "sy_trace rest = sy_trace s1"
    | b' s2 where "sy_trace s2 = sy_trace s1"
      "rest = snd (run_state (git_attempts n env ctx cfg p args stdin b' (rr_out r) (rr_err r)) s2)"
  proof -
    have ex: "run_state (exec_git env cfg p args stdin ?i) s = (r, s1)"
      by (simp add: r_def s1_def)
    obtain s2 where rs: "run_state (removeStaleLock env (lockPathFromStderr (rr_err r) (cf_RepoPath cfg))) s1 = ((), s2)"
      by (metis (full_types) old.unit.exhaust surj_pair)
    obtain slept s3 where sl: "run_state (sleepCtx env ctx b) s2 = (slept, s3)" by (metis surj_pair)
    have "sy_trace s2 = sy_trace s1"
      using rs by (auto simp: removeStaleLock_def split: sum.splits if_splits)
    moreover have "sy_trace s3 = sy_trace s2"
      using sl by (auto simp: sleepCtx_def split: prod.splits)
    moreover have "sy_trace rest = sy_trace s1 \<or> sy_trace rest = sy_trace s3 \<or>
        rest = snd (run_state (git_attempts n env ctx cfg p args stdin (b * 2) (rr_out r) (rr_err r)) s3)"
      unfolding rest_def by (cases "rr_fail r") (auto simp: ex rs sl Let_def)
    ultimately show thesis using that by metis
  qed
  then show ?case
  proof cases
    case 1
    then show ?thesis using t1 stop by simp
  next
    case (2 b' s2)
    then obtain k where k: "k \<le> n" "sy_trace rest = sy_trace s2 @ map (\<lambda>i. (args, i)) [Suc ?i..<Suc ?i + k]"
      using Suc.IH [of b' "rr_out r" "rr_err r" s2] Suc.prems by auto
    have "[?i..<?i + Suc k] = ?i # [Suc ?i..<Suc ?i + k]" by (simp add: upt_conv_Cons)
    then have "sy_trace rest = sy_trace s @ map (\<lambda>i. (args, i)) [?i..<?i + Suc k]"
      using k(2) 2(1) t1 by simp
    then show ?thesis unfolding rest_def i using k(1) by (intro exI [of _ "Suc k"]) simp
  qed
qed

lemma runGitFull_trace:
  "\<exists>k \<le> 5. sy_trace (snd (run_state (runGitFull env ctx cfg p args stdin) s)) =
      sy_trace s @ map (\<lambda>i. (args, i)) [1..<Suc k]"
proof -
  obtain k where "k \<le> 5" "sy_trace (snd (run_state (git_attempts maxAttempts env ctx cfg p args stdin 120000000 [] []) s)) =
      sy_trace s @ map (\<lambda>i. (args, i)) [1..<Suc k]"
    using git_attempts_trace [of maxAttempts env ctx cfg p args stdin 120000000 "[]" "[]" s]
    by (auto simp: maxAttempts_def)
  then show ?thesis
    by (auto simp: runGitFull_def run_bind split: option.split intro: exI [of _ 0])
qed

lemma runGitFull_success_ran:
  assumes "run_state (runGitFull env ctx cfg p args stdin) s = ((out, err, None), s')"
  shows "(args, 1) \<in> set (sy_trace s')"
proof -
  have "run_state (runGitFull env ctx cfg p args stdin) s =
      run_state (git_attempts maxAttempts env ctx cfg p args stdin 120000000 [] []) s"
    using assms by (auto simp: runGitFull_def split: option.splits)
  then have "snd (run_state (git_attempts maxAttempts env ctx cfg p args stdin 120000000 [] []) s) = s'"
    using assms by (metis snd_conv)
  then obtain k where "sy_trace s' = sy_trace s @ map (\<lambda>i. (args, i)) [1..<1 + k]" "0 < k"
    using git_attempts_trace [of maxAttempts env ctx cfg p args stdin 120000000 "[]" "[]" s]
    by (auto simp: maxAttempts_def)
  then show ?thesis by auto
qed

lemma calls_attempts: "calls C (map (\<lambda>i. (args, i)) [1..<Suc k]) \<le> 1"
proof -
  have "calls C (map (\<lambda>i. (args, i)) [1..<Suc k]) \<le> length (filter (\<lambda>i. i = 1) [1..<Suc k])"
    by (induction k) (auto simp: calls_def)
  also have "\<dots> \<le> 1" by (induction k) auto
  finally show ?thesis .
qed

lemma runs_runGitFull: "\<not> C args \<or> 0 < k \<Longrightarrow> runs C k (runGitFull env ctx cfg p args stdin)"
  unfolding runs_def
proof
  assume C: "\<not> C args \<or> 0 < k"
  fix s
  obtain j where j: "sy_trace (snd (run_state (runGitFull env ctx cfg p args stdin) s)) =
      sy_trace s @ map (\<lambda>i. (args, i)) [1..<Suc j]" using runGitFull_trace by blast
  have "calls C (map (\<lambda>i. (args, i)) [1..<Suc j]) \<le> k"
  proof (cases "C args")
    case True
    then show ?thesis using C calls_attempts [of C args j] by simp
  next
    case False
    then show ?thesis by (simp add: calls_def filter_map comp_def)
  qed
  moreover have "k = 0 \<longrightarrow> list_all (\<lambda>(args, i). \<not> C args) (map (\<lambda>i. (args, i)) [1..<Suc j])"
    using C by (auto simp: list_all_iff)
  ultimately show "\<exists>ts. sy_trace (snd (run_state (runGitFull env ctx cfg p args stdin) s)) = sy_trace s @ ts \<and>
      calls C ts \<le> k \<and> (k = 0 \<longrightarrow> list_all (\<lambda>(args, i). \<not> C args) ts)"
    using j by blast
qed

abbreviation remote_url_args :: "string list" where
  "remote_url_args \<equiv> [''config'', ''--get-regexp'', ''^remote'' @ [CHR 0x5C] @ ''..*'' @ [CHR 0x5C] @ ''.url$'']"

lemma runs_runGit: "\<not> C args \<or> 0 < k \<Longrightarrow> runs C k (runGit env ctx cfg p args stdin)"
  unfolding runGit_def by (rule runs_bind_right [OF runs_runGitFull]) (auto intro!: runs_rules)

lemma runs_refreshRemoteFacts: "\<not> C remote_url_args \<Longrightarrow> runs C 0 (refreshRemoteFacts env ctx cfg stamp)"
  unfolding refreshRemoteFacts_def by (intro runs_rules runs_runGit) auto

lemma runs_remoteFactsFor: "\<not> C remote_url_args \<Longrightarrow> runs C 0 (remoteFactsFor env ctx cfg)"
  unfolding remoteFactsFor_def by (intro runs_rules runs_refreshRemoteFacts) auto

lemma runs_ensureRemoteFacts: "\<not> C remote_url_args \<Longrightarrow> runs C 0 (ensureRemoteFacts env ctx cfg d)"
  unfolding ensureRemoteFacts_def by (intro runs_rules runs_refreshRemoteFacts) auto

lemma runs_gitPrefix: "\<not> C remote_url_args \<Longrightarrow> runs C 0 (gitPrefix env ctx cfg args)"
  unfolding gitPrefix_def by (intro runs_rules runs_remoteFactsFor) auto

lemma runs_GitCommandCtx:
  "\<not> C args \<or> 0 < k \<Longrightarrow> \<not> C remote_url_args \<Longrightarrow> runs C k (GitCommandCtx env ctx cfg args)"
  unfolding GitCommandCtx_def by (rule runs_bind_left [OF runs_gitPrefix runs_runGit])

lemma runs_gitCommandStderr:
  "\<not> C args \<or> 0 < k \<Longrightarrow> \<not> C remote_url_args \<Longrightarrow> runs C k (gitCommandStderr env ctx cfg args)"
  unfolding gitCommandStderr_def
  by (rule runs_bind_left [OF runs_gitPrefix runs_bind_right [OF runs_runGitFull]])
    (auto intro!: runs_rules)

lemma runs_revParse:
  "\<not> C [''rev-parse'', ''--verify'', ''-q'', ref @ ''^{commit}''] \<Longrightarrow> \<not> C remote_url_args \<Longrightarrow>
   runs C 0 (revParse env ctx cfg ref)"
  unfolding revParse_def by (intro runs_rules runs_GitCommandCtx) auto

lemma runs_isAncestor:
  "\<not> C [''merge-base'', ''--is-ancestor'', a, d] \<Longrightarrow> \<not> C remote_url_args \<Longrightarrow>
   runs C 0 (isAncestor env ctx cfg a d)"
  unfolding isAncestor_def by (intro runs_rules runs_GitCommandCtx) auto

lemma gitSubcommand_first [simp]: "\<not> has_prefix a ''-'' \<Longrightarrow> gitSubcommand (a # args) = a"
  by (auto simp: gitSubcommand.simps has_prefix_def)

lemma GitCommandCtx_success_ran:
  assumes "run_state (GitCommandCtx env ctx cfg args) s = ((out, None), s')"
  shows "(args, 1) \<in> set (sy_trace s')"
proof -
  obtain p s1 where p: "run_state (gitPrefix env ctx cfg args) s = (p, s1)" by (metis surj_pair)
  obtain o1 e1 err s2 where r: "run_state (runGitFull env ctx cfg p args None) s1 = ((o1, e1, err), s2)"
    by (metis surj_pair)
  have "err = None" "s2 = s'" using assms p r by (auto simp: GitCommandCtx_def runGit_def)
  then show ?thesis using runGitFull_success_ran r by metis
qed

section \<open>The environment of git, as git sees it\<close>

text \<open>\<open>os/exec\<close> keeps the last value of a variable that is given twice.\<close>

definition env_value :: "string list \<Rightarrow> string \<Rightarrow> string option" where
  "env_value vals name =
     map_option (\<lambda>s. fst (snd (cut (CHR ''='') s)))
       (find (\<lambda>s. fst (cut (CHR ''='') s) = name \<and> snd (snd (cut (CHR ''='') s))) (rev vals))"

lemma cut_PATH: "cut (CHR ''='') (''PATH='' @ v) = (''PATH'', v, True)"
  by simp

text \<open>
  An environment for witnesses: git prints nothing and fails with the given text, or succeeds when
  the text is empty; every file exists; nothing is ever cancelled.
\<close>

definition demo_env :: "string \<Rightarrow> unit env" where
  "demo_env stderr = \<lparr>
     en_run = \<lambda>w _. (\<lparr>rr_out = [], rr_err = stderr,
       rr_fail = (if stderr = [] then None else Some (ExitError 1 ''exit status 1'')), rr_deadline = False\<rparr>, w),
     en_stat = \<lambda>_ _. Inr \<lparr>fi_IsDir = True, fi_Exec = True, fi_ModTime = 0, fi_Size = 0\<rparr>,
     en_remove = \<lambda>w _. w, en_sleep = \<lambda>w _. (True, w), en_cancelled = \<lambda>_. None, en_now = \<lambda>_. 0,
     en_append = \<lambda>w _ _. w, en_clients = \<lambda>_. False, en_quote = id, en_environ = [''GIT_DIR=/x'', ''HOME=/h''],
     en_path = []\<rparr>"

definition demo_cfg :: repo_config where
  "demo_cfg = \<lparr>cf_RepoPath = ''/r'', cf_PollInterval = 30000000000, cf_FSLag = 0, cf_BatchWindow = 0,
     cf_GitExec = [], cf_Env = [''A=b''], cf_Emitter = True, cf_State = True, cf_Force = False,
     cf_LocalOnly = False, cf_MessagePrefix = [], cf_InitialDelay = 0\<rparr>"

definition demo_sys :: "unit sys" where
  "demo_sys = \<lparr>sy_world = (), sy_store = NewRepoStateStore, sy_events = [], sy_trace = [],
     sy_facts = [], sy_warned = [], sy_alerts = []\<rparr>"

section \<open>Properties\<close>

text \<open>
  Git always runs without a terminal prompt and with untranslated messages, whatever the
  daemon's environment or the configured variables say; and a variable that would point git at
  another repository never reaches it from the daemon's environment, only from the configured
  variables.
\<close>

theorem git_environment:
  "env_value (toEnvString env cfg) ''GIT_TERMINAL_PROMPT'' = Some ''0'' \<and>
   env_value (toEnvString env cfg) ''LC_MESSAGES'' = Some ''C'' \<and>
   (\<forall>k. k \<in> set repoLocationEnvVars \<and> k \<noteq> ''GIT_TERMINAL_PROMPT'' \<and>
      (\<forall>s \<in> set (cf_Env cfg). fst (cut (CHR ''='') s) \<noteq> k) \<longrightarrow>
      env_value (toEnvString env cfg) k = None)"
proof (intro conjI allI impI)
  show "env_value (toEnvString env cfg) ''GIT_TERMINAL_PROMPT'' = Some ''0''"
    "env_value (toEnvString env cfg) ''LC_MESSAGES'' = Some ''C''"
    by (simp_all add: env_value_def toEnvString_def)
  fix k
  assume k: "k \<in> set repoLocationEnvVars \<and> k \<noteq> ''GIT_TERMINAL_PROMPT'' \<and>
    (\<forall>s \<in> set (cf_Env cfg). fst (cut (CHR ''='') s) \<noteq> k)"
  then have ne: "k \<noteq> ''PATH''" "k \<noteq> ''LC_MESSAGES''" "k \<notin> set inheritedEnvVars"
    by (auto simp: repoLocationEnvVars_def inheritedEnvVars_def)
  have "fst (cut (CHR ''='') s) \<noteq> k" if "inherits s" for s
    using that k ne by (auto simp: inherits_def split: prod.splits)
  then show "env_value (toEnvString env cfg) k = None"
    using k ne by (auto simp: env_value_def toEnvString_def find_None_iff)
qed

theorem git_environment_witness:
  "env_value (toEnvString (demo_env []) demo_cfg) ''GIT_DIR'' = None"
  by (rule git_environment [THEN conjunct2, THEN conjunct2, rule_format])
    (simp add: repoLocationEnvVars_def demo_cfg_def)

text \<open>
  C36. Running one git command starts at most five processes, all with the same arguments, and
  more than one only after a process failed on the index lock: if the first one does not report
  it, exactly one process runs. Nothing the user sees changes.
\<close>

theorem runGitFull_bounded_retries:
  "(\<exists>k \<le> 5. sy_trace (snd (run_state (runGitFull env ctx cfg p args stdin) s)) =
      sy_trace s @ map (\<lambda>i. (args, i)) [1..<Suc k]) \<and>
   observable (snd (run_state (runGitFull env ctx cfg p args stdin) s)) = observable s \<and>
   (\<not> isIndexLockError (rr_err (fst (run_state (exec_git env cfg p args stdin 1) s))) \<longrightarrow>
      length (sy_trace (snd (run_state (runGitFull env ctx cfg p args stdin) s))) \<le> length (sy_trace s) + 1)"
proof (intro conjI impI)
  show "\<exists>k \<le> 5. sy_trace (snd (run_state (runGitFull env ctx cfg p args stdin) s)) =
      sy_trace s @ map (\<lambda>i. (args, i)) [1..<Suc k]" by (rule runGitFull_trace)
  show "observable (snd (run_state (runGitFull env ctx cfg p args stdin) s)) = observable s"
    by (rule keepsD [OF keeps_runGitFull])
  obtain r s1 where ex: "run_state (exec_git env cfg p args stdin 1) s = (r, s1)" by (metis surj_pair)
  assume "\<not> isIndexLockError (rr_err (fst (run_state (exec_git env cfg p args stdin 1) s)))"
  then have nl: "\<not> isIndexLockError (rr_err r)" using ex by simp
  have "length (sy_trace s1) = length (sy_trace s) + 1"
    using ex by (auto simp: exec_git_def split: prod.splits)
  moreover obtain n where n: "maxAttempts = Suc n" "maxAttempts - n = 1" by (simp add: maxAttempts_def)
  ultimately have "length (sy_trace (snd (run_state (git_attempts maxAttempts env ctx cfg p args stdin b [] []) s))) =
      length (sy_trace s) + 1" for b
    using ex nl unfolding n(1) by (cases "rr_fail r") (simp_all add: Let_def n(2))
  then show "length (sy_trace (snd (run_state (runGitFull env ctx cfg p args stdin) s))) \<le> length (sy_trace s) + 1"
    unfolding runGitFull_def by (auto split: option.split)
qed

theorem runGitFull_bounded_retries_witness:
  "length (sy_trace (snd (run_state (runGitFull (demo_env ''fatal: bad'') Live demo_cfg [] [''status''] None) demo_sys))) \<le> 1"
proof -
  have "\<not> isIndexLockError (rr_err (fst (run_state (exec_git (demo_env ''fatal: bad'') demo_cfg [] [''status''] None 1) demo_sys)))"
    by code_simp
  moreover have "sy_trace demo_sys = []" by (simp add: demo_sys_def)
  ultimately show ?thesis
    using runGitFull_bounded_retries [of "demo_env ''fatal: bad''" Live demo_cfg "[]" "[''status'']" None demo_sys]
    by simp
qed

end
