(* ===== verification/Commit.thy ===== *)
theory Commit
  imports Git
begin

text \<open>
  \<open>common/commit.go\<close>: deciding whether there is anything to commit, staging it, leaving editors'
  temporary files out, and committing; with \<open>isTempFileName\<close> of \<open>common/ignore.go\<close> and
  \<open>emitEvent\<close> of \<open>common/autosync.go\<close>, which it calls.
\<close>

section \<open>Parsing git's output\<close>

definition isTempFileName :: "string \<Rightarrow> bool" where
  "isTempFileName name \<longleftrightarrow> has_suffix name ''.swp'' \<or> has_prefix name ''~'' \<or> has_suffix name ''~''"

fun committable_tokens :: "string list \<Rightarrow> bool" where
  "committable_tokens [] = False"
| "committable_tokens (entry # toks) =
     (if length entry < 4 then committable_tokens toks
      else
        let xy = take 2 entry; p = drop 3 entry;
            rest = (if hd xy = CHR ''R'' \<or> hd xy = CHR ''C'' then drop 1 toks else toks)
        in if xy = ''??'' \<and> isTempFileName (Base (trim_suffix p ''/'')) then committable_tokens rest
           else True)"

definition hasCommittableEntries :: "string \<Rightarrow> bool" where
  "hasCommittableEntries raw = committable_tokens (split_on (CHR 0x00) raw)"

record staged_change =
  sc_Status :: string
  sc_Paths :: "string list"

definition path_count :: "string \<Rightarrow> nat" where
  "path_count status = (if hd status = CHR ''R'' \<or> hd status = CHR ''C'' then 2 else 1)"

fun name_status_tokens :: "string list \<Rightarrow> staged_change list" where
  "name_status_tokens [] = []"
| "name_status_tokens (status # toks) =
     (if status = [] then name_status_tokens toks
      else
        let n = path_count status
        in if length toks < n then []
           else \<lparr>sc_Status = status, sc_Paths = take n toks\<rparr> # name_status_tokens (drop n toks))"

definition parseNameStatusZ :: "string \<Rightarrow> staged_change list" where
  "parseNameStatusZ raw = name_status_tokens (split_on (CHR 0x00) raw)"

section \<open>The commit message\<close>

definition maxMessageFiles :: nat where "maxMessageFiles = 50"

definition commitMessage :: "staged_change list \<Rightarrow> string \<Rightarrow> string" where
  "commitMessage changes pre =
     (let shown = take maxMessageFiles changes;
          extra = length changes - length shown;
          ls = map (\<lambda>c. sc_Status c @ '' '' @ last (sc_Paths c)) shown @
               (if 0 < extra then [ellipsis @ '' and '' @ nat_digits extra @ '' more''] else []);
          msg = join [CHR 0x0A] ls;
          p = trim_space pre
      in if p \<noteq> [] then p @ '': '' @ msg else msg)"

section \<open>Committing\<close>

definition emitEvent :: "repo_config \<Rightarrow> event \<Rightarrow> ('w sys, unit) state" where
  "emitEvent cfg ev = (if cf_Emitter cfg then upd (\<lambda>s. s\<lparr>sy_events := sy_events s @ [ev]\<rparr>) else State_Monad.return ())"

abbreviation status_args :: "string list" where
  "status_args \<equiv> [''--no-optional-locks'', ''status'', ''--porcelain'', ''-z'', ''--untracked-files=normal'',
     ''--ignore-submodules=dirty'']"

abbreviation staged_args :: "string list" where
  "staged_args \<equiv> [''diff'', ''--cached'', ''--name-status'', ''-z'']"

abbreviation reset_args :: "string list \<Rightarrow> string list" where
  "reset_args paths \<equiv> [''--literal-pathspecs'', ''reset'', ''-q'', ''--''] @ paths"

abbreviation commit_args :: "string \<Rightarrow> string list" where
  "commit_args msg \<equiv> [''-c'', ''user.useConfigOnly=true'', ''commit'', ''-q'', ''-m'', msg]"

definition worktreeDirty :: "'w env \<Rightarrow> ctx \<Rightarrow> repo_config \<Rightarrow> ('w sys, goerror + bool) state" where
  "worktreeDirty env ctx cfg =
     do {
       (out, err) \<leftarrow> GitCommandCtx env ctx cfg status_args;
       State_Monad.return (case err of Some e \<Rightarrow> Inl e | None \<Rightarrow> Inr (hasCommittableEntries out))
     }"

definition stagedChanges :: "'w env \<Rightarrow> ctx \<Rightarrow> repo_config \<Rightarrow> ('w sys, goerror + staged_change list) state" where
  "stagedChanges env ctx cfg =
     do {
       (out, err) \<leftarrow> GitCommandCtx env ctx cfg staged_args;
       State_Monad.return (case err of Some e \<Rightarrow> Inl e | None \<Rightarrow> Inr (parseNameStatusZ out))
     }"

definition commitHooks :: "string list" where
  "commitHooks = [''pre-commit'', ''prepare-commit-msg'', ''commit-msg'']"

abbreviation hook_path_args :: "string list" where
  "hook_path_args \<equiv> ''rev-parse'' # concat (map (\<lambda>h. [''--git-path'', ''hooks/'' @ h]) commitHooks)"

definition installedCommitHook :: "'w env \<Rightarrow> ctx \<Rightarrow> repo_config \<Rightarrow> ('w sys, string) state" where
  "installedCommitHook env ctx cfg =
     do {
       (out, err) \<leftarrow> GitCommandCtx env ctx cfg hook_path_args;
       if err \<noteq> None then State_Monad.return []
       else ask (\<lambda>s. join ''/'' (map fst (filter
         (\<lambda>(hook, p). p \<noteq> [] \<and>
            (case en_stat env (sy_world s) (if is_abs p then p else Join [cf_RepoPath cfg, p]) of
               Inl _ \<Rightarrow> False | Inr fi \<Rightarrow> \<not> fi_IsDir fi \<and> fi_Exec fi))
         (zip commitHooks (split_on (CHR 0x0A) (trim_space out))))))
     }"

definition commitFailure ::
  "'w env \<Rightarrow> ctx \<Rightarrow> repo_config \<Rightarrow> goerror \<Rightarrow> ('w sys, goerror option) state" where
  "commitFailure env ctx cfg e =
     (case authorError e of
        Some a \<Rightarrow> State_Monad.return (Some a)
      | None \<Rightarrow>
          do {
            cerr \<leftarrow> ask (ctx_err env ctx);
            if cerr \<noteq> None \<or> isEnvironmentError (Some e) \<or> ClassifyError (Some e) = CodeLock
            then State_Monad.return (Some (Traced e))
            else do {
              changes \<leftarrow> stagedChanges env ctx cfg;
              if changes = Inr [] then State_Monad.return None
              else if gitExitCode (Some e) = 1 then
                do {
                  hook \<leftarrow> installedCommitHook env ctx cfg;
                  State_Monad.return (Some (if hook \<noteq> [] then HookError hook e else Traced e))
                }
              else State_Monad.return (Some (Traced e))
            }
          })"

definition temp_paths :: "staged_change list \<Rightarrow> string list" where
  "temp_paths changes = filter (\<lambda>p. isTempFileName (Base p)) (concat (map sc_Paths changes))"

text \<open>
  The part of \<open>commit\<close> that reads the staged changes, takes temporary files out of the index, and
  reads them again.
\<close>

definition stage_changes :: "'w env \<Rightarrow> ctx \<Rightarrow> repo_config \<Rightarrow> ('w sys, goerror + staged_change list) state" where
  "stage_changes env ctx cfg =
     do {
       (_, err) \<leftarrow> GitCommandCtx env ctx cfg [''add'', ''-A''];
       case err of
         Some e \<Rightarrow> State_Monad.return (Inl e)
       | None \<Rightarrow>
           do {
             changes \<leftarrow> stagedChanges env ctx cfg;
             case changes of
               Inl e \<Rightarrow> State_Monad.return (Inl e)
             | Inr cs \<Rightarrow>
                 if cs = [] \<or> temp_paths cs = [] then State_Monad.return (Inr cs)
                 else do {
                   (_, rerr) \<leftarrow> GitCommandCtx env ctx cfg (reset_args (temp_paths cs));
                   case rerr of
                     Some e \<Rightarrow> State_Monad.return (Inl e)
                   | None \<Rightarrow> stagedChanges env ctx cfg
                 }
           }
     }"

definition commit :: "'w env \<Rightarrow> ctx \<Rightarrow> repo_config \<Rightarrow> ('w sys, bool \<times> goerror option) state" where
  "commit env ctx cfg =
     do {
       dirty \<leftarrow> worktreeDirty env ctx cfg;
       case dirty of
         Inl e \<Rightarrow> State_Monad.return (False, Some (Traced e))
       | Inr d \<Rightarrow>
           if \<not> d then State_Monad.return (False, None)
           else do {
             changes \<leftarrow> stage_changes env ctx cfg;
             case changes of
               Inl e \<Rightarrow> State_Monad.return (False, Some (Traced e))
             | Inr cs \<Rightarrow>
                 if cs = [] then State_Monad.return (False, None)
                 else do {
                   let msg = commitMessage cs (cf_MessagePrefix cfg);
                   (_, err) \<leftarrow> GitCommandCtx env ctx cfg (commit_args msg);
                   case err of
                     Some e \<Rightarrow> do { f \<leftarrow> commitFailure env ctx cfg e; State_Monad.return (False, f) }
                   | None \<Rightarrow>
                       do {
                         now \<leftarrow> ask (now_unix env);
                         emitEvent cfg (NewEvent now EventCommit (cf_RepoPath cfg) msg []);
                         State_Monad.return (True, None)
                       }
                 }
           }
     }"

section \<open>Lemmas\<close>

text \<open>What \<open>git diff --name-status -z\<close> prints.\<close>

fun print_changes :: "staged_change list \<Rightarrow> string list" where
  "print_changes [] = [[]]"
| "print_changes (c # cs) = sc_Status c # sc_Paths c @ print_changes cs"

definition change_ok :: "staged_change \<Rightarrow> bool" where
  "change_ok c \<longleftrightarrow> sc_Status c \<noteq> [] \<and> CHR 0x00 \<notin> set (sc_Status c) \<and>
     length (sc_Paths c) = path_count (sc_Status c) \<and> (\<forall>p \<in> set (sc_Paths c). CHR 0x00 \<notin> set p)"

lemma name_status_print:
  "(\<And>c. c \<in> set cs \<Longrightarrow> change_ok c) \<Longrightarrow> name_status_tokens (print_changes cs) = cs"
proof (induction cs)
  case (Cons c cs)
  have "change_ok c" using Cons.prems by simp
  then show ?case using Cons by (auto simp: change_ok_def Let_def)
qed simp

lemma print_changes_no_sep:
  "(\<And>c. c \<in> set cs \<Longrightarrow> change_ok c) \<Longrightarrow> t \<in> set (print_changes cs) \<Longrightarrow> CHR 0x00 \<notin> set t"
  by (induction cs) (auto simp: change_ok_def)

lemma print_changes_not_Nil [simp]: "print_changes cs \<noteq> []"
  by (cases cs) auto

lemma name_status_paths:
  "c \<in> set (name_status_tokens toks) \<Longrightarrow> sc_Paths c \<noteq> [] \<and> sc_Status c \<noteq> []"
  by (induction toks rule: name_status_tokens.induct)
    (auto simp: Let_def path_count_def split: if_splits)

text \<open>
  The commands that only touch the local repository, and predicates \<open>C\<close> on commands that none
  of them satisfies.
\<close>

definition local_subcommands :: "string list" where
  "local_subcommands = [''status'', ''add'', ''diff'', ''reset'', ''commit'', ''rev-parse'', ''config'',
     ''symbolic-ref'', ''for-each-ref'', ''rev-list'', ''merge-base'']"

definition spares_local :: "(string list \<Rightarrow> bool) \<Rightarrow> bool" where
  "spares_local C \<longleftrightarrow> (\<forall>args. gitSubcommand args \<in> set local_subcommands \<longrightarrow> \<not> C args)"

lemma subcommands [simp]:
  "gitSubcommand status_args = ''status''" "gitSubcommand staged_args = ''diff''"
  "gitSubcommand (reset_args ps) = ''reset''" "gitSubcommand (commit_args msg) = ''commit''"
  "gitSubcommand remote_url_args = ''config''"
  "gitSubcommand [''add'', ''-A''] = ''add''" "gitSubcommand hook_path_args = ''rev-parse''"
  by (simp_all add: gitSubcommand.simps has_prefix_def)

lemma local_members [simp]:
  "''status'' \<in> set local_subcommands" "''diff'' \<in> set local_subcommands"
  "''reset'' \<in> set local_subcommands" "''commit'' \<in> set local_subcommands"
  "''add'' \<in> set local_subcommands" "''rev-parse'' \<in> set local_subcommands"
  "''config'' \<in> set local_subcommands" "''symbolic-ref'' \<in> set local_subcommands"
  "''for-each-ref'' \<in> set local_subcommands" "''rev-list'' \<in> set local_subcommands"
  "''merge-base'' \<in> set local_subcommands"
  by (simp_all add: local_subcommands_def)

lemma spares_localD: "spares_local C \<Longrightarrow> gitSubcommand args \<in> set local_subcommands \<Longrightarrow> \<not> C args"
  by (simp add: spares_local_def)

lemma spares_remote_url: "spares_local C \<Longrightarrow> \<not> C remote_url_args"
  by (rule spares_localD) (simp_all only: subcommands local_members)

lemma runs_local:
  "spares_local C \<Longrightarrow> gitSubcommand args \<in> set local_subcommands \<Longrightarrow> runs C 0 (GitCommandCtx env ctx cfg args)"
  by (rule runs_GitCommandCtx) (simp_all only: spares_localD spares_remote_url not_False_eq_True simp_thms)

lemma runs_sum [runs_rules]:
  "(\<And>y. x = Inl y \<Longrightarrow> runs C k (f y)) \<Longrightarrow> (\<And>y. x = Inr y \<Longrightarrow> runs C k (g y)) \<Longrightarrow>
    runs C k (case x of Inl y \<Rightarrow> f y | Inr y \<Rightarrow> g y)"
  by (cases x) auto

lemma keeps_sum [keeps_rules]:
  "(\<And>y. x = Inl y \<Longrightarrow> keeps h (f y)) \<Longrightarrow> (\<And>y. x = Inr y \<Longrightarrow> keeps h (g y)) \<Longrightarrow>
    keeps h (case x of Inl y \<Rightarrow> f y | Inr y \<Rightarrow> g y)"
  by (cases x) auto

lemma runs_emitEvent [runs_rules]: "runs C 0 (emitEvent cfg ev)"
  unfolding emitEvent_def by (intro runs_rules) simp

lemma runs_worktreeDirty: "spares_local C \<Longrightarrow> runs C 0 (worktreeDirty env ctx cfg)"
  unfolding worktreeDirty_def by (intro runs_rules runs_local) (simp_all only: subcommands local_members)

lemma runs_stagedChanges: "spares_local C \<Longrightarrow> runs C 0 (stagedChanges env ctx cfg)"
  unfolding stagedChanges_def by (intro runs_rules runs_local) (simp_all only: subcommands local_members)

lemma runs_installedCommitHook: "spares_local C \<Longrightarrow> runs C 0 (installedCommitHook env ctx cfg)"
  unfolding installedCommitHook_def by (intro runs_rules runs_local) (simp_all only: subcommands local_members)

lemma runs_commitFailure: "spares_local C \<Longrightarrow> runs C 0 (commitFailure env ctx cfg e)"
  unfolding commitFailure_def by (intro runs_rules runs_stagedChanges runs_installedCommitHook)

lemma runs_stage_changes: "spares_local C \<Longrightarrow> runs C 0 (stage_changes env ctx cfg)"
  unfolding stage_changes_def
  by (intro runs_rules runs_local runs_stagedChanges) (simp_all only: subcommands local_members)

lemma runs_commit: "spares_local C \<Longrightarrow> runs C 0 (commit env ctx cfg)"
  unfolding commit_def
  by (intro runs_rules runs_local runs_worktreeDirty runs_stage_changes runs_commitFailure)
    (simp_all only: subcommands local_members)

lemma keeps_worktreeDirty [keeps_rules]: "keeps observable (worktreeDirty env ctx cfg)"
  unfolding worktreeDirty_def by (intro keeps_rules)

lemma keeps_stagedChanges [keeps_rules]: "keeps observable (stagedChanges env ctx cfg)"
  unfolding stagedChanges_def by (intro keeps_rules)

lemma keeps_installedCommitHook [keeps_rules]: "keeps observable (installedCommitHook env ctx cfg)"
  unfolding installedCommitHook_def by (intro keeps_rules)

lemma keeps_commitFailure [keeps_rules]: "keeps observable (commitFailure env ctx cfg e)"
  unfolding commitFailure_def by (intro keeps_rules)

lemma keeps_stage_changes [keeps_rules]: "keeps observable (stage_changes env ctx cfg)"
  unfolding stage_changes_def by (intro keeps_rules)

text \<open>A step that leaves the observable state alone keeps any assertion about it.\<close>

lemma triple_observable: "keeps observable m \<Longrightarrow> triple (\<lambda>s. observable s = ob) m (\<lambda>_ s. observable s = ob)"
  by (rule triple_keeps)

lemma GitCommandCtx_ran:
  "triple (\<lambda>s. observable s = ob) (GitCommandCtx env ctx cfg args)
     (\<lambda>r s. observable s = ob \<and> (snd r = None \<longrightarrow> (args, 1) \<in> set (sy_trace s)))"
proof -
  have "observable (snd (run_state (GitCommandCtx env ctx cfg args) s)) = observable s" for s
    by (rule keepsD [OF keeps_GitCommandCtx])
  then show ?thesis unfolding triple_def
    by (metis GitCommandCtx_success_ran prod.collapse)
qed

text \<open>What \<open>commit\<close> promises of its result and of the state after it.\<close>

definition commit_promise ::
  "repo_config \<Rightarrow> repo_store \<times> event list \<times> (string \<times> string) list \<Rightarrow> bool \<times> goerror option \<Rightarrow> 'w sys \<Rightarrow> bool" where
  "commit_promise cfg ob r s \<longleftrightarrow>
     (if fst r
      then snd r = None \<and> sy_store s = fst ob \<and> sy_alerts s = snd (snd ob) \<and>
           (\<exists>now cs. cs \<noteq> [] \<and>
              (commit_args (commitMessage cs (cf_MessagePrefix cfg)), 1) \<in> set (sy_trace s) \<and>
              sy_events s = fst (snd ob) @
                (if cf_Emitter cfg
                 then [NewEvent now EventCommit (cf_RepoPath cfg) (commitMessage cs (cf_MessagePrefix cfg)) []]
                 else []))
      else observable s = ob)"

lemma triple_sum [triple_rules]:
  "(\<And>y. x = Inl y \<Longrightarrow> triple P (f y) Q) \<Longrightarrow> (\<And>y. x = Inr y \<Longrightarrow> triple P (g y) Q) \<Longrightarrow>
    triple P (case x of Inl y \<Rightarrow> f y | Inr y \<Rightarrow> g y) Q"
  by (cases x) auto

lemma commit_promise_fails:
  "triple (\<lambda>s. observable s = ob) (State_Monad.return (False, err)) (commit_promise cfg ob)"
  by (rule triple_return) (simp add: commit_promise_def)

lemma commit_promise_failure:
  "triple (\<lambda>s. observable s = ob)
     (do { f \<leftarrow> commitFailure env ctx cfg e; State_Monad.return (False, f) }) (commit_promise cfg ob)"
  by (rule triple_bind [OF triple_observable [OF keeps_commitFailure] commit_promise_fails])

lemma commit_promise_emit:
  assumes "cs \<noteq> []"
  shows "triple (\<lambda>s. observable s = ob \<and> (commit_args (commitMessage cs (cf_MessagePrefix cfg)), 1) \<in> set (sy_trace s))
    (do {
       now \<leftarrow> ask (now_unix env);
       emitEvent cfg (NewEvent now EventCommit (cf_RepoPath cfg) (commitMessage cs (cf_MessagePrefix cfg)) []);
       State_Monad.return (True, None)
     }) (commit_promise cfg ob)"
  using assms by (auto simp: triple_def commit_promise_def observable_def emitEvent_def) blast

lemma commit_spec: "triple (\<lambda>s. observable s = ob) (commit env ctx cfg) (commit_promise cfg ob)"
  unfolding commit_def
proof (rule triple_bind [OF triple_observable [OF keeps_worktreeDirty]], rule triple_sum)
  fix x :: "goerror + bool" and d
  show "triple (\<lambda>s. observable s = ob)
     (if \<not> d then State_Monad.return (False, None)
      else do {
        changes \<leftarrow> stage_changes env ctx cfg;
        case changes of
          Inl e \<Rightarrow> State_Monad.return (False, Some (Traced e))
        | Inr cs \<Rightarrow>
            if cs = [] then State_Monad.return (False, None)
            else do {
              let msg = commitMessage cs (cf_MessagePrefix cfg);
              (_, err) \<leftarrow> GitCommandCtx env ctx cfg (commit_args msg);
              case err of
                Some e \<Rightarrow> do { f \<leftarrow> commitFailure env ctx cfg e; State_Monad.return (False, f) }
              | None \<Rightarrow>
                  do {
                    now \<leftarrow> ask (now_unix env);
                    emitEvent cfg (NewEvent now EventCommit (cf_RepoPath cfg) msg []);
                    State_Monad.return (True, None)
                  }
            }
      }) (commit_promise cfg ob)"
  proof (rule triple_if, rule commit_promise_fails,
      rule triple_bind [OF triple_observable [OF keeps_stage_changes]],
      rule triple_sum, rule commit_promise_fails, rule triple_if, rule commit_promise_fails,
      rule triple_let, rule triple_bind [OF GitCommandCtx_ran], rule triple_prod)
    fix x y p out err and cs :: "staged_change list"
    assume "cs \<noteq> []" and p: "p = (out, err :: goerror option)"
    then show "triple (\<lambda>s. observable s = ob \<and> (snd p = None \<longrightarrow>
          (commit_args (commitMessage cs (cf_MessagePrefix cfg)), 1) \<in> set (sy_trace s)))
        (case err of
           None \<Rightarrow> do {
             now \<leftarrow> ask (now_unix env);
             emitEvent cfg (NewEvent now EventCommit (cf_RepoPath cfg) (commitMessage cs (cf_MessagePrefix cfg)) []);
             State_Monad.return (True, None)
           }
         | Some e \<Rightarrow> do { f \<leftarrow> commitFailure env ctx cfg e; State_Monad.return (False, f) })
        (commit_promise cfg ob)"
      using commit_promise_emit [of cs ob cfg env]
        commit_promise_failure [of ob env ctx cfg]
      by (cases err) simp_all
  qed
qed (rule commit_promise_fails)

text \<open>What \<open>git status --porcelain -z\<close> prints: the two letters, the path, and the old path of a rename.\<close>

fun print_status :: "(string \<times> string \<times> string) list \<Rightarrow> string list" where
  "print_status [] = [[]]"
| "print_status ((xy, p, old) # es) =
     (xy @ '' '' @ p) # (if hd xy = CHR ''R'' \<or> hd xy = CHR ''C'' then [old] else []) @ print_status es"

definition entry_ok :: "string \<times> string \<times> string \<Rightarrow> bool" where
  "entry_ok e = (case e of (xy, p, old) \<Rightarrow> length xy = 2 \<and> p \<noteq> [] \<and>
     CHR 0x00 \<notin> set xy \<and> CHR 0x00 \<notin> set p \<and> CHR 0x00 \<notin> set old)"

lemma committable_print:
  assumes "\<And>e. e \<in> set es \<Longrightarrow> entry_ok e"
  shows "committable_tokens (print_status es) \<longleftrightarrow>
    (\<exists>(xy, p, old) \<in> set es. \<not> (xy = ''??'' \<and> isTempFileName (Base (trim_suffix p ''/''))))"
  using assms
proof (induction es)
  case Nil
  then show ?case by simp
next
  case (Cons e es)
  obtain xy p old where e: "e = (xy, p, old)" by (cases e)
  have ok: "length xy = 2" "p \<noteq> []" using Cons.prems [of e] e by (auto simp: entry_ok_def)
  then obtain a b where xy: "xy = [a, b]" by (auto simp: length_Suc_conv eval_nat_numeral)
  have len: "\<not> length (xy @ '' '' @ p) < 4" using ok by (cases p) auto
  have "(\<exists>(xy, p, old) \<in> set es. \<not> (xy = ''??'' \<and> isTempFileName (Base (trim_suffix p ''/'')))) \<longleftrightarrow>
      committable_tokens (print_status es)" using Cons by simp
  then show ?case using e xy len by (simp add: Let_def)
qed

lemma print_status_no_sep:
  "(\<And>e. e \<in> set es \<Longrightarrow> entry_ok e) \<Longrightarrow> t \<in> set (print_status es) \<Longrightarrow> CHR 0x00 \<notin> set t"
proof (induction es)
  case (Cons e es)
  obtain xy p old where e: "e = (xy, p, old)" by (cases e)
  have "CHR 0x00 \<notin> set xy \<and> CHR 0x00 \<notin> set p \<and> CHR 0x00 \<notin> set old"
    using Cons.prems(1) [of e] e by (simp add: entry_ok_def)
  then show ?case using Cons e by (auto split: if_splits)
qed simp

lemma print_status_not_Nil [simp]: "print_status es \<noteq> []"
  by (cases es rule: print_status.cases) auto

section \<open>Properties\<close>

text \<open>
  Parsing the staged changes inverts what git prints: any list of changes whose status and
  paths have no NUL, with two paths for renames and copies and one otherwise, is read back
  exactly.
\<close>

theorem parseNameStatusZ_roundtrip:
  assumes "\<And>c. c \<in> set cs \<Longrightarrow> change_ok c"
  shows "parseNameStatusZ (join [CHR 0x00] (print_changes cs)) = cs"
  unfolding parseNameStatusZ_def
  using split_on_join [of "print_changes cs" "CHR 0x00"] print_changes_no_sep [OF assms]
    name_status_print [OF assms] by simp

theorem parseNameStatusZ_roundtrip_witness:
  "parseNameStatusZ (join [CHR 0x00] (print_changes
      [\<lparr>sc_Status = ''M'', sc_Paths = [''a'']\<rparr>, \<lparr>sc_Status = ''R100'', sc_Paths = [''b'', ''c'']\<rparr>])) =
    [\<lparr>sc_Status = ''M'', sc_Paths = [''a'']\<rparr>, \<lparr>sc_Status = ''R100'', sc_Paths = [''b'', ''c'']\<rparr>]"
  by (rule parseNameStatusZ_roundtrip) (auto simp: change_ok_def path_count_def)

text \<open>
  The worktree counts as dirty exactly when git's status has an entry other than an untracked
  temporary file; the old path of a rename is never taken for an entry.
\<close>

theorem hasCommittableEntries_spec:
  assumes "\<And>e. e \<in> set es \<Longrightarrow> entry_ok e"
  shows "hasCommittableEntries (join [CHR 0x00] (print_status es)) \<longleftrightarrow>
    (\<exists>(xy, p, old) \<in> set es. \<not> (xy = ''??'' \<and> isTempFileName (Base (trim_suffix p ''/''))))"
  unfolding hasCommittableEntries_def
  using split_on_join [of "print_status es" "CHR 0x00"] print_status_no_sep [OF assms]
    committable_print [OF assms] by simp

theorem hasCommittableEntries_spec_witness:
  "\<not> hasCommittableEntries (join [CHR 0x00] (print_status [(''??'', ''d/.x.swp'', [])]))"
proof -
  have "isTempFileName (Base (trim_suffix ''d/.x.swp'' ''/''))" by code_simp
  then show ?thesis using hasCommittableEntries_spec [of "[(''??'', ''d/.x.swp'', [])]"]
    by (simp add: entry_ok_def)
qed


text \<open>An environment in which everything works: one modified file, already staged.\<close>

definition commit_env :: "unit env" where
  "commit_env = (demo_env [])\<lparr>en_run := \<lambda>w inv. (\<lparr>
     rr_out = (if gi_args inv = status_args then '' M f'' @ [CHR 0x00]
               else if gi_args inv = staged_args then ''M'' @ [CHR 0x00] @ ''f'' @ [CHR 0x00] else []),
     rr_err = [], rr_fail = None, rr_deadline = False\<rparr>, w)\<rparr>"


end
