(* ===== verification/Rebase.thy ===== *)
theory Rebase
  imports Commit
begin

text \<open>
  \<open>common/rebase.go\<close>, \<open>common/fetch.go\<close>, \<open>common/branchinfo.go\<close> and \<open>common/preflight.go\<close>:
  locating a repository and its branch, the checks before a sync, fetching, counting commits ahead
  and behind, and rebasing with the abort of a rebase that stopped on a conflict.

  A pair of a result and an error of the Go functions is a pair here, too, where both are used.
\<close>

section \<open>Reading the repository\<close>

record repo_info =
  ri_GitDir :: string
  ri_CommonDir :: string
  ri_Branch :: string
  ri_Head :: string
  ri_Remote :: string
  ri_MergeRef :: string
  ri_Upstream :: string
  ri_UpstreamShort :: string

definition no_info :: repo_info where
  "no_info = \<lparr>ri_GitDir = [], ri_CommonDir = [], ri_Branch = [], ri_Head = [], ri_Remote = [],
     ri_MergeRef = [], ri_Upstream = [], ri_UpstreamShort = []\<rparr>"

definition hasUpstream :: "repo_info \<Rightarrow> bool" where
  "hasUpstream i \<longleftrightarrow> ri_Remote i \<noteq> [] \<and> ri_MergeRef i \<noteq> [] \<and> ri_Upstream i \<noteq> []"

definition preflightUpstreamGone :: string where "preflightUpstreamGone = ''upstream_gone''"
definition preflightNoHead :: string where "preflightNoHead = ''no_head''"
definition preflightRepoMissing :: string where "preflightRepoMissing = ''repo_missing''"
definition preflightUntrustedRepo :: string where "preflightUntrustedRepo = ''untrusted_repo''"

definition upstreamGoneError :: "repo_info \<Rightarrow> goerror" where
  "upstreamGoneError info =
     PreflightError preflightUpstreamGone
       (''upstream branch '' @ [CHR 0x27] @ ri_UpstreamShort info @ [CHR 0x27] @
        '' no longer exists on the remote; recreate it with `git push -u '' @ ri_Remote info @
        '' HEAD:'' @ trim_prefix (ri_MergeRef info) ''refs/heads/'' @
        ''` or track another branch with `git branch -u`'')"

definition exists_file :: "'w env \<Rightarrow> string \<Rightarrow> 'w sys \<Rightarrow> bool \<times> goerror option" where
  "exists_file env name s =
     (case en_stat env (sy_world s) name of
        Inr _ \<Rightarrow> (True, None)
      | Inl e \<Rightarrow> if is_error ErrNotExist e then (False, None) else (False, Some e))"

definition isRebasing :: "'w env \<Rightarrow> string \<Rightarrow> 'w sys \<Rightarrow> bool \<times> goerror option" where
  "isRebasing env gitDir s =
     (case exists_file env (Join [gitDir, ''rebase-apply'']) s of
        (ra, Some e) \<Rightarrow> (False, Some (Traced e))
      | (ra, None) \<Rightarrow>
          (case exists_file env (Join [gitDir, ''rebase-merge'']) s of
             (rm, Some e) \<Rightarrow> (False, Some (Traced e))
           | (rm, None) \<Rightarrow> (ra \<or> rm, None)))"

abbreviation locate_args :: "string list" where
  "locate_args \<equiv> [''rev-parse'', ''--absolute-git-dir'', ''--git-common-dir'', ''--symbolic-full-name'', ''HEAD'']"

definition locateRepo ::
  "'w env \<Rightarrow> ctx \<Rightarrow> repo_config \<Rightarrow> ('w sys, repo_info \<times> string \<times> goerror option) state" where
  "locateRepo env ctx cfg =
     do {
       (out, err) \<leftarrow> GitCommandCtx env ctx cfg locate_args;
       let ls = split_on (CHR 0x0A) (trim_right_byte (CHR 0x0A) out);
       if length ls < 2 \<or> ls ! 0 = [] then
         State_Monad.return (no_info, [],
           Some (case err of
                   None \<Rightarrow> Traced (Plain (''unexpected rev-parse output: '' @ en_quote env out))
                 | Some e \<Rightarrow> e))
       else do {
         let info = no_info\<lparr>ri_GitDir := ls ! 0,
           ri_CommonDir := (if is_abs (ls ! 1) then ls ! 1 else Join [cf_RepoPath cfg, ls ! 1])\<rparr>;
         if err = None \<and> 3 \<le> length ls then State_Monad.return (info, ls ! 2, None)
         else if gitExitCode err \<noteq> 128 then State_Monad.return (info, [], err)
         else do {
           (out2, err2) \<leftarrow> GitCommandCtx env ctx cfg [''symbolic-ref'', ''-q'', ''HEAD''];
           State_Monad.return
             (case err2 of
                Some e \<Rightarrow> if gitExitCode err2 = 1 then (info, ''HEAD'', None) else (info, [], err2)
              | None \<Rightarrow> (info, trim_space out2, None))
         }
       }
     }"

definition pad_fields :: "string list \<Rightarrow> string list" where
  "pad_fields fs = fs @ replicate (5 - length fs) []"

definition readBranchInfo ::
  "'w env \<Rightarrow> ctx \<Rightarrow> repo_config \<Rightarrow> repo_info \<Rightarrow> string \<Rightarrow> ('w sys, repo_info \<times> goerror option) state" where
  "readBranchInfo env ctx cfg info headRef =
     (if \<not> has_prefix headRef ''refs/heads/'' then State_Monad.return (info, Some (Sentinel errDetachedHead))
      else
        let info1 = info\<lparr>ri_Branch := trim_prefix headRef ''refs/heads/''\<rparr> in
        do {
          (out, err) \<leftarrow> GitCommandCtx env ctx cfg
            [''for-each-ref'',
             ''--format=%(objectname)%00%(upstream:remotename)%00%(upstream:remoteref)%00%(upstream)%00%(upstream:short)'',
             ''refs/heads/'' @ ri_Branch info1];
          if err \<noteq> None then State_Monad.return (info1, err)
          else
            let line = trim_right_byte (CHR 0x0A) out;
                fs = pad_fields (split_on (CHR 0x00) line)
            in State_Monad.return
                 (if line = [] then (info1, Some (Sentinel errUnbornBranch))
                  else (info1\<lparr>ri_Head := fs ! 0, ri_Remote := fs ! 1, ri_MergeRef := fs ! 2,
                          ri_Upstream := fs ! 3, ri_UpstreamShort := fs ! 4\<rparr>, None))
        })"

definition readRepoInfo :: "'w env \<Rightarrow> ctx \<Rightarrow> repo_config \<Rightarrow> ('w sys, repo_info \<times> goerror option) state" where
  "readRepoInfo env ctx cfg =
     do {
       (info, headRef, err) \<leftarrow> locateRepo env ctx cfg;
       if err \<noteq> None then State_Monad.return (info, err)
       else readBranchInfo env ctx cfg info headRef
     }"

text \<open>\<open>regexp.QuoteMeta\<close>.\<close>

definition quote_meta :: "string \<Rightarrow> string" where
  "quote_meta s =
     concat (map (\<lambda>c. if c \<in> set (CHR 0x5C # ''.+*?()|[]{}^$'') then [CHR 0x5C, c] else [c]) s)"

definition upstreamConfigured :: "'w env \<Rightarrow> ctx \<Rightarrow> repo_config \<Rightarrow> string \<Rightarrow> ('w sys, bool) state" where
  "upstreamConfigured env ctx cfg branch =
     (if branch = [] then State_Monad.return False
      else do {
        (out, err) \<leftarrow> GitCommandCtx env ctx cfg
          [''config'', ''--get-regexp'',
           ''^branch'' @ [CHR 0x5C] @ ''.'' @ quote_meta branch @ [CHR 0x5C] @ ''.(remote|merge)$''];
        State_Monad.return (err = None \<and> 2 \<le> length (split_on (CHR 0x0A) (trim_space out)))
      })"

definition remoteHasRefs :: "'w env \<Rightarrow> ctx \<Rightarrow> repo_config \<Rightarrow> string \<Rightarrow> ('w sys, bool) state" where
  "remoteHasRefs env ctx cfg remote =
     (if remote = [] \<or> remote = ''.'' then State_Monad.return True
      else do {
        (out, err) \<leftarrow> GitCommandCtx env ctx cfg
          [''for-each-ref'', ''--count=1'', ''--format=%(refname)'', ''refs/remotes/'' @ remote @ ''/''];
        State_Monad.return (err \<noteq> None \<or> trim_space out \<noteq> [])
      })"

definition aheadBehind ::
  "'w env \<Rightarrow> ctx \<Rightarrow> repo_config \<Rightarrow> repo_info \<Rightarrow> ('w sys, go_int \<times> go_int \<times> goerror option) state" where
  "aheadBehind env ctx cfg info =
     (if ri_Upstream info = [] then State_Monad.return (0, 0, None)
      else do {
        (out, err) \<leftarrow> GitCommandCtx env ctx cfg
          [''rev-list'', ''--left-right'', ''--count'', ''HEAD...'' @ ri_Upstream info, ''--''];
        if err \<noteq> None then
          do {
            (_, perr) \<leftarrow> revParse env ctx cfg (ri_Upstream info);
            if perr = None \<or> gitExitCode perr \<noteq> 1 then State_Monad.return (0, 0, err)
            else do {
              has \<leftarrow> remoteHasRefs env ctx cfg (ri_Remote info);
              if has then State_Monad.return (0, 0, Some (upstreamGoneError info))
              else do {
                (out2, err2) \<leftarrow> GitCommandCtx env ctx cfg [''rev-list'', ''--count'', ''HEAD'', ''--''];
                State_Monad.return
                  (if err2 \<noteq> None then (0, 0, err2) else (fst (atoi (trim_space out2)), 0, None))
              }
            }
          }
        else
          let parts = GoStd.fields (trim_space out)
          in State_Monad.return
               (if length parts \<noteq> 2
                then (0, 0, Some (Traced (Plain (''unexpected rev-list output: '' @ en_quote env out))))
                else (fst (atoi (parts ! 0)), fst (atoi (parts ! 1)), None))
      })"

section \<open>Checks before a sync\<close>

text \<open>\<open>None\<close> as an error is a nil error.\<close>

definition preflight_locate_error :: "sentinel option \<Rightarrow> goerror \<Rightarrow> goerror" where
  "preflight_locate_error cerr e =
     (if isEnvironmentError (Some e) \<or> cerr \<noteq> None then e
      else if ClassifyError (Some e) = CodeNotARepo
      then PreflightError preflightRepoMissing ''repository folder is missing''
      else if isUntrustedRepo (Some e)
      then PreflightError preflightUntrustedRepo (errorMessage [] (Some e))
      else PreflightError ''missing_git'' ''not a git repository (no .git folder found)'')"

definition preflight_branch_error :: "sentinel option \<Rightarrow> repo_info \<Rightarrow> goerror \<Rightarrow> goerror" where
  "preflight_branch_error cerr info e =
     (if is_error errDetachedHead e
      then PreflightError ''detached_head'' (''detached HEAD '' @ em_dash @ '' not on a branch'')
      else if is_error errUnbornBranch e
      then PreflightError preflightNoHead (''branch '' @ [CHR 0x27] @ ri_Branch info @ [CHR 0x27] @
             '' has no commits yet; make the first commit and push it with `git push -u`'')
      else if isEnvironmentError (Some e) \<or> cerr \<noteq> None then e
      else PreflightError ''open_failed'' (''cannot open repository: '' @ errorSummary (Some e)))"

definition preflight ::
  "'w env \<Rightarrow> ctx \<Rightarrow> repo_config \<Rightarrow> ('w sys, repo_info \<times> goerror option) state" where
  "preflight env ctx cfg =
     do {
       (info, headRef, err) \<leftarrow> locateRepo env ctx cfg;
       cerr \<leftarrow> ask (ctx_err env ctx);
       case err of
         Some e \<Rightarrow> State_Monad.return (no_info, Some (preflight_locate_error cerr e))
       | None \<Rightarrow>
           do {
             rebasing \<leftarrow> ask (\<lambda>s. fst (isRebasing env (ri_GitDir info) s));
             merging \<leftarrow> ask (\<lambda>s. fst (exists_file env (Join [ri_GitDir info, ''MERGE_HEAD'']) s));
             if rebasing then
               State_Monad.return (info, Some (PreflightError ''rebase_in_progress''
                 (''rebase in progress '' @ em_dash @ '' resolve or abort manually'')))
             else if merging then
               State_Monad.return (info, Some (PreflightError ''merge_in_progress''
                 (''merge in progress '' @ em_dash @ '' resolve or abort manually'')))
             else do {
               (info2, err2) \<leftarrow> readBranchInfo env ctx cfg info headRef;
               cerr2 \<leftarrow> ask (ctx_err env ctx);
               State_Monad.return
                 (case err2 of
                    Some e \<Rightarrow> (info2, Some (preflight_branch_error cerr2 info2 e))
                  | None \<Rightarrow>
                      if \<not> hasUpstream info2
                      then (info2, Some (PreflightError ''no_upstream''
                             (''branch '' @ [CHR 0x27] @ ri_Branch info2 @ [CHR 0x27] @
                              '' has no upstream tracking branch'')))
                      else (info2, None))
             }
           }
     }"

section \<open>Fetching\<close>

definition isMissingRemoteRef :: "goerror \<Rightarrow> bool" where
  "isMissingRemoteRef e =
     (case as_git e of
        None \<Rightarrow> False
      | Some g \<Rightarrow> contains (ge_Stderr g) (''couldn'' @ [CHR 0x27] @ ''t find remote ref''))"

definition fetch_args :: "repo_info \<Rightarrow> string list" where
  "fetch_args info =
     [''fetch'', ri_Remote info] @
     (if ri_MergeRef info \<noteq> [] \<and> has_prefix (ri_Upstream info) ''refs/remotes/''
      then [''+'' @ ri_MergeRef info @ '':'' @ ri_Upstream info] else [])"

definition fetch ::
  "'w env \<Rightarrow> ctx \<Rightarrow> repo_config \<Rightarrow> repo_info \<Rightarrow> ('w sys, bool \<times> goerror option) state" where
  "fetch env ctx cfg info =
     (if ri_Remote info = [] \<or> ri_Remote info = ''.'' then State_Monad.return (False, None)
      else do {
        (stderr, err) \<leftarrow> gitCommandStderr env ctx cfg (fetch_args info);
        case err of
          None \<Rightarrow> State_Monad.return (contains stderr ''(forced update)'', None)
        | Some e \<Rightarrow>
            if isMissingRemoteRef e then
              do {
                (_, perr) \<leftarrow> revParse env ctx cfg (ri_Upstream info);
                State_Monad.return (False, if perr = None then Some (upstreamGoneError info) else None)
              }
            else State_Monad.return (False, Some (Traced e))
      })"

section \<open>Rebasing\<close>

definition isDirtyWorktreeMessage :: "string \<Rightarrow> bool" where
  "isDirtyWorktreeMessage stderr \<longleftrightarrow>
     contains stderr ''You have unstaged changes'' \<or>
     contains stderr ''Your index contains uncommitted changes'' \<or>
     contains stderr ''would be overwritten by checkout''"

definition readConflictFiles :: "'w env \<Rightarrow> ctx \<Rightarrow> repo_config \<Rightarrow> ('w sys, string list) state" where
  "readConflictFiles env ctx cfg =
     do {
       (out, err) \<leftarrow> GitCommandCtx env ctx cfg [''diff'', ''--name-only'', ''-z'', ''--diff-filter=U''];
       State_Monad.return
         (if err \<noteq> None then [] else filter (\<lambda>f. f \<noteq> []) (split_on (CHR 0x00) out))
     }"

abbreviation rebase_args :: "bool \<Rightarrow> repo_info \<Rightarrow> string list" where
  "rebase_args forkPoint info \<equiv> [''rebase''] @ (if forkPoint then [''--fork-point''] else []) @ [ri_Upstream info]"

abbreviation abort_args :: "string list" where
  "abort_args \<equiv> [''rebase'', ''--abort'']"

text \<open>After a rebase that stopped half way: collect the conflicts, abort, and say what happened.\<close>

definition abort_rebase ::
  "'w env \<Rightarrow> repo_config \<Rightarrow> repo_info \<Rightarrow> goerror \<Rightarrow> ('w sys, goerror option) state" where
  "abort_rebase env cfg info rebaseErr =
     do {
       conflicts \<leftarrow> (if ClassifyError (Some rebaseErr) \<noteq> CodeTimeout
                     then readConflictFiles env WithoutCancel cfg else State_Monad.return []);
       (_, aerr) \<leftarrow> GitCommandCtx env WithoutCancel cfg abort_args;
       case aerr of
         Some a \<Rightarrow> State_Monad.return (Some (Traced (Wrapped
           (''rebase failed and could not be aborted, repo is mid-rebase: '' @ error_text a) a)))
       | None \<Rightarrow>
           if gitExitCode (Some rebaseErr) \<noteq> 1 \<or> ClassifyError (Some rebaseErr) = CodeTimeout \<or> conflicts = []
           then State_Monad.return (Some (Traced rebaseErr))
           else do {
             (head, _) \<leftarrow> revParse env WithoutCancel cfg ''HEAD'';
             (up, _) \<leftarrow> revParse env WithoutCancel cfg (ri_Upstream info);
             State_Monad.return (Some (RebaseConflictError conflicts head up))
           }
     }"

definition rebase ::
  "'w env \<Rightarrow> repo_config \<Rightarrow> repo_info \<Rightarrow> bool \<Rightarrow> ('w sys, goerror option) state" where
  "rebase env cfg info forkPoint =
     (if \<not> hasUpstream info then State_Monad.return None
      else do {
        (_, rebaseErr) \<leftarrow> GitCommandCtx env WithoutCancel cfg (rebase_args forkPoint info);
        case rebaseErr of
          None \<Rightarrow> State_Monad.return None
        | Some e \<Rightarrow>
            do {
              (inProgress, err) \<leftarrow> ask (isRebasing env (ri_GitDir info));
              case err of
                Some x \<Rightarrow> State_Monad.return (Some (Traced x))
              | None \<Rightarrow>
                  if inProgress then abort_rebase env cfg info e
                  else State_Monad.return (Some
                    (if (case as_git e of None \<Rightarrow> False | Some g \<Rightarrow> isDirtyWorktreeMessage (ge_Stderr g))
                     then Sentinel errDirtyWorktree else Traced e))
            }
      })"

section \<open>Branch information without a fetch\<close>

record local_branch_info =
  lb_Branch :: string
  lb_Upstream :: string
  lb_Ahead :: go_int
  lb_Behind :: go_int

definition ReadLocalBranchInfo ::
  "'w env \<Rightarrow> ctx \<Rightarrow> repo_config \<Rightarrow> ('w sys, local_branch_info \<times> goerror option) state" where
  "ReadLocalBranchInfo env ctx cfg =
     (let none = \<lparr>lb_Branch = [], lb_Upstream = [], lb_Ahead = 0, lb_Behind = 0\<rparr> in
      do {
        (out, err) \<leftarrow> GitCommandCtx env ctx cfg [''symbolic-ref'', ''-q'', ''--short'', ''HEAD''];
        if err \<noteq> None then State_Monad.return (none, err)
        else
          let info = none\<lparr>lb_Branch := trim_space out\<rparr> in
          if lb_Branch info = [] then State_Monad.return (info, None)
          else do {
            (out2, err2) \<leftarrow> GitCommandCtx env ctx cfg
              [''for-each-ref'', ''--format=%(upstream:short)%00%(upstream)'', ''refs/heads/'' @ lb_Branch info];
            if err2 \<noteq> None then State_Monad.return (info, err2)
            else
              case cut (CHR 0x00) (trim_right_byte (CHR 0x0A) out2) of
                (short, full, _) \<Rightarrow>
                  if full = [] then State_Monad.return (info, None)
                  else do {
                    (out3, err3) \<leftarrow> GitCommandCtx env ctx cfg
                      [''rev-list'', ''--left-right'', ''--count'', ''HEAD...'' @ full, ''--''];
                    let info3 = info\<lparr>lb_Upstream := short\<rparr>;
                    let parts = GoStd.fields out3;
                    State_Monad.return
                      (if err3 = None \<and> length parts = 2
                       then info3\<lparr>lb_Ahead := fst (atoi (parts ! 0)), lb_Behind := fst (atoi (parts ! 1))\<rparr>
                       else info3, None)
                  }
          }
      })"

definition RestoreBranchInfo :: "'w env \<Rightarrow> ctx \<Rightarrow> repo_config \<Rightarrow> ('w sys, bool) state" where
  "RestoreBranchInfo env ctx cfg =
     (if \<not> cf_State cfg then State_Monad.return False
      else do {
        (info, err) \<leftarrow> ReadLocalBranchInfo env ctx cfg;
        if err \<noteq> None \<or> lb_Branch info = [] then State_Monad.return False
        else do {
          upd (\<lambda>s. s\<lparr>sy_store := SetBranchInfo (sy_store s) (cf_RepoPath cfg) (lb_Branch info)
            (lb_Upstream info) (lb_Ahead info) (lb_Behind info)\<rparr>);
          State_Monad.return True
        }
      })"

section \<open>Lemmas\<close>

lemma local_rev_parse [simp]: "gitSubcommand (''rev-parse'' # args) = ''rev-parse''"
  and local_symbolic_ref [simp]: "gitSubcommand (''symbolic-ref'' # args) = ''symbolic-ref''"
  and local_for_each_ref [simp]: "gitSubcommand (''for-each-ref'' # args) = ''for-each-ref''"
  and local_config [simp]: "gitSubcommand (''config'' # args) = ''config''"
  and local_rev_list [simp]: "gitSubcommand (''rev-list'' # args) = ''rev-list''"
  and local_diff [simp]: "gitSubcommand (''diff'' # args) = ''diff''"
  and local_merge_base [simp]: "gitSubcommand (''merge-base'' # args) = ''merge-base''"
  and sub_rebase [simp]: "gitSubcommand (''rebase'' # args) = ''rebase''"
  and sub_fetch [simp]: "gitSubcommand (''fetch'' # args) = ''fetch''"
  and sub_push [simp]: "gitSubcommand (''push'' # args) = ''push''"
  by (simp_all add: has_prefix_def)

lemmas sub_local = local_rev_parse local_symbolic_ref local_for_each_ref local_config local_rev_list
  local_diff local_merge_base local_members

lemma runs_revParse_local: "spares_local C \<Longrightarrow> runs C 0 (revParse env ctx cfg ref)"
  unfolding revParse_def by (intro runs_rules runs_local) (simp_all only: sub_local)

lemma runs_isAncestor_local: "spares_local C \<Longrightarrow> runs C 0 (isAncestor env ctx cfg a d)"
  unfolding isAncestor_def by (intro runs_rules runs_local) (simp_all only: sub_local)

lemma runs_locateRepo: "spares_local C \<Longrightarrow> runs C 0 (locateRepo env ctx cfg)"
  unfolding locateRepo_def by (intro runs_rules runs_local) (simp_all only: sub_local)

lemma runs_readBranchInfo: "spares_local C \<Longrightarrow> runs C 0 (readBranchInfo env ctx cfg info h)"
  unfolding readBranchInfo_def by (intro runs_rules runs_local) (simp_all only: sub_local)

lemma runs_upstreamConfigured: "spares_local C \<Longrightarrow> runs C 0 (upstreamConfigured env ctx cfg b)"
  unfolding upstreamConfigured_def by (intro runs_rules runs_local) (simp_all only: sub_local)

lemma runs_remoteHasRefs: "spares_local C \<Longrightarrow> runs C 0 (remoteHasRefs env ctx cfg r)"
  unfolding remoteHasRefs_def by (intro runs_rules runs_local) (simp_all only: sub_local)

lemma runs_aheadBehind: "spares_local C \<Longrightarrow> runs C 0 (aheadBehind env ctx cfg info)"
  unfolding aheadBehind_def
  by (intro runs_rules runs_local runs_revParse_local runs_remoteHasRefs) (simp_all only: sub_local)

lemma runs_preflight: "spares_local C \<Longrightarrow> runs C 0 (preflight env ctx cfg)"
  unfolding preflight_def by (intro runs_rules runs_locateRepo runs_readBranchInfo)

lemma runs_readConflictFiles: "spares_local C \<Longrightarrow> runs C 0 (readConflictFiles env ctx cfg)"
  unfolding readConflictFiles_def by (intro runs_rules runs_local) (simp_all only: sub_local)

lemma runs_fetch: "spares_local C \<Longrightarrow> \<not> C (fetch_args info) \<or> 0 < k \<Longrightarrow> runs C k (fetch env ctx cfg info)"
  unfolding fetch_def
  by (intro runs_if runs_bind_right [OF runs_gitCommandStderr] runs_rules runs_revParse_local
      spares_remote_url runs_weaken [OF runs_return]) simp_all

definition spares_rebase :: "(string list \<Rightarrow> bool) \<Rightarrow> bool" where
  "spares_rebase C \<longleftrightarrow> (\<forall>args. gitSubcommand args = ''rebase'' \<longrightarrow> \<not> C args)"

lemma runs_rebase_command:
  "spares_local C \<Longrightarrow> spares_rebase C \<Longrightarrow> gitSubcommand args = ''rebase'' \<Longrightarrow> runs C 0 (GitCommandCtx env ctx cfg args)"
  by (rule runs_GitCommandCtx [OF _ spares_remote_url]) (simp_all add: spares_rebase_def)

lemma runs_rebase: "spares_local C \<Longrightarrow> spares_rebase C \<Longrightarrow> runs C 0 (rebase env cfg info fp)"
  unfolding rebase_def abort_rebase_def
  by (intro runs_rules runs_rebase_command runs_readConflictFiles runs_revParse_local) simp_all

lemma keeps_locateRepo [keeps_rules]: "keeps observable (locateRepo env ctx cfg)"
  unfolding locateRepo_def by (intro keeps_rules)

lemma keeps_readBranchInfo [keeps_rules]: "keeps observable (readBranchInfo env ctx cfg info h)"
  unfolding readBranchInfo_def by (intro keeps_rules)

lemma keeps_upstreamConfigured [keeps_rules]: "keeps observable (upstreamConfigured env ctx cfg b)"
  unfolding upstreamConfigured_def by (intro keeps_rules)

lemma keeps_remoteHasRefs [keeps_rules]: "keeps observable (remoteHasRefs env ctx cfg r)"
  unfolding remoteHasRefs_def by (intro keeps_rules)

lemma keeps_aheadBehind [keeps_rules]: "keeps observable (aheadBehind env ctx cfg info)"
  unfolding aheadBehind_def by (intro keeps_rules)

lemma keeps_preflight [keeps_rules]: "keeps observable (preflight env ctx cfg)"
  unfolding preflight_def by (intro keeps_rules)

lemma keeps_fetch [keeps_rules]: "keeps observable (fetch env ctx cfg info)"
  unfolding fetch_def by (intro keeps_rules)

lemma keeps_readConflictFiles [keeps_rules]: "keeps observable (readConflictFiles env ctx cfg)"
  unfolding readConflictFiles_def by (intro keeps_rules)

lemma keeps_rebase [keeps_rules]: "keeps observable (rebase env cfg info fp)"
  unfolding rebase_def abort_rebase_def by (intro keeps_rules)

text \<open>With \<open>runs\<close> for the predicate that holds of nothing: the trace only grows.\<close>

lemma runs_trace_grows: "runs (\<lambda>_. False) 0 m \<Longrightarrow> run_state m s = (x, s') \<Longrightarrow> set (sy_trace s) \<subseteq> set (sy_trace s')"
  using runsD [of "\<lambda>_. False" 0 m s] by auto

lemma spares_nothing [simp]: "spares_local (\<lambda>_. False)" "spares_rebase (\<lambda>_. False)"
  by (simp_all add: spares_local_def spares_rebase_def)

section \<open>Properties\<close>

text \<open>
  The checks before a sync are conclusive: if they pass, the branch has a remote, a merge ref
  and an upstream; if they fail, the error is a preflight error with a code, or git itself is
  missing or too slow, or the sync was cancelled. They change nothing the user sees.
\<close>

theorem preflight_outcome:
  assumes "run_state (preflight env ctx cfg) s = ((info, err), s')"
  shows "observable s' = observable s \<and>
    (err = None \<longrightarrow> hasUpstream info) \<and>
    (err \<noteq> None \<longrightarrow> preflightCode err \<noteq> [] \<or> isEnvironmentError err \<or> ctx_err env ctx s' \<noteq> None)"
proof -
  have codes: "preflightRepoMissing \<noteq> []" "preflightUntrustedRepo \<noteq> []" "preflightNoHead \<noteq> []"
    by (simp_all add: preflightRepoMissing_def preflightUntrustedRepo_def preflightNoHead_def)
  obtain i h e1 s1 where l: "run_state (locateRepo env ctx cfg) s = ((i, h, e1), s1)" by (metis surj_pair)
  obtain i2 e2 s2 where b: "run_state (readBranchInfo env ctx cfg i h) s1 = ((i2, e2), s2)" by (metis surj_pair)
  have "(err = None \<longrightarrow> hasUpstream info) \<and>
    (err \<noteq> None \<longrightarrow> preflightCode err \<noteq> [] \<or> isEnvironmentError err \<or> ctx_err env ctx s' \<noteq> None)"
    using assms codes unfolding preflight_def
    by (cases e1; cases e2)
      (auto simp: l b preflight_locate_error_def preflight_branch_error_def preflightCode_def split: if_splits)
  then show ?thesis using keepsD2 [OF keeps_preflight assms] by blast
qed

theorem preflight_outcome_witness:
  "\<exists>info s'. run_state (preflight (demo_env []) Live demo_cfg) demo_sys = ((info,
      Some (PreflightError ''missing_git'' ''not a git repository (no .git folder found)'')), s') \<and>
    observable s' = observable demo_sys"
proof -
  have r: "snd (fst (run_state (preflight (demo_env []) Live demo_cfg) demo_sys)) =
      Some (PreflightError ''missing_git'' ''not a git repository (no .git folder found)'')" by code_simp
  obtain info err s' where "run_state (preflight (demo_env []) Live demo_cfg) demo_sys = ((info, err), s')"
    by (metis surj_pair)
  then show ?thesis using r preflight_outcome [of "demo_env []" Live demo_cfg demo_sys info err s'] by simp
qed


text \<open>An environment in which a rebase stops on a conflict in one file.\<close>

definition conflict_env :: "unit env" where
  "conflict_env = (demo_env [])\<lparr>en_run := \<lambda>w inv.
     if gi_args inv = [''rebase'', ''u'']
     then (\<lparr>rr_out = [], rr_err = ''CONFLICT'', rr_fail = Some (ExitError 1 ''exit status 1''), rr_deadline = False\<rparr>, w)
     else (\<lparr>rr_out = (if gi_args inv = [''diff'', ''--name-only'', ''-z'', ''--diff-filter=U''] then ''f'' @ [CHR 0x00] else []),
            rr_err = [], rr_fail = None, rr_deadline = False\<rparr>, w)\<rparr>"

definition demo_info :: repo_info where
  "demo_info = no_info\<lparr>ri_GitDir := ''/r/.git'', ri_Branch := ''b'', ri_Remote := ''o'', ri_MergeRef := ''m'', ri_Upstream := ''u''\<rparr>"


end
