(* ===== verification/AutoSync.thy ===== *)
theory AutoSync
  imports Rebase
begin

text \<open>
  \<open>common/autosync.go\<close> and \<open>common/push.go\<close>: one synchronisation of one repository.

  The struct \<open>syncRun\<close> is the record \<open>sync_run\<close>, passed to its methods and returned by them;
  its constant fields \<open>ctx\<close>, \<open>cfg\<close> and \<open>prev\<close> are arguments. The state store is part of \<open>sys\<close>;
  \<open>with_store\<close> is the guard \<open>s.cfg.State != nil\<close>.
\<close>

section \<open>State\<close>

record sync_run =
  sr_info :: repo_info
  sr_committed :: bool
  sr_pulled :: go_int
  sr_pushed :: go_int
  sr_dropped :: go_int
  sr_ahead :: go_int
  sr_behind :: go_int
  sr_counted :: bool
  sr_guarded :: bool
  sr_forced :: bool

definition new_run :: sync_run where
  "new_run = \<lparr>sr_info = no_info, sr_committed = False, sr_pulled = 0, sr_pushed = 0, sr_dropped = 0,
     sr_ahead = 0, sr_behind = 0, sr_counted = False, sr_guarded = False, sr_forced = False\<rparr>"

definition with_store :: "repo_config \<Rightarrow> (repo_store \<Rightarrow> repo_store) \<Rightarrow> ('w sys, unit) state" where
  "with_store cfg f =
     (if cf_State cfg then upd (\<lambda>s. s\<lparr>sy_store := f (sy_store s)\<rparr>) else State_Monad.return ())"

definition emit_now :: "'w env \<Rightarrow> repo_config \<Rightarrow> (int \<Rightarrow> event) \<Rightarrow> ('w sys, unit) state" where
  "emit_now env cfg ev = do { now \<leftarrow> ask (now_unix env); emitEvent cfg (ev now) }"

section \<open>Steps\<close>

definition sync_commit ::
  "'w env \<Rightarrow> ctx \<Rightarrow> repo_config \<Rightarrow> sync_run \<Rightarrow> ('w sys, goerror option \<times> sync_run) state" where
  "sync_commit env ctx cfg r =
     do {
       (committed, err) \<leftarrow> commit env ctx cfg;
       State_Monad.return (err, if committed then r\<lparr>sr_committed := True\<rparr> else r)
     }"

definition sync_fetch ::
  "'w env \<Rightarrow> ctx \<Rightarrow> repo_config \<Rightarrow> sync_run \<Rightarrow> ('w sys, goerror option \<times> sync_run) state" where
  "sync_fetch env ctx cfg r =
     do {
       (forced, err) \<leftarrow> fetch env ctx cfg (sr_info r);
       State_Monad.return (err, r\<lparr>sr_forced := sr_forced r \<or> forced\<rparr>)
     }"

definition sync_count ::
  "'w env \<Rightarrow> ctx \<Rightarrow> repo_config \<Rightarrow> sync_run \<Rightarrow> ('w sys, goerror option \<times> sync_run) state" where
  "sync_count env ctx cfg r =
     do {
       (ahead, behind, err) \<leftarrow> aheadBehind env ctx cfg (sr_info r);
       State_Monad.return
         (if err \<noteq> None then (err, r\<lparr>sr_counted := False\<rparr>)
          else (None, r\<lparr>sr_ahead := ahead, sr_behind := behind, sr_counted := True\<rparr>))
     }"

text \<open>\<open>rebase\<close>, once more after a commit when the worktree changed meanwhile.\<close>

definition rebase_retry ::
  "'w env \<Rightarrow> ctx \<Rightarrow> repo_config \<Rightarrow> sync_run \<Rightarrow> bool \<Rightarrow> ('w sys, goerror option \<times> sync_run) state" where
  "rebase_retry env ctx cfg r forkPoint =
     do {
       err \<leftarrow> rebase env cfg (sr_info r) forkPoint;
       if (case err of None \<Rightarrow> False | Some e \<Rightarrow> is_error errDirtyWorktree e) then
         do {
           (cerr, r1) \<leftarrow> sync_commit env ctx cfg r;
           if cerr \<noteq> None then State_Monad.return (cerr, r1)
           else do {
             err2 \<leftarrow> rebase env cfg (sr_info r1) forkPoint;
             State_Monad.return (err2, r1)
           }
         }
       else State_Monad.return (err, r)
     }"

definition sync_rebase ::
  "'w env \<Rightarrow> ctx \<Rightarrow> repo_config \<Rightarrow> sync_run \<Rightarrow> ('w sys, goerror option \<times> sync_run) state" where
  "sync_rebase env ctx cfg r0 =
     do {
       (err, r) \<leftarrow> sync_count env ctx cfg r0;
       if err \<noteq> None then State_Monad.return (err, r)
       else if sr_behind r = 0 \<and> \<not> sr_forced r then State_Monad.return (None, r)
       else do {
         (err1, r1) \<leftarrow> rebase_retry env ctx cfg r (sr_forced r);
         if err1 \<noteq> None then State_Monad.return (err1, r1)
         else do {
           let r2 = r1\<lparr>sr_forced := False, sr_pulled := sr_pulled r1 + sr_behind r\<rparr>;
           (err3, r3) \<leftarrow> sync_count env ctx cfg r2;
           State_Monad.return
             (if err3 \<noteq> None then (err3, r3)
              else if sr_forced r \<and> sr_ahead r3 < sr_ahead r
              then (None, r3\<lparr>sr_dropped := sr_dropped r3 + (sr_ahead r - sr_ahead r3)\<rparr>)
              else (None, r3))
         }
       }
     }"

definition isRetryablePush :: "goerror \<Rightarrow> bool" where
  "isRetryablePush e =
     (case as_git e of
        None \<Rightarrow> False
      | Some g \<Rightarrow>
          \<not> ge_TimedOut g \<and>
          (ClassifyError (Some e) = CodePushRejected \<or> ClassifyError (Some e) = CodeLock) \<and>
          (contains (ge_Stderr g) ''[rejected]'' \<or> contains (ge_Stderr g) ''non-fast-forward'' \<or>
           contains (ge_Stderr g) ''fetch first'' \<or> contains (ge_Stderr g) ''cannot lock ref''))"

definition pushAttempts :: nat where "pushAttempts = 3"

definition push_once ::
  "'w env \<Rightarrow> ctx \<Rightarrow> repo_config \<Rightarrow> repo_info \<Rightarrow> ('w sys, goerror option) state" where
  "push_once env ctx cfg info =
     do {
       (_, err) \<leftarrow> GitCommandCtx env ctx cfg [''push'', ri_Remote info, ''HEAD:'' @ ri_MergeRef info];
       State_Monad.return err
     }"

text \<open>
  The loop of \<open>push\<close>. The first argument is \<open>pushAttempts - i\<close>: with 0 the attempt is the last one
  and its error is final.
\<close>

primrec push_loop ::
  "nat \<Rightarrow> 'w env \<Rightarrow> ctx \<Rightarrow> repo_config \<Rightarrow> sync_run \<Rightarrow> ('w sys, goerror option \<times> sync_run) state" where
  "push_loop 0 env ctx cfg r =
     do {
       err \<leftarrow> push_once env ctx cfg (sr_info r);
       State_Monad.return (map_option Traced err, r)
     }"
| "push_loop (Suc n) env ctx cfg r =
     do {
       err \<leftarrow> push_once env ctx cfg (sr_info r);
       case err of
         None \<Rightarrow> State_Monad.return (None, r)
       | Some e \<Rightarrow>
           if \<not> isRetryablePush e then State_Monad.return (Some (Traced e), r)
           else do {
             (ferr, r1) \<leftarrow> sync_fetch env ctx cfg r;
             if ferr \<noteq> None then State_Monad.return (map_option Traced ferr, r1)
             else do {
               (rerr, r2) \<leftarrow> sync_rebase env ctx cfg r1;
               if rerr \<noteq> None then State_Monad.return (rerr, r2)
               else if sr_ahead r2 = 0 then State_Monad.return (None, r2)
               else do {
                 slept \<leftarrow> sleepCtx env ctx (int (pushAttempts - Suc n) * 300000000);
                 if slept then push_loop n env ctx cfg r2
                 else do {
                   cerr \<leftarrow> ask (ctx_err env ctx);
                   State_Monad.return (map_option (\<lambda>c. Traced (Sentinel c)) cerr, r2)
                 }
               }
             }
           }
     }"

definition sync_push ::
  "'w env \<Rightarrow> ctx \<Rightarrow> repo_config \<Rightarrow> sync_run \<Rightarrow> ('w sys, goerror option \<times> sync_run) state" where
  "sync_push env ctx cfg r =
     (if \<not> hasUpstream (sr_info r) then State_Monad.return (None, r)
      else push_loop (pushAttempts - 1) env ctx cfg r)"

definition conflictUnchanged ::
  "'w env \<Rightarrow> ctx \<Rightarrow> repo_config \<Rightarrow> repo_state \<Rightarrow> sync_run \<Rightarrow> ('w sys, bool) state" where
  "conflictUnchanged env ctx cfg prev r =
     (if cf_Force cfg \<or> \<not> st_Conflict prev \<or> st_ConflictHead prev = [] \<or> st_ConflictUp prev = []
      then State_Monad.return False
      else do {
        (up, err) \<leftarrow> revParse env ctx cfg (ri_Upstream (sr_info r));
        if err \<noteq> None \<or> up \<noteq> st_ConflictUp prev then State_Monad.return False
        else do {
          headKept \<leftarrow> isAncestor env ctx cfg (st_ConflictHead prev) ''HEAD'';
          if \<not> headKept then State_Monad.return False
          else do {
            merged \<leftarrow> isAncestor env ctx cfg up ''HEAD'';
            State_Monad.return (\<not> merged)
          }
        }
      })"

text \<open>The steps of a sync, with the name of the stage that failed.\<close>

definition sync_steps ::
  "'w env \<Rightarrow> ctx \<Rightarrow> repo_config \<Rightarrow> repo_state \<Rightarrow> sync_run \<Rightarrow>
   ('w sys, string \<times> goerror option \<times> sync_run) state" where
  "sync_steps env ctx cfg prev r0 =
     do {
       (err1, r1) \<leftarrow> sync_commit env ctx cfg r0;
       if err1 \<noteq> None then State_Monad.return (''commit'', err1, r1)
       else do {
         (err2, r2) \<leftarrow> sync_fetch env ctx cfg r1;
         if err2 \<noteq> None then State_Monad.return (''fetch'', err2, r2)
         else do {
           unchanged \<leftarrow> conflictUnchanged env ctx cfg prev r2;
           if unchanged then State_Monad.return ([], None, r2\<lparr>sr_guarded := True\<rparr>)
           else do {
             (err3, r3) \<leftarrow> sync_rebase env ctx cfg r2;
             if err3 \<noteq> None then State_Monad.return (''rebase'', err3, r3)
             else if 0 < sr_ahead r3 then
               do {
                 (err4, r4) \<leftarrow> sync_push env ctx cfg r3;
                 State_Monad.return
                   (if err4 \<noteq> None then (''push'', err4, r4)
                    else ([], None, r4\<lparr>sr_pushed := sr_ahead r4, sr_ahead := 0\<rparr>))
               }
             else State_Monad.return ([], None, r3)
           }
         }
       }
     }"

definition prepare ::
  "'w env \<Rightarrow> ctx \<Rightarrow> repo_config \<Rightarrow> sync_run \<Rightarrow> ('w sys, string \<times> goerror option \<times> sync_run) state" where
  "prepare env ctx cfg r0 =
     do {
       (info, err) \<leftarrow> preflight env ctx cfg;
       let r = r0\<lparr>sr_info := info\<rparr>;
       retry \<leftarrow> (if preflightCode err \<noteq> preflightNoHead then State_Monad.return False
                 else upstreamConfigured env ctx cfg (ri_Branch info));
       if \<not> retry then State_Monad.return (''preflight'', err, r)
       else do {
         (cerr, r1) \<leftarrow> sync_commit env ctx cfg r;
         if cerr \<noteq> None then State_Monad.return (''commit'', cerr, r1)
         else if \<not> sr_committed r1 then State_Monad.return (''preflight'', err, r1)
         else do {
           (info2, err2) \<leftarrow> preflight env ctx cfg;
           State_Monad.return (''preflight'', err2, r1\<lparr>sr_info := info2\<rparr>)
         }
       }
     }"

section \<open>Outcomes\<close>

definition changed :: "sync_run \<Rightarrow> bool" where
  "changed r \<longleftrightarrow> sr_committed r \<or> 0 < sr_pulled r \<or> 0 < sr_pushed r \<or> 0 < sr_dropped r"

definition activity :: "sync_run \<Rightarrow> string" where
  "activity r =
     (let parts = (if sr_committed r then [''committed''] else []) @
            (if 0 < sr_pulled r then [''pulled '' @ itoa (sr_pulled r)] else []) @
            (if 0 < sr_dropped r then [''dropped '' @ itoa (sr_dropped r) @ '' rewritten upstream''] else []) @
            (if 0 < sr_pushed r then [''pushed '' @ itoa (sr_pushed r)] else [])
      in if parts = [] then ''up to date'' else join '', '' parts)"

definition isUnhealthy :: "string \<Rightarrow> bool" where
  "isUnhealthy status \<longleftrightarrow> status \<in> set [StatusError, StatusOffline, StatusConflict, StatusPreflight]"

definition finish ::
  "'w env \<Rightarrow> ctx \<Rightarrow> repo_config \<Rightarrow> sync_run \<Rightarrow> ('w sys, unit) state" where
  "finish env ctx cfg r =
     (if \<not> cf_State cfg then State_Monad.return ()
      else do {
        now \<leftarrow> ask (now_unix env);
        with_store cfg (\<lambda>st. MarkChecked now st (cf_RepoPath cfg) (changed r));
        if ri_Branch (sr_info r) = [] then State_Monad.return ()
        else do {
          (ahead, behind) \<leftarrow>
            (if \<not> sr_counted r \<or> sr_guarded r
             then do {
               (err, r1) \<leftarrow> sync_count env ctx cfg r;
               State_Monad.return (if err \<noteq> None then (0, 0) else (sr_ahead r1, sr_behind r1))
             }
             else State_Monad.return (sr_ahead r, sr_behind r));
          with_store cfg (\<lambda>st. SetBranchInfo st (cf_RepoPath cfg) (ri_Branch (sr_info r))
            (ri_UpstreamShort (sr_info r)) ahead behind)
        }
      })"

definition succeed ::
  "'w env \<Rightarrow> ctx \<Rightarrow> repo_config \<Rightarrow> repo_state \<Rightarrow> sync_run \<Rightarrow> ('w sys, goerror option) state" where
  "succeed env ctx cfg prev r =
     (let path = cf_RepoPath cfg; upstream = ri_UpstreamShort (sr_info r) in
      do {
        t \<leftarrow> ask (now_unix env);
        with_store cfg (\<lambda>st. MarkSuccess t st path (activity r));
        (if 0 < sr_pulled r
         then emit_now env cfg (\<lambda>now. NewEvent now EventPull path
           (''pulled '' @ itoa (sr_pulled r) @ '' commit(s) from '' @ upstream) [])
         else State_Monad.return ());
        (if 0 < sr_dropped r
         then emit_now env cfg (\<lambda>now. NewEvent now EventPull path
           (upstream @ '' was force-pushed; dropped '' @ itoa (sr_dropped r) @
            '' local commit(s) that were removed upstream'') [])
         else State_Monad.return ());
        (if 0 < sr_pushed r
         then emit_now env cfg (\<lambda>now. NewEvent now EventPush path
           (''pushed '' @ itoa (sr_pushed r) @ '' commit(s) to '' @ upstream) [])
         else State_Monad.return ());
        (if isUnhealthy (st_Status prev)
         then emit_now env cfg (\<lambda>now. NewEvent now EventRecovered path
           (''recovered from '' @ st_Status prev) StatusOK)
         else State_Monad.return ());
        (if changed r
         then emit_now env cfg (\<lambda>now. NewEvent now EventSynced path (activity r) StatusOK)
         else State_Monad.return ());
        finish env ctx cfg r;
        State_Monad.return None
      })"

definition stayInConflict ::
  "'w env \<Rightarrow> ctx \<Rightarrow> repo_config \<Rightarrow> repo_state \<Rightarrow> sync_run \<Rightarrow> ('w sys, goerror option) state" where
  "stayInConflict env ctx cfg prev r =
     do {
       with_store cfg (\<lambda>st. MarkConflict st (cf_RepoPath cfg) (st_ConflictFiles prev)
         (if st_LastError prev = [] then ''rebase conflict'' else st_LastError prev));
       finish env ctx cfg r;
       State_Monad.return None
     }"

definition markPreflight ::
  "'w env \<Rightarrow> repo_config \<Rightarrow> repo_state \<Rightarrow> string \<Rightarrow> string \<Rightarrow> ('w sys, unit) state" where
  "markPreflight env cfg prev msg code =
     do {
       (if st_Status prev \<noteq> StatusPreflight \<or> st_Preflight prev \<noteq> msg
        then emit_now env cfg (\<lambda>now. NewCodedEvent now EventPreflight (cf_RepoPath cfg) msg code)
        else State_Monad.return ());
       with_store cfg (\<lambda>st. MarkPreflight st (cf_RepoPath cfg) msg);
       with_store cfg (\<lambda>st. Update st (cf_RepoPath cfg) (\<lambda>x. x\<lparr>st_ErrorCode := code\<rparr>))
     }"

definition emitConflict :: "'w env \<Rightarrow> repo_config \<Rightarrow> string list \<Rightarrow> ('w sys, unit) state" where
  "emitConflict env cfg conflicts =
     emit_now env cfg (\<lambda>now. NewCodedEvent now EventConflict (cf_RepoPath cfg)
       (if conflicts \<noteq> [] then ''rebase conflict: '' @ join '', '' conflicts else ''rebase conflict'') CodeConflict)"

definition notifyIfNoClients :: "'w env \<Rightarrow> string \<Rightarrow> string \<Rightarrow> ('w sys, unit) state" where
  "notifyIfNoClients env title message =
     upd (\<lambda>s. if en_clients env (sy_world s) then s else s\<lparr>sy_alerts := sy_alerts s @ [(title, message)]\<rparr>)"

definition logConflict :: "'w env \<Rightarrow> string \<Rightarrow> string list \<Rightarrow> ('w sys, unit) state" where
  "logConflict env gitDir conflicts =
     (if gitDir = [] then State_Monad.return ()
      else upd (\<lambda>s. s\<lparr>sy_world := en_append env (sy_world s) gitDir conflicts\<rparr>))"

definition handleConflict ::
  "'w env \<Rightarrow> repo_config \<Rightarrow> repo_state \<Rightarrow> sync_run \<Rightarrow> string list \<Rightarrow> string \<Rightarrow> string \<Rightarrow> ('w sys, unit) state" where
  "handleConflict env cfg prev r conflicts head up =
     do {
       with_store cfg (\<lambda>st. SetConflictRefs st (cf_RepoPath cfg) head up);
       with_store cfg (\<lambda>st. MarkConflict st (cf_RepoPath cfg) conflicts ''rebase conflict'');
       (if \<not> st_Conflict prev \<or> st_ConflictFiles prev \<noteq> conflicts \<or> cf_Force cfg
        then do { logConflict env (ri_GitDir (sr_info r)) conflicts; emitConflict env cfg conflicts }
        else State_Monad.return ());
       (if \<not> st_Conflict prev
        then notifyIfNoClients env ''Git Auto Sync - Conflict'' (''Could not rebase for - '' @ cf_RepoPath cfg)
        else State_Monad.return ())
     }"

text \<open>The two ways a failure that is neither a conflict nor a preflight error is recorded.\<close>

definition mark_failure ::
  "'w env \<Rightarrow> repo_config \<Rightarrow> repo_state \<Rightarrow> string \<Rightarrow> goerror \<Rightarrow> ('w sys, unit) state" where
  "mark_failure env cfg prev stage e =
     (let path = cf_RepoPath cfg; code = ClassifyError (Some e); msg = errorMessage stage (Some e) in
      if code = CodeNetwork \<or> (code = CodeTimeout \<and> isNetworkTimeout e) then
        do {
          with_store cfg (\<lambda>st. MarkOffline st path msg 0);
          (if code \<noteq> CodeNetwork
           then with_store cfg (\<lambda>st. Update st path (\<lambda>x. x\<lparr>st_ErrorCode := code\<rparr>))
           else State_Monad.return ());
          (if st_Status prev \<noteq> StatusOffline
           then emit_now env cfg (\<lambda>now. NewCodedEvent now EventOffline path msg code)
           else State_Monad.return ())
        }
      else
        do {
          with_store cfg (\<lambda>st. MarkErrorCode st path code msg);
          (if st_Status prev \<noteq> StatusError \<or> st_ErrorCode prev \<noteq> code \<or> st_LastError prev \<noteq> msg
           then emit_now env cfg (\<lambda>now. NewCodedEvent now EventError path msg code)
           else State_Monad.return ())
        })"

definition fail ::
  "'w env \<Rightarrow> ctx \<Rightarrow> repo_config \<Rightarrow> repo_state \<Rightarrow> sync_run \<Rightarrow> string \<Rightarrow> goerror \<Rightarrow> ('w sys, goerror option) state" where
  "fail env ctx cfg prev r stage e =
     do {
       (case as_conflict e of
          Some c \<Rightarrow> handleConflict env cfg prev r (rc_Files c) (rc_Head c) (rc_Upstream c)
        | None \<Rightarrow>
            if preflightCode (Some e) \<noteq> [] then markPreflight env cfg prev (error_text e) (preflightCode (Some e))
            else mark_failure env cfg prev stage e);
       finish env ctx cfg r;
       State_Monad.return (Some (Traced e))
     }"

definition restoreStatus :: "repo_config \<Rightarrow> repo_state \<Rightarrow> ('w sys, unit) state" where
  "restoreStatus cfg prev =
     with_store cfg (\<lambda>st. Update st (cf_RepoPath cfg)
       (\<lambda>x. if st_Status x = StatusSyncing then x\<lparr>st_Status := st_Status prev\<rparr> else x))"

definition runLocal ::
  "'w env \<Rightarrow> ctx \<Rightarrow> repo_config \<Rightarrow> sync_run \<Rightarrow> goerror option \<Rightarrow> ('w sys, goerror option) state" where
  "runLocal env ctx cfg r err0 =
     do {
       (err, r1) \<leftarrow> (if err0 = None then sync_commit env ctx cfg r else State_Monad.return (err0, r));
       cerr \<leftarrow> ask (ctx_err env ctx);
       (if cerr = None then finish env ctx cfg r1 else State_Monad.return ());
       State_Monad.return (map_option Traced err)
     }"

section \<open>A sync\<close>

definition sync_network ::
  "'w env \<Rightarrow> ctx \<Rightarrow> repo_config \<Rightarrow> repo_state \<Rightarrow> sync_run \<Rightarrow> ('w sys, goerror option) state" where
  "sync_network env ctx cfg prev r =
     do {
       ensureRemoteFacts env ctx cfg (ri_CommonDir (sr_info r));
       with_store cfg (\<lambda>st. MarkSyncing st (cf_RepoPath cfg));
       (stage, err, r1) \<leftarrow> sync_steps env ctx cfg prev r;
       cerr \<leftarrow> ask (ctx_err env ctx);
       case err of
         Some e \<Rightarrow>
           if cerr \<noteq> None then do { restoreStatus cfg prev; State_Monad.return (Some (Traced e)) }
           else fail env ctx cfg prev r1 stage e
       | None \<Rightarrow>
           if sr_guarded r1 then stayInConflict env ctx cfg prev r1 else succeed env ctx cfg prev r1
     }"

definition previous_state :: "repo_config \<Rightarrow> 'w sys \<Rightarrow> repo_state" where
  "previous_state cfg s =
     (if cf_State cfg
      then (case Get (sy_store s) (cf_RepoPath cfg) of None \<Rightarrow> zero_state | Some st \<Rightarrow> st)
      else zero_state)"

definition AutoSyncCtx :: "'w env \<Rightarrow> ctx \<Rightarrow> repo_config \<Rightarrow> ('w sys, goerror option) state" where
  "AutoSyncCtx env ctx cfg =
     do {
       with_store cfg (\<lambda>st. Ensure st (cf_RepoPath cfg));
       prev \<leftarrow> ask (previous_state cfg);
       (stage, err, r) \<leftarrow> prepare env ctx cfg new_run;
       if cf_LocalOnly cfg then runLocal env ctx cfg r err
       else do {
         cerr \<leftarrow> ask (ctx_err env ctx);
         case err of
           None \<Rightarrow> sync_network env ctx cfg prev r
         | Some e \<Rightarrow>
             if cerr \<noteq> None then State_Monad.return (Some (Traced e))
             else if preflightCode err \<noteq> [] then
               do {
                 markPreflight env cfg prev (error_text e) (preflightCode err);
                 State_Monad.return (Some (Traced e))
               }
             else fail env ctx cfg prev r stage e
       }
     }"

definition AutoSync :: "'w env \<Rightarrow> repo_config \<Rightarrow> ('w sys, goerror option) state" where
  "AutoSync env cfg = AutoSyncCtx env WithoutCancel cfg"

section \<open>Which commands a sync runs\<close>

definition spares_fetch :: "(string list \<Rightarrow> bool) \<Rightarrow> bool" where
  "spares_fetch C \<longleftrightarrow> (\<forall>args. gitSubcommand args = ''fetch'' \<longrightarrow> \<not> C args)"

lemma spares_fetchD: "spares_fetch C \<Longrightarrow> \<not> C (fetch_args info)"
  by (simp add: spares_fetch_def fetch_args_def)

lemma runs_with_store [runs_rules]: "runs C 0 (with_store cfg f)"
  unfolding with_store_def by (intro runs_rules) simp

lemma runs_emit_now [runs_rules]: "runs C 0 (emit_now env cfg ev)"
  unfolding emit_now_def by (intro runs_rules)

lemma runs_notifyIfNoClients [runs_rules]: "runs C 0 (notifyIfNoClients env t m)"
  unfolding notifyIfNoClients_def by (intro runs_rules) simp

lemma runs_logConflict [runs_rules]: "runs C 0 (logConflict env d fs)"
  unfolding logConflict_def by (intro runs_rules) simp

lemma runs_emitConflict [runs_rules]: "runs C 0 (emitConflict env cfg fs)"
  unfolding emitConflict_def by (intro runs_rules)

lemma runs_markPreflight [runs_rules]: "runs C 0 (markPreflight env cfg prev m c)"
  unfolding markPreflight_def by (intro runs_rules)

lemma runs_handleConflict [runs_rules]: "runs C 0 (handleConflict env cfg prev r fs h u)"
  unfolding handleConflict_def by (intro runs_rules)

lemma runs_mark_failure [runs_rules]: "runs C 0 (mark_failure env cfg prev st e)"
  unfolding mark_failure_def by (intro runs_rules)

lemma runs_restoreStatus [runs_rules]: "runs C 0 (restoreStatus cfg prev)"
  unfolding restoreStatus_def by (intro runs_rules)

lemma runs_sync_commit: "spares_local C \<Longrightarrow> runs C 0 (sync_commit env ctx cfg r)"
  unfolding sync_commit_def by (intro runs_rules runs_commit)

lemma runs_sync_fetch:
  "spares_local C \<Longrightarrow> \<not> C (fetch_args (sr_info r)) \<Longrightarrow> runs C 0 (sync_fetch env ctx cfg r)"
  unfolding sync_fetch_def by (intro runs_rules runs_fetch) simp_all

lemma runs_sync_count: "spares_local C \<Longrightarrow> runs C 0 (sync_count env ctx cfg r)"
  unfolding sync_count_def by (intro runs_rules runs_aheadBehind)

lemma runs_rebase_retry:
  "spares_local C \<Longrightarrow> spares_rebase C \<Longrightarrow> runs C 0 (rebase_retry env ctx cfg r fp)"
  unfolding rebase_retry_def by (intro runs_rules runs_rebase runs_sync_commit)

lemma runs_sync_rebase: "spares_local C \<Longrightarrow> spares_rebase C \<Longrightarrow> runs C 0 (sync_rebase env ctx cfg r)"
  unfolding sync_rebase_def by (intro runs_rules runs_sync_count runs_rebase_retry)

lemma runs_conflictUnchanged: "spares_local C \<Longrightarrow> runs C 0 (conflictUnchanged env ctx cfg prev r)"
  unfolding conflictUnchanged_def by (intro runs_rules runs_revParse_local runs_isAncestor_local)

lemma runs_finish: "spares_local C \<Longrightarrow> runs C 0 (finish env ctx cfg r)"
  unfolding finish_def by (intro runs_rules runs_sync_count)

lemma runs_succeed: "spares_local C \<Longrightarrow> runs C 0 (succeed env ctx cfg prev r)"
  unfolding succeed_def by (intro runs_rules runs_finish)

lemma runs_stayInConflict: "spares_local C \<Longrightarrow> runs C 0 (stayInConflict env ctx cfg prev r)"
  unfolding stayInConflict_def by (intro runs_rules runs_finish)

lemma runs_fail: "spares_local C \<Longrightarrow> runs C 0 (fail env ctx cfg prev r st e)"
  unfolding fail_def by (intro runs_rules runs_finish)

lemma runs_runLocal: "spares_local C \<Longrightarrow> runs C 0 (runLocal env ctx cfg r err)"
  unfolding runLocal_def by (intro runs_rules runs_finish runs_sync_commit)

lemma runs_prepare: "spares_local C \<Longrightarrow> runs C 0 (prepare env ctx cfg r)"
  unfolding prepare_def by (intro runs_rules runs_preflight runs_upstreamConfigured runs_sync_commit)

lemma runs_push_once: "spares_local C \<Longrightarrow> runs C 1 (push_once env ctx cfg info)"
  unfolding push_once_def
  by (rule runs_bind_right [OF runs_GitCommandCtx [OF _ spares_remote_url]]) (auto intro!: runs_rules)

text \<open>One push for the last attempt, and one more for each attempt before it.\<close>

lemma runs_push_loop:
  assumes "spares_local C" and "spares_rebase C" and "spares_fetch C"
  shows "runs C (Suc n) (push_loop n env ctx cfg r)"
proof (induction n arbitrary: r)
  case 0
  then show ?case using runs_push_once [OF assms(1)]
    by (simp only: push_loop.simps One_nat_def) (intro runs_bind_right runs_rules)
next
  case (Suc n)
  have "runs C (1 + Suc n) (push_loop (Suc n) env ctx cfg r)"
    unfolding push_loop.simps
    by (intro runs_bind [OF runs_push_once] runs_option runs_if runs_bind_left runs_prod
        runs_sync_fetch runs_sync_rebase runs_sleepCtx runs_ask Suc runs_weaken [OF runs_return]
        spares_fetchD assms) simp_all
  then show ?case by simp
qed

lemma runs_sync_push:
  "spares_local C \<Longrightarrow> spares_rebase C \<Longrightarrow> spares_fetch C \<Longrightarrow> runs C 3 (sync_push env ctx cfg r)"
  unfolding sync_push_def using runs_push_loop [of C 2]
  by (auto simp: pushAttempts_def intro: runs_weaken [OF runs_return])

lemma runs_sync_steps:
  "spares_local C \<Longrightarrow> spares_rebase C \<Longrightarrow> spares_fetch C \<Longrightarrow> runs C 3 (sync_steps env ctx cfg prev r)"
  unfolding sync_steps_def
  by (intro runs_bind_left [OF runs_sync_commit] runs_bind_left [OF runs_sync_fetch]
      runs_bind_left [OF runs_conflictUnchanged] runs_bind_left [OF runs_sync_rebase]
      runs_bind_right [OF runs_sync_push] runs_prod runs_if runs_return runs_weaken [OF runs_return]
      spares_fetchD) simp_all

lemma runs_sync_network:
  "spares_local C \<Longrightarrow> spares_rebase C \<Longrightarrow> spares_fetch C \<Longrightarrow> runs C 3 (sync_network env ctx cfg prev r)"
  unfolding sync_network_def
  by (intro runs_bind_left [OF runs_ensureRemoteFacts] runs_bind_left [OF runs_with_store]
      runs_bind_right [OF runs_sync_steps] spares_remote_url runs_prod runs_bind0 runs_ask runs_option
      runs_if runs_restoreStatus runs_return runs_fail runs_stayInConflict runs_succeed)

lemma runs_AutoSyncCtx:
  "spares_local C \<Longrightarrow> spares_rebase C \<Longrightarrow> spares_fetch C \<Longrightarrow> runs C 3 (AutoSyncCtx env ctx cfg)"
  unfolding AutoSyncCtx_def
  by (intro runs_bind_left [OF runs_with_store] runs_bind_left [OF runs_ask] runs_bind_left [OF runs_prepare]
      runs_prod runs_if runs_option runs_sync_network runs_weaken [OF runs_runLocal]
      runs_weaken [OF runs_return] runs_weaken [OF runs_fail]
      runs_weaken [OF runs_bind0 [OF runs_markPreflight runs_return]]) simp_all

lemma runs_AutoSyncCtx_local:
  "spares_local C \<Longrightarrow> cf_LocalOnly cfg \<Longrightarrow> runs C 0 (AutoSyncCtx env ctx cfg)"
  unfolding AutoSyncCtx_def by (simp only: if_True) (intro runs_rules runs_prepare runs_runLocal)

section \<open>What a sync does to the repository state\<close>

text \<open>Everything but the outcomes leaves the store alone.\<close>

lemma keeps_observable_store: "keeps observable m \<Longrightarrow> keeps sy_store m"
  by (simp add: keeps_def observable_def)

lemmas store_kept [keeps_rules] =
  keeps_observable_store [OF keeps_sleepCtx] keeps_observable_store [OF keeps_ensureRemoteFacts]
  keeps_observable_store [OF keeps_GitCommandCtx] keeps_observable_store [OF keeps_revParse]
  keeps_observable_store [OF keeps_isAncestor] keeps_observable_store [OF keeps_upstreamConfigured]
  keeps_observable_store [OF keeps_aheadBehind] keeps_observable_store [OF keeps_preflight]
  keeps_observable_store [OF keeps_fetch] keeps_observable_store [OF keeps_rebase]

lemma store_commit [keeps_rules]: "keeps sy_store (commit env ctx cfg)"
  unfolding keeps_def
proof
  fix s
  obtain c err s' where r: "run_state (commit env ctx cfg) s = ((c, err), s')" by (metis surj_pair)
  show "sy_store (snd (run_state (commit env ctx cfg) s)) = sy_store s"
    using tripleD2 [OF commit_spec refl r] r by (auto simp: commit_promise_def observable_def split: if_splits)
qed

lemma store_emit_now [keeps_rules]: "keeps sy_store (emit_now env cfg ev)"
  unfolding emit_now_def emitEvent_def by (intro keeps_rules) simp

lemma store_sync_commit [keeps_rules]: "keeps sy_store (sync_commit env ctx cfg r)"
  unfolding sync_commit_def by (intro keeps_rules)

lemma store_sync_fetch [keeps_rules]: "keeps sy_store (sync_fetch env ctx cfg r)"
  unfolding sync_fetch_def by (intro keeps_rules)

lemma store_sync_count [keeps_rules]: "keeps sy_store (sync_count env ctx cfg r)"
  unfolding sync_count_def by (intro keeps_rules)

lemma store_rebase_retry [keeps_rules]: "keeps sy_store (rebase_retry env ctx cfg r fp)"
  unfolding rebase_retry_def by (intro keeps_rules)

lemma store_sync_rebase [keeps_rules]: "keeps sy_store (sync_rebase env ctx cfg r)"
  unfolding sync_rebase_def by (intro keeps_rules)

lemma store_push_once [keeps_rules]: "keeps sy_store (push_once env ctx cfg info)"
  unfolding push_once_def by (intro keeps_rules)

lemma store_push_loop [keeps_rules]: "keeps sy_store (push_loop n env ctx cfg r)"
  by (induction n arbitrary: r) (simp_all only: push_loop.simps, (intro keeps_rules; assumption?)+)

lemma store_sync_push [keeps_rules]: "keeps sy_store (sync_push env ctx cfg r)"
  unfolding sync_push_def by (intro keeps_rules)

lemma store_conflictUnchanged [keeps_rules]: "keeps sy_store (conflictUnchanged env ctx cfg prev r)"
  unfolding conflictUnchanged_def by (intro keeps_rules)

lemma store_sync_steps [keeps_rules]: "keeps sy_store (sync_steps env ctx cfg prev r)"
  unfolding sync_steps_def by (intro keeps_rules)

lemma store_prepare [keeps_rules]: "keeps sy_store (prepare env ctx cfg r)"
  unfolding prepare_def by (intro keeps_rules)

lemma store_emitConflict [keeps_rules]: "keeps sy_store (emitConflict env cfg fs)"
  unfolding emitConflict_def by (intro keeps_rules)

lemma store_logConflict [keeps_rules]: "keeps sy_store (logConflict env d fs)"
  unfolding logConflict_def by (intro keeps_rules) simp

lemma store_notify [keeps_rules]: "keeps sy_store (notifyIfNoClients env t m)"
  unfolding notifyIfNoClients_def by (intro keeps_rules) simp

text \<open>
  The outcomes write the store with a few operations. \<open>store_triple P m Q\<close> is a triple about the
  store alone.
\<close>

definition store_triple ::
  "(repo_store \<Rightarrow> bool) \<Rightarrow> ('w sys, 'a) state \<Rightarrow> ('a \<Rightarrow> repo_store \<Rightarrow> bool) \<Rightarrow> bool" where
  "store_triple P m Q \<longleftrightarrow> triple (\<lambda>s. P (sy_store s)) m (\<lambda>x s. Q x (sy_store s))"

named_theorems store_rules "triples about the store"

lemma store_tripleD2:
  "store_triple P m Q \<Longrightarrow> P (sy_store s) \<Longrightarrow> run_state m s = (x, s') \<Longrightarrow> Q x (sy_store s')"
  unfolding store_triple_def by (rule tripleD2)

lemma store_triple_keeps: "keeps sy_store m \<Longrightarrow> store_triple P m (\<lambda>_. P)"
  unfolding store_triple_def by (rule triple_keeps)

lemma store_triple_bind:
  "store_triple P m R \<Longrightarrow> (\<And>x. store_triple (R x) (k x) Q) \<Longrightarrow> store_triple P (State_Monad.bind m k) Q"
  unfolding store_triple_def by (rule triple_bind)

lemma store_triple_return: "(\<And>st. P st \<Longrightarrow> Q x st) \<Longrightarrow> store_triple P (State_Monad.return x) Q"
  unfolding store_triple_def by (rule triple_return)

lemma store_triple_frame:
  "keeps sy_store m \<Longrightarrow> (\<And>x. store_triple P (k x) Q) \<Longrightarrow> store_triple P (State_Monad.bind m k) Q"
  by (rule store_triple_bind [OF store_triple_keeps])

lemma store_triple_if:
  "(b \<Longrightarrow> store_triple P m Q) \<Longrightarrow> (\<not> b \<Longrightarrow> store_triple P n Q) \<Longrightarrow> store_triple P (if b then m else n) Q"
  by simp

lemma store_triple_option:
  "(\<And>y. x = Some y \<Longrightarrow> store_triple P (f y) Q) \<Longrightarrow> (x = None \<Longrightarrow> store_triple P n Q) \<Longrightarrow>
    store_triple P (case x of None \<Rightarrow> n | Some y \<Rightarrow> f y) Q"
  by (cases x) auto

lemma store_triple_prod:
  "(\<And>a b. p = (a, b) \<Longrightarrow> store_triple P (f a b) Q) \<Longrightarrow> store_triple P (case p of (a, b) \<Rightarrow> f a b) Q"
  by (cases p) auto

lemma store_triple_weaken:
  "store_triple P m Q \<Longrightarrow> (\<And>st. P' st \<Longrightarrow> P st) \<Longrightarrow> (\<And>x st. Q x st \<Longrightarrow> Q' x st) \<Longrightarrow> store_triple P' m Q'"
  by (simp add: store_triple_def triple_def)

lemma store_triple_with_store:
  "(\<And>st. P st \<Longrightarrow> cf_State cfg \<Longrightarrow> Q () (f st)) \<Longrightarrow> (\<And>st. P st \<Longrightarrow> \<not> cf_State cfg \<Longrightarrow> Q () st) \<Longrightarrow>
    store_triple P (with_store cfg f) Q"
  by (simp add: store_triple_def triple_def with_store_def)

lemma store_triple_pure: "(b \<Longrightarrow> store_triple P m Q) \<Longrightarrow> store_triple (\<lambda>st. P st \<and> b) m Q"
  by (cases b) (simp_all add: store_triple_def triple_def)

lemma store_triple_then_keeps:
  "store_triple P m (\<lambda>_. Q) \<Longrightarrow> (\<And>x. keeps sy_store (k x)) \<Longrightarrow> store_triple P (State_Monad.bind m k) (\<lambda>_. Q)"
  by (rule store_triple_bind) (auto intro: store_triple_keeps)

text \<open>The fields of a state that say how the last sync went; \<open>finish\<close> does not touch them.\<close>

definition verdict ::
  "repo_state \<Rightarrow> (string \<times> string \<times> string \<times> string) \<times> bool \<times> (bool \<times> string list \<times> string \<times> string) \<times> go_int" where
  "verdict x = ((st_Status x, st_ErrorCode x, st_LastError x, st_Preflight x), st_Paused x,
     (st_Conflict x, st_ConflictFiles x, st_ConflictHead x, st_ConflictUp x), st_Failures x)"

abbreviation verdict_of :: "repo_config \<Rightarrow> repo_store \<Rightarrow> _" where
  "verdict_of cfg st \<equiv> verdict (current st (cf_RepoPath cfg))"

lemma verdict_seq [simp]: "verdict (x\<lparr>st_Seq := n\<rparr>) = verdict x"
  by (simp add: verdict_def)

lemma verdict_MarkChecked: "verdict_of cfg (MarkChecked now st (cf_RepoPath cfg) b) = verdict_of cfg st"
  by (simp add: MarkChecked_def current_Update Let_def verdict_def)

lemma verdict_SetBranchInfo: "verdict_of cfg (SetBranchInfo st (cf_RepoPath cfg) b u a h) = verdict_of cfg st"
  by (simp add: SetBranchInfo_def current_Update verdict_def)

lemma finish_verdict:
  "store_triple (\<lambda>st. V (verdict_of cfg st)) (finish env ctx cfg r) (\<lambda>_ st. V (verdict_of cfg st))"
  unfolding finish_def
  by (intro store_triple_if store_triple_return store_triple_frame store_triple_prod
      store_triple_bind [OF store_triple_with_store] store_triple_with_store keeps_rules)
    (auto simp: verdict_MarkChecked verdict_SetBranchInfo)

lemma finish_then:
  "store_triple (\<lambda>st. V (verdict_of cfg st)) (do { finish env ctx cfg r; State_Monad.return x })
     (\<lambda>res st. res = x \<and> V (verdict_of cfg st))"
  by (rule store_triple_bind [OF finish_verdict]) (auto intro: store_triple_return)

lemma store_triple_frame_last:
  "store_triple P m (\<lambda>_. Q) \<Longrightarrow> (\<And>x. store_triple Q (k x) R) \<Longrightarrow> store_triple P (State_Monad.bind m k) R"
  by (rule store_triple_bind)

lemma succeed_verdict:
  assumes "cf_State cfg"
  shows "store_triple (\<lambda>_. True) (succeed env ctx cfg prev r)
    (\<lambda>res st. res = None \<and> (\<exists>p. verdict_of cfg st = ((StatusOK, [], [], []), p, (False, [], [], []), 0)))"
proof -
  let ?V = "\<lambda>v. \<exists>p. v = ((StatusOK, [], [], []), p, (False, [], [], []), 0)"
  have ok: "?V (verdict_of cfg (MarkSuccess t st (cf_RepoPath cfg) a))" for t st a
    by (simp add: MarkSuccess_def current_Update verdict_def)
  have "store_triple (\<lambda>_. True) (with_store cfg (\<lambda>st. MarkSuccess t st (cf_RepoPath cfg) a))
      (\<lambda>_ st. ?V (verdict_of cfg st))" for t a
    using assms ok by (intro store_triple_with_store) auto
  then show ?thesis
    unfolding succeed_def Let_def
    by (intro store_triple_frame [OF keeps_ask] store_triple_frame_last [where Q = "\<lambda>st. ?V (verdict_of cfg st)"]
        store_triple_keeps keeps_rules finish_then [where V = ?V])
qed

lemma stayInConflict_verdict:
  assumes "cf_State cfg"
  shows "store_triple (\<lambda>_. True) (stayInConflict env ctx cfg prev r)
    (\<lambda>res st. res = None \<and> fst (fst (verdict_of cfg st)) = StatusConflict)"
proof -
  have "store_triple (\<lambda>_. True) (with_store cfg (\<lambda>st. MarkConflict st (cf_RepoPath cfg) fs m))
      (\<lambda>_ st. fst (fst (verdict_of cfg st)) = StatusConflict)" for fs m
    using assms by (intro store_triple_with_store) (auto simp: MarkConflict_def current_Update verdict_def)
  then show ?thesis
    unfolding stayInConflict_def
    by (rule store_triple_frame_last) (rule finish_then)
qed

lemma handleConflict_verdict:
  assumes "cf_State cfg"
  shows "store_triple (\<lambda>_. True) (handleConflict env cfg prev r conflicts head up)
    (\<lambda>_ st. \<exists>p n. verdict_of cfg st =
       ((StatusConflict, CodeConflict, ''rebase conflict'', []), p, (True, conflicts, head, up), n))"
    (is "store_triple _ _ (\<lambda>_ st. ?V (verdict_of cfg st))")
proof -
  have 1: "store_triple (\<lambda>_. True) (with_store cfg (\<lambda>st. SetConflictRefs st (cf_RepoPath cfg) head up))
      (\<lambda>_ st. st_ConflictHead (current st (cf_RepoPath cfg)) = head \<and> st_ConflictUp (current st (cf_RepoPath cfg)) = up)"
    using assms by (intro store_triple_with_store) (auto simp: SetConflictRefs_def current_Update)
  have 2: "store_triple (\<lambda>st. st_ConflictHead (current st (cf_RepoPath cfg)) = head \<and> st_ConflictUp (current st (cf_RepoPath cfg)) = up)
      (with_store cfg (\<lambda>st. MarkConflict st (cf_RepoPath cfg) conflicts ''rebase conflict''))
      (\<lambda>_ st. ?V (verdict_of cfg st))"
    using assms by (intro store_triple_with_store) (auto simp: MarkConflict_def current_Update verdict_def)
  show ?thesis
    unfolding handleConflict_def
    by (rule store_triple_frame_last [OF 1], rule store_triple_frame_last [OF 2], rule store_triple_keeps)
      (intro keeps_rules)
qed

lemma markPreflight_verdict:
  assumes "cf_State cfg"
  shows "store_triple (\<lambda>_. True) (markPreflight env cfg prev msg code)
    (\<lambda>_ st. fst (fst (verdict_of cfg st)) = StatusPreflight \<and> fst (snd (fst (verdict_of cfg st))) = code \<and>
       snd (snd (snd (fst (verdict_of cfg st)))) = msg)"
proof -
  have 1: "store_triple (\<lambda>_. True) (with_store cfg (\<lambda>st. MarkPreflight st (cf_RepoPath cfg) msg))
      (\<lambda>_ st. st_Status (current st (cf_RepoPath cfg)) = StatusPreflight \<and> st_Preflight (current st (cf_RepoPath cfg)) = msg)"
    using assms by (intro store_triple_with_store) (auto simp: MarkPreflight_def current_Update)
  show ?thesis
    unfolding markPreflight_def
    by (rule store_triple_frame, intro keeps_rules, rule store_triple_frame_last [OF 1],
        rule store_triple_with_store)
      (use assms in \<open>auto simp: current_Update verdict_def\<close>)
qed

lemma mark_failure_verdict:
  assumes "cf_State cfg"
  shows "store_triple (\<lambda>_. True) (mark_failure env cfg prev stage e)
    (\<lambda>_ st. fst (fst (verdict_of cfg st)) \<in> {StatusOffline, StatusError} \<and>
       fst (snd (fst (verdict_of cfg st))) = ClassifyError (Some e) \<and>
       fst (snd (snd (fst (verdict_of cfg st)))) = errorMessage stage (Some e))"
    (is "store_triple _ _ (\<lambda>_ st. ?V (verdict_of cfg st))")
proof -
  let ?p = "cf_RepoPath cfg" and ?code = "ClassifyError (Some e)" and ?msg = "errorMessage stage (Some e)"
  have err: "store_triple (\<lambda>_. True) (with_store cfg (\<lambda>st. MarkErrorCode st ?p ?code ?msg)) (\<lambda>_ st. ?V (verdict_of cfg st))"
    using assms by (intro store_triple_with_store) (auto simp: MarkErrorCode_def current_Update verdict_def)
  have off: "store_triple (\<lambda>_. True) (with_store cfg (\<lambda>st. MarkOffline st ?p ?msg 0))
      (\<lambda>_ st. st_Status (current st ?p) = StatusOffline \<and> st_LastError (current st ?p) = ?msg \<and>
        st_ErrorCode (current st ?p) = CodeNetwork)"
    using assms by (intro store_triple_with_store) (auto simp: MarkOffline_def current_Update)
  have code: "store_triple (\<lambda>st. st_Status (current st ?p) = StatusOffline \<and> st_LastError (current st ?p) = ?msg \<and>
        st_ErrorCode (current st ?p) = CodeNetwork)
      (if ?code \<noteq> CodeNetwork then with_store cfg (\<lambda>st. Update st ?p (\<lambda>x. x\<lparr>st_ErrorCode := ?code\<rparr>))
       else State_Monad.return ()) (\<lambda>_ st. ?V (verdict_of cfg st))"
    using assms
    by (intro store_triple_if store_triple_with_store store_triple_return) (auto simp: current_Update verdict_def)
  show ?thesis
    unfolding mark_failure_def Let_def
    by (intro store_triple_if store_triple_frame_last [OF off] store_triple_frame_last [OF code]
        store_triple_frame_last [OF err] store_triple_keeps keeps_rules)
qed

abbreviation status_of :: "repo_config \<Rightarrow> repo_store \<Rightarrow> string" where
  "status_of cfg st \<equiv> st_Status (current st (cf_RepoPath cfg))"

lemma status_verdict: "fst (fst (verdict x)) = st_Status x"
  by (simp add: verdict_def)

definition failed_statuses :: "string set" where
  "failed_statuses = {StatusError, StatusOffline, StatusConflict, StatusPreflight}"

lemma fail_status:
  assumes "cf_State cfg"
  shows "store_triple (\<lambda>_. True) (fail env ctx cfg prev r stage e)
    (\<lambda>res st. res = Some (Traced e) \<and> status_of cfg st \<in> failed_statuses)"
proof -
  let ?V = "\<lambda>v. fst (fst v) \<in> failed_statuses"
  have "store_triple (\<lambda>_. True)
      (case as_conflict e of
          Some c \<Rightarrow> handleConflict env cfg prev r (rc_Files c) (rc_Head c) (rc_Upstream c)
        | None \<Rightarrow>
            if preflightCode (Some e) \<noteq> [] then markPreflight env cfg prev (error_text e) (preflightCode (Some e))
            else mark_failure env cfg prev stage e) (\<lambda>_ st. ?V (verdict_of cfg st))"
    by (intro store_triple_option store_triple_if
        store_triple_weaken [OF handleConflict_verdict [OF assms]]
        store_triple_weaken [OF markPreflight_verdict [OF assms]]
        store_triple_weaken [OF mark_failure_verdict [OF assms]])
      (auto simp: failed_statuses_def)
  then show ?thesis
    unfolding fail_def
    by (rule store_triple_frame_last)
      (rule store_triple_bind [OF finish_verdict [where V = ?V]], rule store_triple_return,
       simp add: status_verdict)
qed

lemma restoreStatus_status:
  "store_triple (\<lambda>st. status_of cfg st = StatusSyncing \<or> status_of cfg st = st_Status prev)
     (restoreStatus cfg prev) (\<lambda>_ st. cf_State cfg \<longrightarrow> status_of cfg st = st_Status prev)"
  unfolding restoreStatus_def by (rule store_triple_with_store) (auto simp: current_Update)

text \<open>How a sync ends, as a relation between the status before, the result, and the status after.\<close>

definition settled :: "string \<Rightarrow> goerror option \<Rightarrow> string \<Rightarrow> bool" where
  "settled before res after \<longleftrightarrow>
     (res = None \<longrightarrow> after = StatusOK \<or> after = StatusConflict) \<and>
     (res \<noteq> None \<longrightarrow> after \<in> failed_statuses \<or> after = before)"

lemma MarkSyncing_status:
  "store_triple (\<lambda>st. status_of cfg st = before) (with_store cfg (\<lambda>st. MarkSyncing st (cf_RepoPath cfg)))
     (\<lambda>_ st. status_of cfg st = StatusSyncing \<or> status_of cfg st = before)"
  by (rule store_triple_with_store) (auto simp: MarkSyncing_def current_Update)

lemma sync_network_settles:
  assumes "cf_State cfg"
  shows "store_triple (\<lambda>st. status_of cfg st = st_Status prev) (sync_network env ctx cfg prev r)
    (\<lambda>res st. settled (st_Status prev) res (status_of cfg st))"
proof -
  let ?P = "\<lambda>st. status_of cfg st = StatusSyncing \<or> status_of cfg st = st_Status prev"
  let ?Q = "\<lambda>res st. settled (st_Status prev) res (status_of cfg st)"
  have ok: "store_triple ?P (succeed env ctx cfg prev r1) ?Q" for r1
    by (rule store_triple_weaken [OF succeed_verdict [OF assms]]) (auto simp: verdict_def settled_def)
  have conflict: "store_triple ?P (stayInConflict env ctx cfg prev r1) ?Q" for r1
    by (rule store_triple_weaken [OF stayInConflict_verdict [OF assms]]) (auto simp: verdict_def settled_def)
  have failed: "store_triple ?P (fail env ctx cfg prev r1 stage e) ?Q" for r1 stage e
    by (rule store_triple_weaken [OF fail_status [OF assms]]) (auto simp: settled_def)
  have restored: "store_triple ?P (do { restoreStatus cfg prev; State_Monad.return (Some (Traced e)) }) ?Q" for e
    by (rule store_triple_bind [OF restoreStatus_status], rule store_triple_return)
      (use assms in \<open>simp add: settled_def\<close>)
  show ?thesis
    unfolding sync_network_def
    by (rule store_triple_frame, intro keeps_rules, rule store_triple_bind [OF MarkSyncing_status],
        intro store_triple_frame [OF store_sync_steps] store_triple_prod store_triple_frame [OF keeps_ask]
          store_triple_option store_triple_if ok conflict failed restored)
qed

lemma Ensure_then_prev:
  assumes "cf_State cfg"
  shows "store_triple (\<lambda>st. status_of cfg st = before)
    (do { with_store cfg (\<lambda>st. Ensure st (cf_RepoPath cfg)); ask (previous_state cfg) })
    (\<lambda>prev st. status_of cfg st = before \<and> st_Status prev = before)"
  using assms
  by (auto simp: store_triple_def triple_def with_store_def previous_state_def Get_Ensure current_def
      split: option.split)

lemma AutoSyncCtx_settles_triple:
  assumes "cf_State cfg" and "\<not> cf_LocalOnly cfg"
  shows "store_triple (\<lambda>st. status_of cfg st = before) (AutoSyncCtx env ctx cfg)
    (\<lambda>res st. settled before res (status_of cfg st))"
proof -
  let ?Q = "\<lambda>res st. settled before res (status_of cfg st)"
  have tail: "store_triple (\<lambda>st. status_of cfg st = before \<and> st_Status prev = before)
      (do {
         (stage, err, r) \<leftarrow> prepare env ctx cfg new_run;
         if cf_LocalOnly cfg then runLocal env ctx cfg r err
         else do {
           cerr \<leftarrow> ask (ctx_err env ctx);
           case err of
             None \<Rightarrow> sync_network env ctx cfg prev r
           | Some e \<Rightarrow>
               if cerr \<noteq> None then State_Monad.return (Some (Traced e))
               else if preflightCode err \<noteq> [] then
                 do {
                   markPreflight env cfg prev (error_text e) (preflightCode err);
                   State_Monad.return (Some (Traced e))
                 }
               else fail env ctx cfg prev r stage e
         }
       }) ?Q" for prev
  proof (rule store_triple_frame [OF store_prepare], intro store_triple_prod store_triple_if)
    fix x stage y err r
    let ?P = "\<lambda>st. status_of cfg st = before \<and> st_Status prev = before"
    have net: "store_triple ?P (sync_network env ctx cfg prev r) ?Q"
      by (rule store_triple_pure)
        (rule store_triple_weaken [OF sync_network_settles [OF assms(1)]], auto)
    have failed: "store_triple ?P (fail env ctx cfg prev r stage e) ?Q" for e
      by (rule store_triple_weaken [OF fail_status [OF assms(1)]]) (auto simp: settled_def)
    have pre: "store_triple ?P (do { markPreflight env cfg prev m c; State_Monad.return (Some (Traced e)) }) ?Q" for e m c
      by (rule store_triple_bind [OF store_triple_weaken [OF markPreflight_verdict [OF assms(1)]]],
          simp, assumption, rule store_triple_return)
        (auto simp: settled_def verdict_def failed_statuses_def)
    show "store_triple ?P (do {
           cerr \<leftarrow> ask (ctx_err env ctx);
           case err of
             None \<Rightarrow> sync_network env ctx cfg prev r
           | Some e \<Rightarrow>
               if cerr \<noteq> None then State_Monad.return (Some (Traced e))
               else if preflightCode err \<noteq> [] then
                 do {
                   markPreflight env cfg prev (error_text e) (preflightCode err);
                   State_Monad.return (Some (Traced e))
                 }
               else fail env ctx cfg prev r stage e
         }) ?Q"
      by (intro store_triple_frame [OF keeps_ask] store_triple_option store_triple_if net failed pre
          store_triple_return) (auto simp: settled_def)
  qed (use assms in simp)
  show ?thesis
    using store_triple_bind [OF Ensure_then_prev [OF assms(1)] tail]
    unfolding AutoSyncCtx_def by simp
qed

section \<open>A sync keeps the store consistent\<close>

lemma inv_op: "store_triple store_inv (with_store cfg (\<lambda>st. store_step st a)) (\<lambda>_. store_inv)"
  by (rule store_triple_with_store) (auto intro: store_inv_shape [OF store_step_shape])

lemma inv_MarkChecked: "store_triple store_inv (with_store cfg (\<lambda>st. MarkChecked now st p b)) (\<lambda>_. store_inv)"
  and inv_SetBranchInfo: "store_triple store_inv (with_store cfg (\<lambda>st. SetBranchInfo st p br u a h)) (\<lambda>_. store_inv)"
  and inv_MarkSuccess: "store_triple store_inv (with_store cfg (\<lambda>st. MarkSuccess now st p act)) (\<lambda>_. store_inv)"
  and inv_MarkConflict: "store_triple store_inv (with_store cfg (\<lambda>st. MarkConflict st p fs m)) (\<lambda>_. store_inv)"
  and inv_SetConflictRefs: "store_triple store_inv (with_store cfg (\<lambda>st. SetConflictRefs st p hh up)) (\<lambda>_. store_inv)"
  and inv_MarkErrorCode: "store_triple store_inv (with_store cfg (\<lambda>st. MarkErrorCode st p c m)) (\<lambda>_. store_inv)"
  and inv_Ensure: "store_triple store_inv (with_store cfg (\<lambda>st. Ensure st p)) (\<lambda>_. store_inv)"
  using inv_op [of cfg "OpChecked now p b"] inv_op [of cfg "OpBranchInfo p br u a h"]
    inv_op [of cfg "OpSuccess now p act"] inv_op [of cfg "OpConflict p fs m"]
    inv_op [of cfg "OpConflictRefs p hh up"] inv_op [of cfg "OpErrorCode p c m"] inv_op [of cfg "OpEnsure p"]
  by simp_all

text \<open>An \<open>Update\<close> of one entry keeps the invariant if it keeps that entry consistent.\<close>

lemma store_inv_Update:
  assumes "store_inv st" and "repo_ok (f (current st p))" and "st_Path (f (current st p)) = p"
  shows "store_inv (Update st p f)"
proof -
  have "distinct (map fst (rs_states (Update st p f)))"
    using assms(1) by (simp add: store_inv_def Update_def publish_def Let_def)
  then show ?thesis using assms by (auto simp: store_inv_def Get_Update split: if_splits)
qed

lemma inv_finish: "store_triple store_inv (finish env ctx cfg r) (\<lambda>_. store_inv)"
  unfolding finish_def
  by (intro store_triple_if store_triple_return store_triple_frame store_triple_prod
      store_triple_bind [OF inv_MarkChecked] inv_SetBranchInfo keeps_rules) auto

lemma inv_finish_then:
  "store_triple store_inv (do { finish env ctx cfg r; State_Monad.return x }) (\<lambda>_. store_inv)"
  by (rule store_triple_then_keeps [OF inv_finish]) (rule keeps_rules)

lemma inv_succeed: "store_triple store_inv (succeed env ctx cfg prev r) (\<lambda>_. store_inv)"
  unfolding succeed_def Let_def
  by (rule store_triple_frame [OF keeps_ask], rule store_triple_bind [OF inv_MarkSuccess],
      intro store_triple_frame inv_finish_then keeps_rules)

lemma inv_stayInConflict: "store_triple store_inv (stayInConflict env ctx cfg prev r) (\<lambda>_. store_inv)"
  unfolding stayInConflict_def by (rule store_triple_bind [OF inv_MarkConflict], rule inv_finish_then)

lemma inv_handleConflict: "store_triple store_inv (handleConflict env cfg prev r fs h u) (\<lambda>_. store_inv)"
  unfolding handleConflict_def
  by (rule store_triple_bind [OF inv_SetConflictRefs], rule store_triple_then_keeps [OF inv_MarkConflict])
    (intro keeps_rules)

lemma inv_markPreflight: "store_triple store_inv (markPreflight env cfg prev m c) (\<lambda>_. store_inv)"
proof -
  let ?P = "\<lambda>st. store_inv st \<and> (cf_State cfg \<longrightarrow> status_of cfg st = StatusPreflight)"
  have 1: "store_triple store_inv (with_store cfg (\<lambda>st. MarkPreflight st (cf_RepoPath cfg) m)) (\<lambda>_. ?P)"
    using store_inv_shape [OF store_step_shape [of _ "OpPreflight (cf_RepoPath cfg) m"]]
    by (intro store_triple_with_store) (auto simp: MarkPreflight_def current_Update)
  have 2: "store_triple ?P (with_store cfg (\<lambda>st. Update st (cf_RepoPath cfg) (\<lambda>x. x\<lparr>st_ErrorCode := c\<rparr>))) (\<lambda>_. store_inv)"
    using current_ok
    by (intro store_triple_with_store store_inv_Update) (auto simp: repo_ok_def)
  show ?thesis
    unfolding markPreflight_def
    by (rule store_triple_frame, intro keeps_rules, rule store_triple_bind [OF 1], rule 2)
qed

lemma inv_mark_failure: "store_triple store_inv (mark_failure env cfg prev stage e) (\<lambda>_. store_inv)"
proof -
  let ?p = "cf_RepoPath cfg" and ?code = "ClassifyError (Some e)" and ?msg = "errorMessage stage (Some e)"
  let ?P = "\<lambda>st. store_inv st \<and> (cf_State cfg \<longrightarrow> status_of cfg st = StatusOffline)"
  have 1: "store_triple store_inv (with_store cfg (\<lambda>st. MarkOffline st ?p ?msg 0)) (\<lambda>_. ?P)"
    using store_inv_shape [OF store_step_shape [of _ "OpOffline ?p ?msg 0"]]
    by (intro store_triple_with_store) (auto simp: MarkOffline_def current_Update)
  have 2: "store_triple ?P (if ?code \<noteq> CodeNetwork
        then with_store cfg (\<lambda>st. Update st ?p (\<lambda>x. x\<lparr>st_ErrorCode := ?code\<rparr>))
        else State_Monad.return ()) (\<lambda>_. store_inv)"
    if "?code = CodeNetwork \<or> ?code = CodeTimeout \<and> isNetworkTimeout e"
    using current_ok that
    by (intro store_triple_if store_triple_with_store store_inv_Update store_triple_return)
      (auto simp: repo_ok_def)
  show ?thesis
    unfolding mark_failure_def Let_def
    by (intro store_triple_if store_triple_bind [OF 1] store_triple_then_keeps [OF 2]
        store_triple_then_keeps [OF inv_MarkErrorCode] keeps_rules)
qed

lemma inv_fail: "store_triple store_inv (fail env ctx cfg prev r stage e) (\<lambda>_. store_inv)"
  unfolding fail_def
  by (rule store_triple_frame_last [OF _ inv_finish_then])
    (intro store_triple_option store_triple_if inv_handleConflict inv_markPreflight inv_mark_failure)

text \<open>While git runs, the store holds the previous state, marked as syncing.\<close>

definition in_sync :: "repo_config \<Rightarrow> repo_state \<Rightarrow> repo_store \<Rightarrow> bool" where
  "in_sync cfg prev st \<longleftrightarrow> store_inv st \<and> (cf_State cfg \<longrightarrow> repo_ok prev \<and>
     same_but_seq (current st (cf_RepoPath cfg))
       (if st_Paused prev then prev else prev\<lparr>st_Status := StatusSyncing\<rparr>))"

definition before_sync :: "repo_config \<Rightarrow> repo_state \<Rightarrow> repo_store \<Rightarrow> bool" where
  "before_sync cfg prev st \<longleftrightarrow> store_inv st \<and> (cf_State cfg \<longrightarrow> repo_ok prev \<and>
     same_but_seq (current st (cf_RepoPath cfg)) prev)"

lemma same_but_seq_eq:
  assumes "same_but_seq x y"
  shows "x = y\<lparr>st_Seq := st_Seq x\<rparr>"
proof -
  have "x = (x\<lparr>st_Seq := 0\<rparr>)\<lparr>st_Seq := st_Seq x\<rparr>" by simp
  also have "\<dots> = (y\<lparr>st_Seq := 0\<rparr>)\<lparr>st_Seq := st_Seq x\<rparr>" using assms by (simp only: same_but_seq_def)
  finally show ?thesis by simp
qed

lemma same_but_seq_fields:
  assumes "same_but_seq x y"
  shows "st_Status x = st_Status y" and "st_Paused x = st_Paused y" and "repo_ok x = repo_ok y"
    and "same_but_seq (x\<lparr>st_Status := v\<rparr>) (y\<lparr>st_Status := v\<rparr>)" and "st_Path x = st_Path y"
proof -
  obtain n where x: "x = y\<lparr>st_Seq := n\<rparr>" using same_but_seq_eq [OF assms] by blast
  show "st_Status x = st_Status y" "st_Paused x = st_Paused y" "repo_ok x = repo_ok y"
    "same_but_seq (x\<lparr>st_Status := v\<rparr>) (y\<lparr>st_Status := v\<rparr>)" "st_Path x = st_Path y"
    by (simp_all add: x same_but_seq_def)
qed

lemma same_but_seq_seq [simp]:
  "same_but_seq (x\<lparr>st_Seq := n\<rparr>) y = same_but_seq x y" "same_but_seq x x"
  by (simp_all add: same_but_seq_def)

lemma same_but_seq_restore:
  assumes "same_but_seq x (if st_Paused prev then prev else prev\<lparr>st_Status := StatusSyncing\<rparr>)"
  shows "same_but_seq (if st_Status x = StatusSyncing then x\<lparr>st_Status := st_Status prev\<rparr> else x) prev"
proof -
  obtain n where "x = (if st_Paused prev then prev else prev\<lparr>st_Status := StatusSyncing\<rparr>)\<lparr>st_Seq := n\<rparr>"
    using same_but_seq_eq [OF assms] by blast
  then show ?thesis by (cases "st_Paused prev") (simp_all add: same_but_seq_def)
qed

lemma sync_begins:
  "store_triple (before_sync cfg prev) (with_store cfg (\<lambda>st. MarkSyncing st (cf_RepoPath cfg)))
     (\<lambda>_. in_sync cfg prev)"
proof (rule store_triple_with_store)
  fix st assume b: "before_sync cfg prev st" and c: "cf_State cfg"
  let ?x = "current st (cf_RepoPath cfg)"
  have s: "same_but_seq ?x prev" and inv: "store_inv st" and ok: "repo_ok prev"
    using b c by (auto simp: before_sync_def)
  have "store_inv (MarkSyncing st (cf_RepoPath cfg))"
    using store_inv_shape [OF store_step_shape [of st "OpSyncing (cf_RepoPath cfg)"] inv] by simp
  moreover have "same_but_seq (current (MarkSyncing st (cf_RepoPath cfg)) (cf_RepoPath cfg))
      (if st_Paused prev then prev else prev\<lparr>st_Status := StatusSyncing\<rparr>)"
    using same_but_seq_fields(2,4) [OF s] s by (simp add: MarkSyncing_def current_Update)
  ultimately show "in_sync cfg prev (MarkSyncing st (cf_RepoPath cfg))" using ok by (simp add: in_sync_def)
qed (simp add: in_sync_def before_sync_def)

lemma sync_cancelled:
  "store_triple (in_sync cfg prev) (restoreStatus cfg prev) (\<lambda>_. before_sync cfg prev)"
  unfolding restoreStatus_def
proof (rule store_triple_with_store)
  fix st assume i: "in_sync cfg prev st" and c: "cf_State cfg"
  let ?f = "\<lambda>x. if st_Status x = StatusSyncing then x\<lparr>st_Status := st_Status prev\<rparr> else x"
  let ?x = "current st (cf_RepoPath cfg)"
  have inv: "store_inv st" and ok: "repo_ok prev" using i c by (auto simp: in_sync_def)
  have s: "same_but_seq (?f ?x) prev" using i c same_but_seq_restore by (auto simp: in_sync_def)
  have "store_inv (Update st (cf_RepoPath cfg) ?f)"
    using same_but_seq_fields(3) [OF s] ok current_ok [OF inv] by (intro store_inv_Update [OF inv]) auto
  then show "before_sync cfg prev (Update st (cf_RepoPath cfg) ?f)"
    using s ok by (simp add: before_sync_def current_Update)
qed (simp add: in_sync_def before_sync_def)

lemma in_sync_inv: "store_triple store_inv m (\<lambda>_. store_inv) \<Longrightarrow> store_triple (in_sync cfg prev) m (\<lambda>_. store_inv)"
  by (erule store_triple_weaken) (auto simp: in_sync_def)

lemma inv_sync_network:
  "store_triple (before_sync cfg prev) (sync_network env ctx cfg prev r) (\<lambda>_. store_inv)"
proof -
  have restored: "store_triple (in_sync cfg prev) (do { restoreStatus cfg prev; State_Monad.return x }) (\<lambda>_. store_inv)" for x
    by (rule store_triple_bind [OF sync_cancelled], rule store_triple_return) (simp add: before_sync_def)
  show ?thesis
    unfolding sync_network_def
    by (rule store_triple_frame, intro keeps_rules, rule store_triple_bind [OF sync_begins],
        intro store_triple_frame [OF store_sync_steps] store_triple_prod store_triple_frame [OF keeps_ask]
          store_triple_option store_triple_if in_sync_inv [OF inv_fail] in_sync_inv [OF inv_stayInConflict]
          in_sync_inv [OF inv_succeed] restored)
qed

lemma sync_network_cancelled:
  assumes "\<And>s. ctx_err env ctx s \<noteq> None" and "cf_State cfg"
  shows "store_triple (before_sync cfg prev) (sync_network env ctx cfg prev r)
    (\<lambda>res st. res \<noteq> None \<longrightarrow> before_sync cfg prev st)"
proof -
  let ?Q = "\<lambda>res st. res \<noteq> None \<longrightarrow> before_sync cfg prev st"
  have restored: "store_triple (in_sync cfg prev) (do { restoreStatus cfg prev; State_Monad.return x }) ?Q" for x
    by (rule store_triple_bind [OF sync_cancelled], rule store_triple_return) simp
  have ok: "store_triple (in_sync cfg prev) (succeed env ctx cfg prev r1) ?Q" for r1
    by (rule store_triple_weaken [OF succeed_verdict [OF assms(2)]]) auto
  have conflict: "store_triple (in_sync cfg prev) (stayInConflict env ctx cfg prev r1) ?Q" for r1
    by (rule store_triple_weaken [OF stayInConflict_verdict [OF assms(2)]]) auto
  have tail: "store_triple (in_sync cfg prev)
      (do { cerr \<leftarrow> ask (ctx_err env ctx);
            case err of
              Some e \<Rightarrow>
                if cerr \<noteq> None then do { restoreStatus cfg prev; State_Monad.return (Some (Traced e)) }
                else fail env ctx cfg prev r1 stage e
            | None \<Rightarrow>
                if sr_guarded r1 then stayInConflict env ctx cfg prev r1 else succeed env ctx cfg prev r1 }) ?Q"
    for err r1 stage
  proof (cases err)
    case None
    then show ?thesis
      by (intro store_triple_frame [OF keeps_ask]) (use ok [of r1] conflict [of r1] in simp)
  next
    case (Some e)
    then show ?thesis using restored [of "Some (Traced e)"] assms(1)
      by (simp add: store_triple_def triple_def)
  qed
  show ?thesis
    unfolding sync_network_def
    by (rule store_triple_frame, intro keeps_rules, rule store_triple_bind [OF sync_begins],
        intro store_triple_frame [OF store_sync_steps] store_triple_prod tail)
qed

lemma inv_runLocal: "store_triple store_inv (runLocal env ctx cfg r err) (\<lambda>_. store_inv)"
  unfolding runLocal_def
  by (rule store_triple_frame, intro keeps_rules, intro store_triple_prod store_triple_frame [OF keeps_ask],
      rule store_triple_then_keeps)
    (auto intro: inv_finish store_triple_return keeps_return)

lemma Ensure_before_sync:
  "store_triple store_inv
     (do { with_store cfg (\<lambda>st. Ensure st (cf_RepoPath cfg)); ask (previous_state cfg) })
     (\<lambda>prev. before_sync cfg prev)"
  using current_ok store_inv_shape [OF shape_ensure]
  by (auto simp: store_triple_def triple_def with_store_def previous_state_def Get_Ensure before_sync_def)

lemma inv_AutoSyncCtx: "store_triple store_inv (AutoSyncCtx env ctx cfg) (\<lambda>_. store_inv)"
proof -
  have weak: "store_triple store_inv m (\<lambda>_. store_inv) \<Longrightarrow> store_triple (before_sync cfg prev) m (\<lambda>_. store_inv)" for m prev
    by (erule store_triple_weaken) (auto simp: before_sync_def)
  have tail: "store_triple (before_sync cfg prev)
      (do {
         (stage, err, r) \<leftarrow> prepare env ctx cfg new_run;
         if cf_LocalOnly cfg then runLocal env ctx cfg r err
         else do {
           cerr \<leftarrow> ask (ctx_err env ctx);
           case err of
             None \<Rightarrow> sync_network env ctx cfg prev r
           | Some e \<Rightarrow>
               if cerr \<noteq> None then State_Monad.return (Some (Traced e))
               else if preflightCode err \<noteq> [] then
                 do {
                   markPreflight env cfg prev (error_text e) (preflightCode err);
                   State_Monad.return (Some (Traced e))
                 }
               else fail env ctx cfg prev r stage e
         }
       }) (\<lambda>_. store_inv)" for prev
    by (rule store_triple_frame [OF store_prepare],
        intro store_triple_prod store_triple_if weak [OF inv_runLocal] store_triple_frame [OF keeps_ask]
          store_triple_option inv_sync_network weak [OF inv_fail]
          store_triple_then_keeps [OF weak [OF inv_markPreflight]] store_triple_return keeps_rules)
      (auto simp: before_sync_def)
  show ?thesis
    using store_triple_bind [OF Ensure_before_sync tail] unfolding AutoSyncCtx_def by simp
qed

section \<open>The guard against repeating a conflict\<close>

definition guard_is :: "bool \<Rightarrow> ('w sys, goerror option \<times> sync_run) state \<Rightarrow> bool" where
  "guard_is g m \<longleftrightarrow> triple (\<lambda>_. True) m (\<lambda>x _. sr_guarded (snd x) = g)"

lemma guard_return: "sr_guarded r = g \<Longrightarrow> guard_is g (State_Monad.return (e, r))"
  by (simp add: guard_is_def triple_def)

lemma guard_any: "(\<And>x. guard_is g (k x)) \<Longrightarrow> guard_is g (State_Monad.bind m k)"
  by (simp add: guard_is_def triple_def split_beta)

lemma guard_bind:
  "guard_is g m \<Longrightarrow> (\<And>e r. sr_guarded r = g \<Longrightarrow> guard_is g (k (e, r))) \<Longrightarrow> guard_is g (State_Monad.bind m k)"
  unfolding guard_is_def by (erule triple_bind) (auto simp: triple_def)

lemma guard_if: "(b \<Longrightarrow> guard_is g m) \<Longrightarrow> (\<not> b \<Longrightarrow> guard_is g n) \<Longrightarrow> guard_is g (if b then m else n)"
  by simp

lemma guard_sync_commit: "sr_guarded r = g \<Longrightarrow> guard_is g (sync_commit env ctx cfg r)"
  unfolding sync_commit_def by (rule guard_any) (auto intro!: guard_return split: if_splits)

lemma guard_sync_fetch: "sr_guarded r = g \<Longrightarrow> guard_is g (sync_fetch env ctx cfg r)"
  unfolding sync_fetch_def by (rule guard_any) (auto intro!: guard_return)

lemma guard_sync_count: "sr_guarded r = g \<Longrightarrow> guard_is g (sync_count env ctx cfg r)"
  unfolding sync_count_def by (rule guard_any) (auto intro!: guard_return)

lemma guard_rebase_retry: "sr_guarded r = g \<Longrightarrow> guard_is g (rebase_retry env ctx cfg r fp)"
  unfolding rebase_retry_def
  by (rule guard_any, intro guard_if guard_return guard_bind [OF guard_sync_commit])
    (auto intro!: guard_return guard_any)

lemma guard_sync_rebase: "sr_guarded r = g \<Longrightarrow> guard_is g (sync_rebase env ctx cfg r)"
  unfolding sync_rebase_def
  by (rule guard_bind [OF guard_sync_count], assumption)
    (auto intro!: guard_return guard_bind [OF guard_rebase_retry] guard_bind [OF guard_sync_count])

lemma guard_push_loop: "sr_guarded r = g \<Longrightarrow> guard_is g (push_loop n env ctx cfg r)"
proof (induction n arbitrary: r)
  case 0
  then show ?case by (auto intro!: guard_any guard_return)
next
  case (Suc n)
  show ?case unfolding push_loop.simps
  proof (rule guard_any)
    fix err :: "goerror option"
    have "guard_is g (do {
             (ferr, r1) \<leftarrow> sync_fetch env ctx cfg r;
             if ferr \<noteq> None then State_Monad.return (map_option Traced ferr, r1)
             else do {
               (rerr, r2) \<leftarrow> sync_rebase env ctx cfg r1;
               if rerr \<noteq> None then State_Monad.return (rerr, r2)
               else if sr_ahead r2 = 0 then State_Monad.return (None, r2)
               else do {
                 slept \<leftarrow> sleepCtx env ctx (int (pushAttempts - Suc n) * 300000000);
                 if slept then push_loop n env ctx cfg r2
                 else do {
                   cerr \<leftarrow> ask (ctx_err env ctx);
                   State_Monad.return (map_option (\<lambda>c. Traced (Sentinel c)) cerr, r2)
                 }
               }
             }
           })"
      by (rule guard_bind [OF guard_sync_fetch [OF Suc.prems]], unfold prod.case,
          intro guard_if guard_return, assumption, rule guard_bind [OF guard_sync_rebase], assumption,
          unfold prod.case, intro guard_if guard_return guard_any Suc.IH)
    then show "guard_is g (case err of
         None \<Rightarrow> State_Monad.return (None, r)
       | Some e \<Rightarrow>
           if \<not> isRetryablePush e then State_Monad.return (Some (Traced e), r)
           else do {
             (ferr, r1) \<leftarrow> sync_fetch env ctx cfg r;
             if ferr \<noteq> None then State_Monad.return (map_option Traced ferr, r1)
             else do {
               (rerr, r2) \<leftarrow> sync_rebase env ctx cfg r1;
               if rerr \<noteq> None then State_Monad.return (rerr, r2)
               else if sr_ahead r2 = 0 then State_Monad.return (None, r2)
               else do {
                 slept \<leftarrow> sleepCtx env ctx (int (pushAttempts - Suc n) * 300000000);
                 if slept then push_loop n env ctx cfg r2
                 else do {
                   cerr \<leftarrow> ask (ctx_err env ctx);
                   State_Monad.return (map_option (\<lambda>c. Traced (Sentinel c)) cerr, r2)
                 }
               }
             }
           })"
      using Suc.prems by (cases err) (auto intro: guard_return)
  qed
qed

lemma guard_sync_push: "sr_guarded r = g \<Longrightarrow> guard_is g (sync_push env ctx cfg r)"
  unfolding sync_push_def by (auto intro: guard_return guard_push_loop)

text \<open>A guarded run is one whose conflict check said so, after the commit and the fetch.\<close>

lemma guardD: "guard_is g m \<Longrightarrow> run_state m s = ((e, r), s') \<Longrightarrow> sr_guarded r = g"
  unfolding guard_is_def by (drule tripleD2) auto

lemma guarded_run:
  assumes "run_state (sync_steps env ctx cfg prev r) s = ((stage, err, r'), s')"
    and "sr_guarded r'" and "\<not> sr_guarded r"
  shows "\<exists>r1 s1 r2 s2. run_state (sync_commit env ctx cfg r) s = ((None, r1), s1) \<and>
    run_state (sync_fetch env ctx cfg r1) s1 = ((None, r2), s2) \<and>
    run_state (conflictUnchanged env ctx cfg prev r2) s2 = (True, s') \<and> err = None"
proof -
  obtain e1 r1 s1 where 1: "run_state (sync_commit env ctx cfg r) s = ((e1, r1), s1)" by (metis surj_pair)
  obtain e2 r2 s2 where 2: "run_state (sync_fetch env ctx cfg r1) s1 = ((e2, r2), s2)" by (metis surj_pair)
  obtain u s3 where 3: "run_state (conflictUnchanged env ctx cfg prev r2) s2 = (u, s3)" by (metis surj_pair)
  obtain e4 r4 s4 where 4: "run_state (sync_rebase env ctx cfg r2) s3 = ((e4, r4), s4)" by (metis surj_pair)
  obtain e5 r5 s5 where 5: "run_state (sync_push env ctx cfg r4) s4 = ((e5, r5), s5)" by (metis surj_pair)
  have "\<not> sr_guarded r1" using guardD [OF guard_sync_commit 1] assms(3) by blast
  moreover then have "\<not> sr_guarded r2" using guardD [OF guard_sync_fetch 2] by blast
  moreover then have "\<not> sr_guarded r4" using guardD [OF guard_sync_rebase 4] by blast
  moreover then have "\<not> sr_guarded r5" using guardD [OF guard_sync_push 5] by blast
  ultimately show ?thesis
    using assms(1,2) 1 2 3 unfolding sync_steps_def
    by (cases e1; cases e2; cases u; cases e4; cases e5) (auto simp: 4 5 split: if_splits)
qed

definition rewrites_refs :: "string list \<Rightarrow> bool" where
  "rewrites_refs args \<longleftrightarrow> gitSubcommand args = ''rebase'' \<or> gitSubcommand args = ''push''"

lemma spares_rewrites: "spares_local rewrites_refs"
  by (auto simp: spares_local_def rewrites_refs_def local_subcommands_def)

lemma list_all_calls:
  "list_all (\<lambda>(args, i). \<not> C args) ts \<Longrightarrow> list_all (\<lambda>(args, i). \<not> C args) us \<Longrightarrow>
    list_all (\<lambda>(args, i). \<not> C args) (ts @ us)"
  by simp

lemma mark_failure_events:
  assumes "run_state (mark_failure env cfg prev stage e) s = (u, s')"
  shows "sy_events s' = sy_events s \<or> (\<exists>ev. sy_events s' = sy_events s @ [ev])"
    and "(if ClassifyError (Some e) = CodeNetwork \<or> ClassifyError (Some e) = CodeTimeout \<and> isNetworkTimeout e
          then st_Status prev = StatusOffline
          else st_Status prev = StatusError \<and> st_ErrorCode prev = ClassifyError (Some e) \<and>
               st_LastError prev = errorMessage stage (Some e)) \<Longrightarrow> sy_events s' = sy_events s"
  using assms
  by (auto simp: mark_failure_def Let_def with_store_def emit_now_def emitEvent_def split: if_splits)

section \<open>Properties\<close>

text \<open>
  C6. A local-only sync, which the scheduler uses while it waits to retry, never uses the network
  and never rewrites history: every git process it starts is one of status, add, diff, reset,
  commit, rev-parse, config, symbolic-ref, for-each-ref, rev-list and merge-base.
\<close>

theorem local_sync_stays_local:
  assumes "cf_LocalOnly cfg"
  shows "\<exists>ts. sy_trace (snd (run_state (AutoSyncCtx env ctx cfg) s)) = sy_trace s @ ts \<and>
    list_all (\<lambda>(args, i). gitSubcommand args \<in> set local_subcommands) ts"
  using runsD [OF runs_AutoSyncCtx_local [OF _ assms, of "\<lambda>args. gitSubcommand args \<notin> set local_subcommands"],
      of env ctx s]
  by (auto simp: spares_local_def)

theorem local_sync_stays_local_witness:
  "\<exists>ts. sy_trace (snd (run_state (AutoSyncCtx commit_env Live (demo_cfg\<lparr>cf_LocalOnly := True\<rparr>)) demo_sys)) =
      sy_trace demo_sys @ ts \<and> list_all (\<lambda>(args, i). gitSubcommand args \<in> set local_subcommands) ts"
  by (rule local_sync_stays_local) simp

text \<open>
  C27. However the remote answers, one sync calls push at most three times.
\<close>

theorem sync_pushes_at_most_three_times:
  "calls (\<lambda>args. gitSubcommand args = ''push'') (sy_trace (snd (run_state (AutoSyncCtx env ctx cfg) s))) \<le>
   calls (\<lambda>args. gitSubcommand args = ''push'') (sy_trace s) + 3"
proof -
  let ?C = "\<lambda>args. gitSubcommand args = ''push''"
  have "spares_local ?C" "spares_rebase ?C" "spares_fetch ?C"
    by (auto simp: spares_local_def spares_rebase_def spares_fetch_def local_subcommands_def)
  then obtain ts where "sy_trace (snd (run_state (AutoSyncCtx env ctx cfg) s)) = sy_trace s @ ts" "calls ?C ts \<le> 3"
    using runsD [OF runs_AutoSyncCtx] by blast
  then show ?thesis by simp
qed

text \<open>
  C4. A conflict that is already known is not retried: a run ends guarded only without an error,
  only when a sync is not forced and the recorded conflict has both refs, and such a run starts
  neither a rebase nor a push.
\<close>

theorem known_conflict_is_not_retried:
  assumes "run_state (sync_steps env ctx cfg prev r) s = ((stage, err, r'), s')"
    and "sr_guarded r'" and "\<not> sr_guarded r"
  shows "err = None \<and> \<not> cf_Force cfg \<and> st_Conflict prev \<and> st_ConflictHead prev \<noteq> [] \<and> st_ConflictUp prev \<noteq> [] \<and>
    (\<exists>ts. sy_trace s' = sy_trace s @ ts \<and> list_all (\<lambda>(args, i). \<not> rewrites_refs args) ts)"
proof -
  obtain r1 s1 r2 s2 where st: "run_state (sync_commit env ctx cfg r) s = ((None, r1), s1)"
      "run_state (sync_fetch env ctx cfg r1) s1 = ((None, r2), s2)"
      "run_state (conflictUnchanged env ctx cfg prev r2) s2 = (True, s')" and err: "err = None"
    using guarded_run [OF assms] by blast
  have "\<not> rewrites_refs (fetch_args (sr_info r1))" by (simp add: rewrites_refs_def fetch_args_def)
  then obtain ts us vs where "sy_trace s1 = sy_trace s @ ts" "sy_trace s2 = sy_trace s1 @ us"
      "sy_trace s' = sy_trace s2 @ vs" "list_all (\<lambda>(args, i). \<not> rewrites_refs args) (ts @ us @ vs)"
    using runsD [OF runs_sync_commit [OF spares_rewrites], of env ctx cfg r s]
      runsD [OF runs_sync_fetch [OF spares_rewrites], of r1 env ctx cfg s1]
      runsD [OF runs_conflictUnchanged [OF spares_rewrites], of env ctx cfg prev r2 s2] st
    by auto
  moreover have "\<not> cf_Force cfg \<and> st_Conflict prev \<and> st_ConflictHead prev \<noteq> [] \<and> st_ConflictUp prev \<noteq> []"
    using st(3) by (auto simp: conflictUnchanged_def split: if_splits)
  ultimately show ?thesis using err by (auto intro!: exI [of _ "ts @ us @ vs"])
qed

text \<open>An environment and a previous state with a conflict whose refs have not moved.\<close>

definition known_conflict :: repo_state where
  "known_conflict = (idle_state ''/r'')\<lparr>st_Conflict := True, st_ConflictHead := ''h'', st_ConflictUp := ''u''\<rparr>"

definition known_conflict_env :: "unit env" where
  "known_conflict_env = (demo_env [])\<lparr>en_run := \<lambda>w inv.
     if gi_args inv = [''merge-base'', ''--is-ancestor'', ''u'', ''HEAD'']
     then (\<lparr>rr_out = [], rr_err = [], rr_fail = Some (ExitError 1 ''exit status 1''), rr_deadline = False\<rparr>, w)
     else (\<lparr>rr_out = (if take 2 (gi_args inv) = [''rev-parse'', ''--verify''] then ''u'' @ [CHR 0x0A] else []),
            rr_err = [], rr_fail = None, rr_deadline = False\<rparr>, w)\<rparr>"

theorem known_conflict_is_not_retried_witness:
  "\<exists>ts. sy_trace (snd (run_state (sync_steps known_conflict_env Live demo_cfg known_conflict new_run) demo_sys)) = ts \<and>
     list_all (\<lambda>(args, i). \<not> rewrites_refs args) ts"
proof -
  let ?r = "run_state (sync_steps known_conflict_env Live demo_cfg known_conflict new_run) demo_sys"
  obtain stage err r' s' where r: "?r = ((stage, err, r'), s')" by (metis surj_pair)
  have "sr_guarded (snd (snd (fst ?r)))" by code_simp
  then have "sr_guarded r'" using r by simp
  moreover have "\<not> sr_guarded new_run" by (simp add: new_run_def)
  ultimately show ?thesis using known_conflict_is_not_retried [OF r] r by (auto simp: demo_sys_def)
qed



text \<open>
  A sync keeps the store of repository states consistent, whatever git answers and wherever it
  stops.
\<close>

theorem sync_keeps_store_consistent:
  assumes "store_inv (sy_store s)" and "run_state (AutoSyncCtx env ctx cfg) s = (res, s')"
  shows "store_inv (sy_store s')"
  using store_tripleD2 [OF inv_AutoSyncCtx assms] .

theorem sync_keeps_store_consistent_witness:
  "store_inv (sy_store (snd (run_state (AutoSyncCtx (demo_env ''fatal: Could not resolve host'') Live demo_cfg) demo_sys)))"
  by (rule sync_keeps_store_consistent [OF _ prod.collapse [symmetric]])
    (simp add: demo_sys_def store_inv_New)

text \<open>
  C28. A cancelled sync leaves no trace in the state: under a cancelled context a sync that returns
  an error leaves the state of the repository as it was, its sequence number apart.
\<close>

theorem cancelled_sync_restores_state:
  assumes "\<And>w. en_cancelled env w \<noteq> None" and "cf_State cfg" and "\<not> cf_LocalOnly cfg"
    and "store_inv (sy_store s)" and "Get (sy_store s) (cf_RepoPath cfg) = Some prev"
    and "run_state (AutoSyncCtx env Live cfg) s = (Some e, s')"
  shows "same_but_seq (current (sy_store s') (cf_RepoPath cfg)) prev"
proof -
  have cancelled: "ctx_err env Live x \<noteq> None" for x using assms(1) by (simp add: ctx_err_def)
  define s0 where "s0 = s\<lparr>sy_store := Ensure (sy_store s) (cf_RepoPath cfg)\<rparr>"
  have prev: "previous_state cfg s0 = prev"
    using assms(2,5) by (simp add: s0_def previous_state_def Get_Ensure current_def)
  have b0: "before_sync cfg prev (sy_store s0)"
    using current_ok [OF assms(4), of "cf_RepoPath cfg"] store_inv_shape [OF shape_ensure assms(4)] assms(5)
    by (simp add: before_sync_def s0_def) (simp add: current_def)
  obtain stage err r s1 where p: "run_state (prepare env Live cfg new_run) s0 = ((stage, err, r), s1)"
    by (metis surj_pair)
  have b1: "before_sync cfg prev (sy_store s1)" using b0 keepsD2 [OF store_prepare p] by simp
  have main: "run_state (AutoSyncCtx env Live cfg) s =
      (case err of None \<Rightarrow> run_state (sync_network env Live cfg prev r) s1 | Some x \<Rightarrow> (Some (Traced x), s1))"
    using assms(2,3) cancelled [of s1] p prev unfolding AutoSyncCtx_def with_store_def
    by (simp add: s0_def [symmetric] split: option.split)
  show ?thesis
  proof (cases err)
    case (Some x)
    then show ?thesis using main assms(2,6) b1 by (simp add: before_sync_def)
  next
    case None
    have "store_triple (before_sync cfg prev) (sync_network env Live cfg prev r)
        (\<lambda>res st. res \<noteq> None \<longrightarrow> before_sync cfg prev st)"
      by (rule sync_network_cancelled) (use cancelled assms(2) in auto)
    moreover have "run_state (sync_network env Live cfg prev r) s1 = (Some e, s')"
      using main None assms(6) by simp
    ultimately have "before_sync cfg prev (sy_store s')" using store_tripleD2 b1 by fastforce
    then show ?thesis using assms(2) by (simp add: before_sync_def)
  qed
qed

text \<open>An environment in which every context is cancelled.\<close>

definition cancelled_env :: "unit env" where
  "cancelled_env = (demo_env ''fatal: bad'')\<lparr>en_cancelled := \<lambda>_. Some Canceled\<rparr>"

definition demo_sys1 :: "unit sys" where
  "demo_sys1 = demo_sys\<lparr>sy_store := store_run NewRepoStateStore [OpEnsure ''/r'', OpError ''/r'' ''m'']\<rparr>"

theorem cancelled_sync_restores_state_witness:
  "same_but_seq (current (sy_store (snd (run_state (AutoSyncCtx cancelled_env Live demo_cfg) demo_sys1))) ''/r'')
     (current (sy_store demo_sys1) ''/r'')"
proof -
  let ?r = "run_state (AutoSyncCtx cancelled_env Live demo_cfg) demo_sys1"
  have "fst ?r \<noteq> None" by code_simp
  then obtain e s' where r: "?r = (Some e, s')" by (metis not_None_eq prod.collapse)
  have g: "Get (sy_store demo_sys1) (cf_RepoPath demo_cfg) = Some (current (sy_store demo_sys1) ''/r'')"
    by code_simp
  have "store_inv (sy_store demo_sys1)"
    unfolding demo_sys1_def by (simp del: store_run_Cons) (rule store_inv_run [OF store_inv_New])
  moreover have "cf_State demo_cfg" "\<not> cf_LocalOnly demo_cfg" "cf_RepoPath demo_cfg = ''/r''"
    by (simp_all add: demo_cfg_def)
  moreover have "en_cancelled cancelled_env w \<noteq> None" for w by (simp add: cancelled_env_def)
  ultimately show ?thesis using cancelled_sync_restores_state [OF _ _ _ _ g r] r by simp
qed

text \<open>
  The same failure is reported once: a failure adds at most one event, and when the previous
  state is the one that recording this failure leaves behind, it adds none.
\<close>

theorem repeated_failure_is_silent:
  assumes "cf_State cfg"
    and "run_state (mark_failure env cfg prev stage e) s1 = (u1, s2)"
    and "run_state (mark_failure env cfg (current (sy_store s2) (cf_RepoPath cfg)) stage e) s3 = (u2, s4)"
  shows "sy_events s4 = sy_events s3 \<and> length (sy_events s2) \<le> length (sy_events s1) + 1"
proof -
  let ?x = "current (sy_store s2) (cf_RepoPath cfg)"
  have "st_Status ?x = (if ClassifyError (Some e) = CodeNetwork \<or> ClassifyError (Some e) = CodeTimeout \<and> isNetworkTimeout e
      then StatusOffline else StatusError) \<and> st_ErrorCode ?x = ClassifyError (Some e) \<and>
      st_LastError ?x = errorMessage stage (Some e)"
    using assms(1,2)
    by (auto simp: mark_failure_def Let_def with_store_def emit_now_def emitEvent_def MarkOffline_def
        MarkErrorCode_def current_Update split: if_splits)
  then have "sy_events s4 = sy_events s3" by (intro mark_failure_events(2) [OF assms(3)]) simp
  then show ?thesis using mark_failure_events(1) [OF assms(2)] by auto
qed

theorem repeated_failure_is_silent_witness:
  "let e = Plain ''fatal: Authentication failed'';
       s2 = snd (run_state (mark_failure (demo_env []) demo_cfg (idle_state ''/r'') ''fetch'' e) demo_sys);
       s4 = snd (run_state (mark_failure (demo_env []) demo_cfg (current (sy_store s2) ''/r'') ''fetch'' e) s2)
   in sy_events s4 = sy_events s2"
proof -
  let ?e = "Plain ''fatal: Authentication failed''"
  let ?r = "run_state (mark_failure (demo_env []) demo_cfg (idle_state ''/r'') ''fetch'' ?e) demo_sys"
  have p: "cf_State demo_cfg" "cf_RepoPath demo_cfg = ''/r''" by (simp_all add: demo_cfg_def)
  show ?thesis
    using repeated_failure_is_silent [where cfg = demo_cfg and ?s3.0 = "snd ?r" and ?s1.0 = demo_sys
        and prev = "idle_state ''/r''" and env = "demo_env []" and stage = "''fetch''" and e = ?e,
        OF p(1) prod.collapse [symmetric] prod.collapse [symmetric]]
    unfolding Let_def p(2) by blast
qed

text \<open>
  C5. A conflict leaves everything the next sync needs: after a failure with a rebase conflict the
  state has the conflict status and code, the conflicting files and both refs, and the error is
  returned; with the same refs the next sync finds the conflict unchanged.
\<close>

theorem conflict_is_recorded:
  assumes "cf_State cfg"
    and "run_state (fail env ctx cfg prev r stage (RebaseConflictError conflicts head up)) s = (res, s')"
  shows "res = Some (Traced (RebaseConflictError conflicts head up)) \<and>
    (let x = current (sy_store s') (cf_RepoPath cfg)
     in st_Status x = StatusConflict \<and> st_ErrorCode x = CodeConflict \<and> st_Conflict x \<and>
        st_ConflictFiles x = conflicts \<and> st_ConflictHead x = head \<and> st_ConflictUp x = up)"
proof -
  let ?V = "\<lambda>v. \<exists>p n. v = ((StatusConflict, CodeConflict, ''rebase conflict'', []), p, (True, conflicts, head, up), n)"
  have "store_triple (\<lambda>_. True) (fail env ctx cfg prev r stage (RebaseConflictError conflicts head up))
      (\<lambda>res st. res = Some (Traced (RebaseConflictError conflicts head up)) \<and> ?V (verdict_of cfg st))"
    unfolding fail_def
    by (rule store_triple_frame_last [OF _ finish_then [where V = ?V]])
      (simp add: handleConflict_verdict [OF assms(1), simplified])
  then show ?thesis
    using store_tripleD2 [OF _ TrueI assms(2)] by (fastforce simp: verdict_def Let_def)
qed

theorem conflict_is_recorded_witness:
  "st_ConflictHead (current (sy_store (snd (run_state (fail (demo_env []) Live demo_cfg zero_state new_run ''rebase''
      (RebaseConflictError [''f''] ''h'' ''u'')) demo_sys))) ''/r'') = ''h''"
  using conflict_is_recorded [OF _ prod.collapse [symmetric], of demo_cfg "demo_env []" Live zero_state new_run
      "''rebase''" "[''f'']" "''h''" "''u''" demo_sys]
  by (simp add: Let_def) (simp add: demo_cfg_def)

end
