(* ===== verification/RepoConfig.thy ===== *)
theory RepoConfig
  imports Errors
begin

text \<open>
  \<open>common/repoconfig.go\<close>: the settings of a repository, kept in its git configuration.

  A number of seconds is a Go \<open>int\<close> and becomes a \<open>time.Duration\<close> by a 64-bit multiplication,
  whose wrap-around is written out (\<open>seconds\<close>). \<open>quote\<close> stands for the verb \<open>%q\<close> and \<open>stat\<close> for
  \<open>os.Stat\<close>; the outcome of running \<open>git config\<close> is an argument.
\<close>

section \<open>Definitions\<close>

definition DefaultPollInterval :: duration where "DefaultPollInterval = 600000000000"
definition MinPollInterval :: duration where "MinPollInterval = 30000000000"
definition MaxPollInterval :: duration where "MaxPollInterval = 86400000000000"
definition MaxBatchWindow :: duration where "MaxBatchWindow = 86400000000000"

definition SettingPollInterval :: string where [simp]: "SettingPollInterval = ''pollInterval''"
definition SettingBatchWindow :: string where [simp]: "SettingBatchWindow = ''batchWindow''"
definition SettingExec :: string where [simp]: "SettingExec = ''exec''"
definition SettingMessagePrefix :: string where [simp]: "SettingMessagePrefix = ''messagePrefix''"

definition settingGitKeys :: "(string \<times> string) list" where
  "settingGitKeys = [(SettingPollInterval, ''syncInterval''), (SettingBatchWindow, ''batchWindow''),
     (SettingExec, ''exec''), (SettingMessagePrefix, ''messagePrefix'')]"

definition SettingGitKey :: "string \<Rightarrow> string option" where
  "SettingGitKey setting = map_of settingGitKeys setting"

definition SettingNames :: "string list" where
  "SettingNames = [SettingPollInterval, SettingBatchWindow, SettingExec, SettingMessagePrefix]"

text \<open>The loop over the NUL-separated records of \<open>git config -z\<close>.\<close>

fun config_records :: "string list \<Rightarrow> (string \<times> string) list \<Rightarrow> (string \<times> string) list" where
  "config_records [] out = out"
| "config_records (rec # recs) out =
     (if rec = [] then config_records recs out
      else (case cut (CHR 0x0A) rec of
              (key, val, _) \<Rightarrow>
                config_records recs (AList.update (trim_prefix (to_lower key) ''auto-sync.'') val out)))"

definition ReadAutoSyncGitConfig ::
  "goerror option \<Rightarrow> string \<Rightarrow> string \<Rightarrow> goerror + (string \<times> string) list" where
  "ReadAutoSyncGitConfig runErr stdout stderr =
     (case runErr of
        Some e \<Rightarrow>
          (case as_exit e of
             Some (ExitError code _) \<Rightarrow>
               if code = 1 \<and> stderr = [] then Inr []
               else Inl (Plain (''git config: '' @ error_text e @ '': '' @ trim_space stderr))
           | _ \<Rightarrow> Inl (Plain (''git config: '' @ error_text e @ '': '' @ trim_space stderr)))
      | None \<Rightarrow> Inr (config_records (split_on (CHR 0x00) stdout) []))"

definition gitConfigValue :: "(string \<times> string) list \<Rightarrow> string \<Rightarrow> string \<times> bool" where
  "gitConfigValue raw gitKey =
     (case map_of raw (to_lower gitKey) of None \<Rightarrow> ([], False) | Some v \<Rightarrow> (trim_space v, True))"

record repo_settings =
  rset_PollInterval :: duration
  rset_BatchWindow :: duration
  rset_GitExec :: string
  rset_MessagePrefix :: string

definition seconds :: "go_int \<Rightarrow> duration" where
  "seconds secs = wrap64 (secs * 1000000000)"

definition checkExecutable :: "(string \<Rightarrow> stat_result) \<Rightarrow> string \<Rightarrow> goerror option" where
  "checkExecutable stat path =
     (case stat path of
        Inl e \<Rightarrow> Some e
      | Inr info \<Rightarrow> if fi_IsDir info then Some (Plain ''is a directory'') else None)"

text \<open>The four parts of \<open>ParseRepoSettings\<close>: a value and the warnings it gives.\<close>

definition parse_poll :: "(string \<Rightarrow> string) \<Rightarrow> string \<Rightarrow> duration \<times> string list" where
  "parse_poll quote v =
     (case atoi v of (secs, ok) \<Rightarrow>
        if \<not> ok then
          (DefaultPollInterval, [''auto-sync.syncInterval='' @ quote v @ '' is not a number, using default 600s''])
        else if seconds secs < MinPollInterval then
          (MinPollInterval, [''auto-sync.syncInterval='' @ itoa secs @ '' is below the minimum, using 30s''])
        else if seconds secs > MaxPollInterval then
          (MaxPollInterval, [''auto-sync.syncInterval='' @ itoa secs @ '' is above the maximum, using 86400s''])
        else (seconds secs, []))"

definition parse_batch :: "(string \<Rightarrow> string) \<Rightarrow> string \<Rightarrow> duration \<times> string list" where
  "parse_batch quote v =
     (case atoi v of (secs, ok) \<Rightarrow>
        if \<not> ok then (0, [''auto-sync.batchWindow='' @ quote v @ '' is not a number, using 0''])
        else if secs < 0 then (0, [''auto-sync.batchWindow='' @ itoa secs @ '' is negative, using 0''])
        else if seconds secs > MaxBatchWindow then
          (MaxBatchWindow, [''auto-sync.batchWindow='' @ itoa secs @ '' is above the maximum, using 86400s''])
        else (seconds secs, []))"

definition parse_exec ::
  "(string \<Rightarrow> string) \<Rightarrow> (string \<Rightarrow> stat_result) \<Rightarrow> string \<Rightarrow> string \<times> string list" where
  "parse_exec quote stat v =
     (case checkExecutable stat v of
        Some e \<Rightarrow> ([], [''auto-sync.exec='' @ quote v @ '' is unusable ('' @ error_text e @ ''), using git from PATH''])
      | None \<Rightarrow> (v, []))"

definition ParseRepoSettings ::
  "(string \<Rightarrow> string) \<Rightarrow> (string \<Rightarrow> stat_result) \<Rightarrow> (string \<times> string) list \<Rightarrow>
   repo_settings \<times> string list" where
  "ParseRepoSettings quote stat raw =
     (let poll = (case gitConfigValue raw ''syncInterval'' of (v, ok) \<Rightarrow>
                    if ok \<and> v \<noteq> [] then parse_poll quote v else (DefaultPollInterval, []));
          batch = (case gitConfigValue raw ''batchWindow'' of (v, ok) \<Rightarrow>
                    if ok \<and> v \<noteq> [] then parse_batch quote v else (0, []));
          exec = (case gitConfigValue raw ''exec'' of (v, ok) \<Rightarrow>
                    if ok \<and> v \<noteq> [] then parse_exec quote stat v else ([], []));
          msgPrefix = (case gitConfigValue raw ''messagePrefix'' of (v, ok) \<Rightarrow> if ok then v else [])
      in (\<lparr>rset_PollInterval = fst poll, rset_BatchWindow = fst batch, rset_GitExec = fst exec,
           rset_MessagePrefix = msgPrefix\<rparr>, snd poll @ snd batch @ snd exec))"

definition ValidateSetting ::
  "(string \<Rightarrow> string) \<Rightarrow> (string \<Rightarrow> stat_result) \<Rightarrow> string \<Rightarrow> string \<Rightarrow> goerror + string" where
  "ValidateSetting quote stat setting raw =
     (let v = trim_space raw in
      if setting = SettingPollInterval then
        (if v = [] then Inr []
         else (case atoi v of (secs, ok) \<Rightarrow>
                 if \<not> ok \<or> secs < 30 \<or> secs > 86400 then
                   Inl (CodedError CodeConfig (''pollInterval must be a whole number of seconds between 30 and 86400, got '' @ quote v))
                 else Inr (itoa secs)))
      else if setting = SettingBatchWindow then
        (if v = [] then Inr []
         else (case atoi v of (secs, ok) \<Rightarrow>
                 if \<not> ok \<or> secs < 0 \<or> secs > 86400 then
                   Inl (CodedError CodeConfig (''batchWindow must be a whole number of seconds between 0 and 86400, got '' @ quote v))
                 else Inr (itoa secs)))
      else if setting = SettingExec then
        (if v = [] then Inr []
         else (case checkExecutable stat v of
                 Some e \<Rightarrow> Inl (CodedError CodeConfig (''exec must point to a git executable: '' @ error_text e))
               | None \<Rightarrow> Inr v))
      else if setting = SettingMessagePrefix then
        (if CHR 0x0D \<in> set v \<or> CHR 0x0A \<in> set v
         then Inl (CodedError CodeConfig ''messagePrefix must be a single line'')
         else Inr v)
      else Inl (CodedError CodeConfig (''unknown setting: '' @ setting)))"

section \<open>Lemmas\<close>

lemma seconds_small: "0 \<le> secs \<Longrightarrow> secs \<le> 9223372036 \<Longrightarrow> seconds secs = secs * 1000000000"
  unfolding seconds_def by (rule wrap64_id) (simp_all add: min_int64_def max_int64_def)

lemma parse_poll_bounds:
  "MinPollInterval \<le> fst (parse_poll quote v) \<and> fst (parse_poll quote v) \<le> MaxPollInterval"
  by (auto simp: parse_poll_def MinPollInterval_def MaxPollInterval_def DefaultPollInterval_def
      split: prod.split)

lemma parse_batch_max: "fst (parse_batch quote v) \<le> MaxBatchWindow"
  by (auto simp: parse_batch_def MaxBatchWindow_def split: prod.split)

lemma poll_default: "MinPollInterval \<le> DefaultPollInterval \<and> DefaultPollInterval \<le> MaxPollInterval"
  by (simp add: MinPollInterval_def MaxPollInterval_def DefaultPollInterval_def)

definition default_settings :: repo_settings where
  "default_settings = \<lparr>rset_PollInterval = DefaultPollInterval, rset_BatchWindow = 0,
     rset_GitExec = [], rset_MessagePrefix = []\<rparr>"

text \<open>What a setting means: the default settings with one field changed.\<close>

definition meaning :: "string \<Rightarrow> string \<Rightarrow> repo_settings" where
  "meaning setting v =
     (if setting = SettingPollInterval then default_settings\<lparr>rset_PollInterval := fst (atoi v) * 1000000000\<rparr>
      else if setting = SettingBatchWindow then default_settings\<lparr>rset_BatchWindow := fst (atoi v) * 1000000000\<rparr>
      else if setting = SettingExec then default_settings\<lparr>rset_GitExec := v\<rparr>
      else default_settings\<lparr>rset_MessagePrefix := v\<rparr>)"

lemma lower_keys:
  "to_lower ''syncInterval'' = ''syncinterval''" "to_lower ''batchWindow'' = ''batchwindow''"
  "to_lower ''exec'' = ''exec''" "to_lower ''messagePrefix'' = ''messageprefix''"
  by code_simp+

lemma atoi_itoa_small: "0 \<le> i \<Longrightarrow> i \<le> 86400 \<Longrightarrow> atoi (itoa i) = (i, True)"
  by (rule atoi_itoa) (simp_all add: min_int64_def max_int64_def)

lemma parse_poll_valid:
  assumes "30 \<le> secs" and "secs \<le> 86400"
  shows "parse_poll quote (itoa secs) = (secs * 1000000000, [])"
  using assms seconds_small [of secs] atoi_itoa_small [of secs]
  by (simp add: parse_poll_def MinPollInterval_def MaxPollInterval_def)

lemma parse_batch_valid:
  assumes "0 \<le> secs" and "secs \<le> 86400"
  shows "parse_batch quote (itoa secs) = (secs * 1000000000, [])"
  using assms seconds_small [of secs] atoi_itoa_small [of secs]
  by (simp add: parse_batch_def MaxBatchWindow_def)

lemmas parse_one = ParseRepoSettings_def gitConfigValue_def lower_keys Let_def meaning_def
  default_settings_def

lemma to_lower_auto_sync: "to_lower (''auto-sync.'' @ k) = ''auto-sync.'' @ to_lower k"
  by (simp add: to_lower.simps lower_byte_def)

text \<open>What \<open>git config -z\<close> prints for a list of keys and values.\<close>

fun print_records :: "(string \<times> string) list \<Rightarrow> string" where
  "print_records [] = []"
| "print_records ((k, v) # kvs) = ''auto-sync.'' @ k @ [CHR 0x0A] @ v @ [CHR 0x00] @ print_records kvs"

lemma cut_append: "c \<notin> set a \<Longrightarrow> cut c (a @ c # b) = (a, b, True)"
  by (induction a) auto

lemma config_records_step:
  assumes "cut (CHR 0x0A) r = (''auto-sync.'' @ k, v, True)"
  shows "config_records (r # recs) out = config_records recs (AList.update (to_lower k) v out)"
proof -
  have "r \<noteq> []" using assms by auto
  moreover have "trim_prefix (''auto-sync.'' @ to_lower k) ''auto-sync.'' = to_lower k"
    by (simp add: trim_prefix_def)
  ultimately show ?thesis using assms to_lower_auto_sync [of k]
    by (simp only: config_records.simps if_False prod.case)
qed

lemma config_records_print:
  assumes "\<And>k v. (k, v) \<in> set kvs \<Longrightarrow> CHR 0x0A \<notin> set k \<and> CHR 0x00 \<notin> set k \<and> CHR 0x00 \<notin> set v"
  shows "config_records (split_on (CHR 0x00) (print_records kvs)) out =
    foldl (\<lambda>o' (k, v). AList.update (to_lower k) v o') out kvs"
  using assms
proof (induction kvs arbitrary: out)
  case Nil
  then show ?case by simp
next
  case (Cons kv kvs)
  obtain k v where kv: "kv = (k, v)" by (cases kv)
  let ?rec = "''auto-sync.'' @ k @ CHR 0x0A # v"
  have c: "CHR 0x0A \<notin> set k" "CHR 0x00 \<notin> set k" "CHR 0x00 \<notin> set v"
    using Cons.prems [of k v] kv by auto
  then have "split_on (CHR 0x00) (print_records (kv # kvs)) =
      ?rec # split_on (CHR 0x00) (print_records kvs)"
    using split_on_append [of "CHR 0x00" ?rec "print_records kvs"] kv by auto
  moreover have "cut (CHR 0x0A) ?rec = (''auto-sync.'' @ k, v, True)"
    using cut_append [of "CHR 0x0A" "''auto-sync.'' @ k" v] c(1) by auto
  ultimately have "config_records (split_on (CHR 0x00) (print_records (kv # kvs))) out =
      config_records (split_on (CHR 0x00) (print_records kvs)) (AList.update (to_lower k) v out)"
    by (simp only: config_records_step)
  also have "\<dots> = foldl (\<lambda>o' (k, v). AList.update (to_lower k) v o') (AList.update (to_lower k) v out) kvs"
    using Cons.prems by (intro Cons.IH) (meson list.set_intros(2))
  finally show ?case by (simp only: kv foldl_Cons prod.case)
qed

lemma map_of_foldl_update:
  "map_of (foldl (\<lambda>o' (k, v). AList.update (g k) v o') out kvs) q =
     (case find (\<lambda>(k, v). g k = q) (rev kvs) of None \<Rightarrow> map_of out q | Some (_, v) \<Rightarrow> Some v)"
  by (induction kvs rule: rev_induct) (auto split: prod.split)

section \<open>Properties\<close>

text \<open>
  Whatever the git configuration says, the poll interval the daemon uses is between thirty
  seconds and a day, and the batch window is at most a day.
\<close>

theorem ParseRepoSettings_bounds:
  "let s = fst (ParseRepoSettings quote stat raw)
   in MinPollInterval \<le> rset_PollInterval s \<and> rset_PollInterval s \<le> MaxPollInterval \<and>
      rset_BatchWindow s \<le> MaxBatchWindow"
  using parse_poll_bounds [of quote] parse_batch_max [of quote] poll_default
  by (simp add: ParseRepoSettings_def Let_def split: prod.split) (simp add: MaxBatchWindow_def)

text \<open>
  A setting that \<open>ValidateSetting\<close> accepts means what was asked for: the text it returns, read
  back from the git configuration, gives exactly that setting, every other setting at its default,
  and no warning.
\<close>

theorem ValidateSetting_then_Parse:
  assumes "ValidateSetting quote stat setting raw = Inr v" and "v \<noteq> []"
    and "SettingGitKey setting = Some k"
  shows "ParseRepoSettings quote stat [(to_lower k, v)] = (meaning setting v, [])"
proof -
  consider "setting = SettingPollInterval" "k = ''syncInterval''"
    | "setting = SettingBatchWindow" "k = ''batchWindow''"
    | "setting = SettingExec" "k = ''exec''"
    | "setting = SettingMessagePrefix" "k = ''messagePrefix''"
    using assms(3) by (auto simp: SettingGitKey_def settingGitKeys_def split: if_splits)
  then show ?thesis
  proof cases
    case 1
    let ?secs = "fst (atoi (trim_space raw))"
    have secs: "30 \<le> ?secs" "?secs \<le> 86400" "v = itoa ?secs"
      using assms(1,2) 1
      by (auto simp: ValidateSetting_def Let_def case_prod_beta not_less split: if_splits)
    then show ?thesis
      using 1 assms(2) parse_poll_valid [of ?secs quote] atoi_itoa_small [of ?secs] trim_space_itoa [of ?secs]
      by (simp add: parse_one)
  next
    case 2
    let ?secs = "fst (atoi (trim_space raw))"
    have secs: "0 \<le> ?secs" "?secs \<le> 86400" "v = itoa ?secs"
      using assms(1,2) 2
      by (auto simp: ValidateSetting_def Let_def case_prod_beta not_less split: if_splits)
    then show ?thesis
      using 2 assms(2) parse_batch_valid [of ?secs quote] atoi_itoa_small [of ?secs] trim_space_itoa [of ?secs]
      by (simp add: parse_one)
  next
    case 3
    then have "checkExecutable stat v = None" "v = trim_space raw"
      using assms(1,2) by (auto simp: ValidateSetting_def Let_def split: if_splits option.splits)
    then show ?thesis using 3 assms(2) by (simp add: parse_one parse_exec_def)
  next
    case 4
    then have "v = trim_space raw"
      using assms(1) by (auto simp: ValidateSetting_def Let_def split: if_splits)
    then show ?thesis using 4 by (simp add: parse_one)
  qed
qed

theorem ValidateSetting_then_Parse_witness:
  "ParseRepoSettings id (\<lambda>_. Inl (Plain ''no'')) [(to_lower ''syncInterval'', ''90'')] =
     (meaning ''pollInterval'' ''90'', [])"
  by (rule ValidateSetting_then_Parse [where raw = "'' 90 ''"]) code_simp+

text \<open>
  Reading the settings inverts what git prints: for any keys and values without the
  separators, the value read for a key is the one of the last record whose key is the same up to
  case, and a key git did not print is absent.
\<close>

theorem ReadAutoSyncGitConfig_parses:
  assumes "\<And>k v. (k, v) \<in> set kvs \<Longrightarrow> CHR 0x0A \<notin> set k \<and> CHR 0x00 \<notin> set k \<and> CHR 0x00 \<notin> set v"
  shows "\<exists>out. ReadAutoSyncGitConfig None (print_records kvs) stderr = Inr out \<and>
    (\<forall>q. map_of out q =
      (case find (\<lambda>(k, v). to_lower k = q) (rev kvs) of None \<Rightarrow> None | Some (_, v) \<Rightarrow> Some v))"
  by (simp add: ReadAutoSyncGitConfig_def config_records_print [OF assms] map_of_foldl_update
      split: option.split)

theorem ReadAutoSyncGitConfig_parses_witness:
  "\<exists>out. ReadAutoSyncGitConfig None
      (print_records [(''exec'', ''/a''), (''batchwindow'', ''5''), (''exec'', ''/b'')]) [] = Inr out \<and>
    map_of out ''exec'' = Some ''/b''"
proof -
  let ?kvs = "[(''exec'', ''/a''), (''batchwindow'', ''5''), (''exec'', ''/b'')] :: (string \<times> string) list"
  have "find (\<lambda>(k, v). to_lower k = ''exec'') (rev ?kvs) = Some (''exec'', ''/b'')" by code_simp
  moreover have "\<exists>out. ReadAutoSyncGitConfig None (print_records ?kvs) [] = Inr out \<and>
    (\<forall>q. map_of out q =
      (case find (\<lambda>(k, v). to_lower k = q) (rev ?kvs) of None \<Rightarrow> None | Some (_, v) \<Rightarrow> Some v))"
    by (rule ReadAutoSyncGitConfig_parses) auto
  ultimately show ?thesis by (metis option.simps(5) case_prod_conv)
qed

text \<open>
  The range checks compare after a multiplication that can wrap around: a batch window of
  9223372037 seconds is accepted as a negative duration and a poll interval of 18446744104 seconds
  as one of about thirty seconds, both without a warning, although both are far above the maximum.
\<close>

theorem seconds_overflow_accepted:
  "ParseRepoSettings quote stat [(''batchwindow'', ''9223372037'')] =
     (default_settings\<lparr>rset_BatchWindow := - 9223372036709551616\<rparr>, []) \<and>
   ParseRepoSettings quote stat [(''syncinterval'', ''18446744104'')] =
     (default_settings\<lparr>rset_PollInterval := 30290448384\<rparr>, [])"
proof -
  have t: "trim_space ''9223372037'' = ''9223372037''" "trim_space ''18446744104'' = ''18446744104''"
    by code_simp+
  have a: "atoi ''9223372037'' = (9223372037, True)" "atoi ''18446744104'' = (18446744104, True)"
    by code_simp+
  have s: "seconds 9223372037 = - 9223372036709551616" "seconds 18446744104 = 30290448384"
    by (simp_all add: seconds_def wrap64_def)
  show ?thesis
    by (simp add: parse_one t parse_poll_def parse_batch_def a s MinPollInterval_def
        MaxPollInterval_def MaxBatchWindow_def)
qed

end
