(* ===== verification/Scheduler.thy ===== *)
theory Scheduler
  imports AutoSync RepoConfig
begin

text \<open>
  \<open>common/watch.go\<close> and \<open>common/repomissing.go\<close>: when a repository is synced.

  The loop of \<open>syncScheduler.run\<close> is a step relation: one rule for each case of its \<open>select\<close>, and
  one for what other goroutines and the outside may do in between (time, files, the pause flag,
  the channels). A timer is the time at which it fires; a zero \<open>time.Time\<close> is \<open>None\<close>. The
  function that syncs is a parameter, as in the source. \<open>sd_fired\<close>, which no code reads, records
  every call of it: whether it was local-only, whether forced, and when.
\<close>

section \<open>Constants and state\<close>

definition RepoCheckInterval :: duration where "RepoCheckInterval = 10000000000"
definition syncCooldown :: duration where "syncCooldown = 5000000000"
definition errorBackoffMin :: duration where "errorBackoffMin = 1000000000"
definition errorBackoffMax :: duration where "errorBackoffMax = 60000000000"
definition offlineBackoffMin :: duration where "offlineBackoffMin = 30000000000"
definition offlineBackoffMax :: duration where "offlineBackoffMax = 600000000000"

record 'w sched =
  sd_sys :: "'w sys"
  sd_errorBackoff :: duration
  sd_offlineBackoff :: duration
  sd_holdUntil :: "int option"
  sd_cooldownUntil :: "int option"
  sd_missing :: bool
  sd_fs :: "int option"
  sd_batching :: bool
  sd_retry :: "(int \<times> string) option"
  sd_paused :: bool
  sd_trigger :: nat
  sd_immediate :: bool
  sd_force :: bool
  sd_fired :: "(bool \<times> bool \<times> int) list"

definition newSyncScheduler :: "'w sys \<Rightarrow> 'w sched" where
  "newSyncScheduler sys = \<lparr>sd_sys = sys, sd_errorBackoff = errorBackoffMin,
     sd_offlineBackoff = offlineBackoffMin, sd_holdUntil = None, sd_cooldownUntil = None,
     sd_missing = False, sd_fs = None, sd_batching = False, sd_retry = None, sd_paused = False,
     sd_trigger = 0, sd_immediate = False, sd_force = False, sd_fired = []\<rparr>"

definition NewRepoConfig ::
  "(string \<Rightarrow> string) \<Rightarrow> (string \<Rightarrow> stat_result) \<Rightarrow> (goerror + (string \<times> string) list) \<Rightarrow> string \<Rightarrow>
   goerror + repo_config" where
  "NewRepoConfig quote stat read repoPath =
     (case stat repoPath of
        Inl e \<Rightarrow> Inl (Traced e)
      | Inr info \<Rightarrow>
          if \<not> fi_IsDir info then Inl (Traced (Plain (repoPath @ '' is not a directory'')))
          else
            let raw = (case read of Inl _ \<Rightarrow> [] | Inr m \<Rightarrow> m);
                settings = fst (ParseRepoSettings quote stat raw)
            in Inr \<lparr>cf_RepoPath = repoPath, cf_PollInterval = rset_PollInterval settings,
                 cf_FSLag = 1000000000, cf_BatchWindow = rset_BatchWindow settings,
                 cf_GitExec = rset_GitExec settings, cf_Env = [], cf_Emitter = False, cf_State = False,
                 cf_Force = False, cf_LocalOnly = False,
                 cf_MessagePrefix = rset_MessagePrefix settings, cf_InitialDelay = 0\<rparr>)"

text \<open>A program on the system, run inside the scheduler.\<close>

definition on_sys :: "('w sys, 'a) state \<Rightarrow> ('w sched, 'a) state" where
  "on_sys m = State (\<lambda>s. case run_state m (sd_sys s) of (x, y) \<Rightarrow> (x, s\<lparr>sd_sys := y\<rparr>))"

definition sched_now :: "'w env \<Rightarrow> 'w sched \<Rightarrow> int" where
  "sched_now env s = now_ns env (sd_sys s)"

section \<open>The folder of the repository\<close>

definition RepoMissingMessage :: "string \<Rightarrow> string" where
  "RepoMissingMessage path = ''Repository folder not found: '' @ path"

definition isNotDirErr :: "goerror \<Rightarrow> bool" where
  "isNotDirErr e = list_ex (\<lambda>x. case x of Errno msg _ \<Rightarrow> msg = ''not a directory'' | _ \<Rightarrow> False) (chain e)"

definition os_IsNotExist :: "goerror \<Rightarrow> bool" where
  "os_IsNotExist e = (case e of PathError _ _ x \<Rightarrow> is_link ErrNotExist x | x \<Rightarrow> is_link ErrNotExist x)"

definition RepoDirMissing :: "'w env \<Rightarrow> string \<Rightarrow> 'w sys \<Rightarrow> bool" where
  "RepoDirMissing env path s =
     (case en_stat env (sy_world s) path of
        Inl e \<Rightarrow> os_IsNotExist e \<or> isNotDirErr e
      | Inr info \<Rightarrow> \<not> fi_IsDir info)"

definition ReportRepoMissing :: "'w env \<Rightarrow> repo_config \<Rightarrow> ('w sys, unit) state" where
  "ReportRepoMissing env cfg =
     (let path = cf_RepoPath cfg; msg = RepoMissingMessage path in
      do {
        changed \<leftarrow> ask (\<lambda>s. if cf_State cfg then fst (MarkRepoMissing (sy_store s) path msg) else True);
        with_store cfg (\<lambda>st. snd (MarkRepoMissing st path msg));
        if \<not> changed then State_Monad.return ()
        else emit_now env cfg (\<lambda>now. NewCodedEvent now EventPreflight path msg CodeRepoMissing)
      })"

definition ReportRepoFound :: "'w env \<Rightarrow> repo_config \<Rightarrow> ('w sys, unit) state" where
  "ReportRepoFound env cfg =
     do {
       cleared \<leftarrow> ask (\<lambda>s. cf_State cfg \<and> fst (ClearRepoMissing (sy_store s) (cf_RepoPath cfg)));
       with_store cfg (\<lambda>st. snd (ClearRepoMissing st (cf_RepoPath cfg)));
       if \<not> cleared then State_Monad.return ()
       else emit_now env cfg (\<lambda>now. NewEvent now EventRecovered (cf_RepoPath cfg)
              ''repository folder found again'' StatusIdle)
     }"

definition checkExists :: "'w env \<Rightarrow> repo_config \<Rightarrow> ('w sched, bool) state" where
  "checkExists env cfg =
     do {
       missing \<leftarrow> ask (\<lambda>s. RepoDirMissing env (cf_RepoPath cfg) (sd_sys s));
       if \<not> missing then State_Monad.return True
       else do {
         upd (\<lambda>s. s\<lparr>sd_missing := True\<rparr>);
         on_sys (ReportRepoMissing env cfg);
         State_Monad.return False
       }
     }"

section \<open>Timers\<close>

definition resetFSTimer :: "'w env \<Rightarrow> duration \<Rightarrow> ('w sched, unit) state" where
  "resetFSTimer env d = upd (\<lambda>s. s\<lparr>sd_fs := Some (sched_now env s + d)\<rparr>)"

definition onFileEvent :: "'w env \<Rightarrow> repo_config \<Rightarrow> ('w sched, unit) state" where
  "onFileEvent env cfg =
     (if 0 < cf_BatchWindow cfg then
        do {
          resetFSTimer env (cf_BatchWindow cfg);
          upd (\<lambda>s. s\<lparr>sd_batching := True\<rparr>);
          now \<leftarrow> ask (sched_now env);
          on_sys (with_store cfg (\<lambda>st. SetBatchPending st (cf_RepoPath cfg) True
            ((now + cf_BatchWindow cfg) div 1000000000)))
        }
      else
        do {
          wait \<leftarrow> ask (\<lambda>s. case sd_cooldownUntil s of None \<Rightarrow> 0 | Some t \<Rightarrow> t - sched_now env s);
          resetFSTimer env (if 0 < wait then cf_FSLag cfg + wait else cf_FSLag cfg)
        })"

definition disarmFS :: "repo_config \<Rightarrow> ('w sched, unit) state" where
  "disarmFS cfg =
     do {
       upd (\<lambda>s. s\<lparr>sd_fs := None\<rparr>);
       batching \<leftarrow> ask sd_batching;
       if batching then
         do {
           upd (\<lambda>s. s\<lparr>sd_batching := False\<rparr>);
           on_sys (with_store cfg (\<lambda>st. SetBatchPending st (cf_RepoPath cfg) False 0))
         }
       else State_Monad.return ()
     }"

definition armRetry :: "'w env \<Rightarrow> duration \<Rightarrow> string \<Rightarrow> ('w sched, unit) state" where
  "armRetry env d label =
     upd (\<lambda>s. if sd_retry s \<noteq> None then s
              else s\<lparr>sd_retry := Some (sched_now env s + (if d < 0 then 0 else d), label)\<rparr>)"

definition stopRetry :: "('w sched, unit) state" where
  "stopRetry = upd (\<lambda>s. s\<lparr>sd_retry := None\<rparr>)"

definition drainChannel :: "('w sched, bool) state" where
  "drainChannel =
     do {
       n \<leftarrow> ask sd_trigger;
       upd (\<lambda>s. s\<lparr>sd_trigger := 0\<rparr>);
       State_Monad.return (0 < n)
     }"

definition minDuration :: "duration \<Rightarrow> duration \<Rightarrow> duration" where
  "minDuration a b = (if a < b then a else b)"

section \<open>Firing\<close>

definition execute ::
  "'w env \<Rightarrow> (repo_config \<Rightarrow> ('w sys, goerror option) state) \<Rightarrow> repo_config \<Rightarrow> repo_config \<Rightarrow>
   ('w sched, bool \<times> goerror option) state" where
  "execute env syncFn cfg run =
     do {
       cerr \<leftarrow> ask (\<lambda>s. ctx_err env Live (sd_sys s));
       if cerr \<noteq> None then State_Monad.return (False, None)
       else do {
         upd (\<lambda>s. s\<lparr>sd_fired := sd_fired s @ [(cf_LocalOnly run, cf_Force run, sched_now env s)]\<rparr>);
         err \<leftarrow> on_sys (syncFn run);
         upd (\<lambda>s. s\<lparr>sd_cooldownUntil := Some (sched_now env s + syncCooldown)\<rparr>);
         cerr2 \<leftarrow> ask (\<lambda>s. ctx_err env Live (sd_sys s));
         if cerr2 \<noteq> None then State_Monad.return (False, err)
         else do {
           drained \<leftarrow> drainChannel;
           (if drained then onFileEvent env cfg else State_Monad.return ());
           State_Monad.return (True, err)
         }
       }
     }"

definition localCommitAllowed :: "repo_config \<Rightarrow> 'w sys \<Rightarrow> bool" where
  "localCommitAllowed cfg s =
     (if \<not> cf_State cfg then True
      else (case Get (sy_store s) (cf_RepoPath cfg) of None \<Rightarrow> True | Some st \<Rightarrow> st_Status st \<noteq> StatusPreflight))"

definition isOffline :: "repo_config \<Rightarrow> 'w sys \<Rightarrow> bool" where
  "isOffline cfg s =
     (if \<not> cf_State cfg then False
      else (case Get (sy_store s) (cf_RepoPath cfg) of None \<Rightarrow> False | Some st \<Rightarrow> st_Status st = StatusOffline))"

definition fireLocal ::
  "'w env \<Rightarrow> (repo_config \<Rightarrow> ('w sys, goerror option) state) \<Rightarrow> repo_config \<Rightarrow> ('w sched, unit) state" where
  "fireLocal env syncFn cfg =
     do {
       disarmFS cfg;
       paused \<leftarrow> ask sd_paused;
       if paused then State_Monad.return ()
       else do {
         present \<leftarrow> checkExists env cfg;
         if \<not> present then State_Monad.return ()
         else do { execute env syncFn cfg (cfg\<lparr>cf_LocalOnly := True\<rparr>); State_Monad.return () }
       }
     }"

text \<open>What \<open>fire\<close> does with the result of a sync that ran.\<close>

definition after_sync ::
  "'w env \<Rightarrow> repo_config \<Rightarrow> goerror option \<Rightarrow> ('w sched, unit) state" where
  "after_sync env cfg err =
     do {
       now \<leftarrow> ask (sched_now env);
       offline \<leftarrow> ask (\<lambda>s. isOffline cfg (sd_sys s));
       gone \<leftarrow> ask (\<lambda>s. RepoDirMissing env (cf_RepoPath cfg) (sd_sys s));
       if err = None then
         upd (\<lambda>s. s\<lparr>sd_errorBackoff := errorBackoffMin, sd_offlineBackoff := offlineBackoffMin,
                    sd_holdUntil := None\<rparr>)
       else if offline then
         do {
           delay \<leftarrow> ask sd_offlineBackoff;
           upd (\<lambda>s. s\<lparr>sd_offlineBackoff := minDuration (sd_offlineBackoff s * 2) offlineBackoffMax,
                      sd_errorBackoff := errorBackoffMin, sd_holdUntil := Some (now + delay)\<rparr>);
           on_sys (with_store cfg (\<lambda>st. SetNextRetry st (cf_RepoPath cfg) ((now + delay) div 1000000000)));
           armRetry env delay ''offline-retry''
         }
       else if gone then do { checkExists env cfg; State_Monad.return () }
       else
         upd (\<lambda>s. s\<lparr>sd_offlineBackoff := offlineBackoffMin, sd_holdUntil := Some (now + sd_errorBackoff s),
                    sd_errorBackoff := minDuration (sd_errorBackoff s * 2) errorBackoffMax\<rparr>)
     }"

definition fire ::
  "'w env \<Rightarrow> (repo_config \<Rightarrow> ('w sys, goerror option) state) \<Rightarrow> repo_config \<Rightarrow> bool \<Rightarrow> ('w sched, unit) state" where
  "fire env syncFn cfg force =
     do {
       disarmFS cfg;
       paused \<leftarrow> ask sd_paused;
       if paused then State_Monad.return ()
       else do {
         present \<leftarrow> checkExists env cfg;
         if \<not> present then State_Monad.return ()
         else do {
           stopRetry;
           (ran, err) \<leftarrow> execute env syncFn cfg (cfg\<lparr>cf_Force := force\<rparr>);
           if \<not> ran then State_Monad.return () else after_sync env cfg err
         }
       }
     }"

definition hold_wait :: "'w env \<Rightarrow> 'w sched \<Rightarrow> duration" where
  "hold_wait env s = (case sd_holdUntil s of None \<Rightarrow> 0 | Some t \<Rightarrow> t - sched_now env s)"

definition request ::
  "'w env \<Rightarrow> (repo_config \<Rightarrow> ('w sys, goerror option) state) \<Rightarrow> repo_config \<Rightarrow> string \<Rightarrow> bool \<Rightarrow>
   ('w sched, unit) state" where
  "request env syncFn cfg label fileEvent =
     do {
       wait \<leftarrow> ask (hold_wait env);
       if 0 < wait then
         do {
           allowed \<leftarrow> ask (\<lambda>s. localCommitAllowed cfg (sd_sys s));
           (if fileEvent \<and> allowed then fireLocal env syncFn cfg else State_Monad.return ());
           armRetry env wait label
         }
       else fire env syncFn cfg False
     }"

section \<open>The loop\<close>

definition on_immediate ::
  "'w env \<Rightarrow> (repo_config \<Rightarrow> ('w sys, goerror option) state) \<Rightarrow> repo_config \<Rightarrow> ('w sched, unit) state" where
  "on_immediate env syncFn cfg =
     do {
       upd (\<lambda>s. s\<lparr>sd_immediate := False\<rparr>);
       force \<leftarrow> ask sd_force;
       upd (\<lambda>s. s\<lparr>sd_force := False\<rparr>);
       fire env syncFn cfg force
     }"

definition on_trigger :: "'w env \<Rightarrow> repo_config \<Rightarrow> ('w sched, unit) state" where
  "on_trigger env cfg =
     do {
       upd (\<lambda>s. s\<lparr>sd_trigger := sd_trigger s - 1\<rparr>);
       present \<leftarrow> checkExists env cfg;
       if present then onFileEvent env cfg else State_Monad.return ()
     }"

definition on_fs_timer ::
  "'w env \<Rightarrow> (repo_config \<Rightarrow> ('w sys, goerror option) state) \<Rightarrow> repo_config \<Rightarrow> ('w sched, unit) state" where
  "on_fs_timer env syncFn cfg =
     do {
       label \<leftarrow> ask (\<lambda>s. if sd_batching s then ''batch'' else ''fs-event'');
       disarmFS cfg;
       request env syncFn cfg label True
     }"

definition on_retry_timer ::
  "'w env \<Rightarrow> (repo_config \<Rightarrow> ('w sys, goerror option) state) \<Rightarrow> repo_config \<Rightarrow> string \<Rightarrow> ('w sched, unit) state" where
  "on_retry_timer env syncFn cfg label = do { stopRetry; request env syncFn cfg label False }"

text \<open>\<open>start\<close>: the state in which the loop begins.\<close>

definition start :: "'w env \<Rightarrow> repo_config \<Rightarrow> 'w sys \<Rightarrow> 'w sched" where
  "start env cfg sys = snd (run_state (armRetry env (cf_InitialDelay cfg) ''initial'') (newSyncScheduler sys))"

datatype select_case = Immediate | Trigger | FsTimer | RetryTimer | PollTick | ExistTick

text \<open>The program of a case, and whether its channel is ready.\<close>

fun handle ::
  "'w env \<Rightarrow> (repo_config \<Rightarrow> ('w sys, goerror option) state) \<Rightarrow> repo_config \<Rightarrow> select_case \<Rightarrow> 'w sched \<Rightarrow> 'w sched" where
  "handle env syncFn cfg Immediate s = snd (run_state (on_immediate env syncFn cfg) s)"
| "handle env syncFn cfg Trigger s = snd (run_state (on_trigger env cfg) s)"
| "handle env syncFn cfg FsTimer s = snd (run_state (on_fs_timer env syncFn cfg) s)"
| "handle env syncFn cfg RetryTimer s =
     snd (run_state (on_retry_timer env syncFn cfg (case sd_retry s of None \<Rightarrow> [] | Some (_, l) \<Rightarrow> l)) s)"
| "handle env syncFn cfg PollTick s = snd (run_state (request env syncFn cfg ''poll'' False) s)"
| "handle env syncFn cfg ExistTick s = snd (run_state (checkExists env cfg) s)"

fun ready :: "'w env \<Rightarrow> select_case \<Rightarrow> 'w sched \<Rightarrow> bool" where
  "ready env Immediate s = sd_immediate s"
| "ready env Trigger s = (0 < sd_trigger s)"
| "ready env FsTimer s = (case sd_fs s of None \<Rightarrow> False | Some t \<Rightarrow> t \<le> sched_now env s)"
| "ready env RetryTimer s = (case sd_retry s of None \<Rightarrow> False | Some (t, _) \<Rightarrow> t \<le> sched_now env s)"
| "ready env PollTick s = True"
| "ready env ExistTick s = True"

inductive sched_step ::
  "'w env \<Rightarrow> (repo_config \<Rightarrow> ('w sys, goerror option) state) \<Rightarrow> repo_config \<Rightarrow> 'w sched \<Rightarrow> 'w sched \<Rightarrow> bool"
  for env syncFn cfg where
  select: "\<not> sd_missing s \<Longrightarrow> ctx_err env Live (sd_sys s) = None \<Longrightarrow> ready env c s \<Longrightarrow>
    sched_step env syncFn cfg s (handle env syncFn cfg c s)"
| outside: "sched_step env syncFn cfg s
    (s\<lparr>sd_sys := sys', sd_paused := p, sd_trigger := n, sd_immediate := i, sd_force := f\<rparr>)"

inductive reachable ::
  "'w env \<Rightarrow> (repo_config \<Rightarrow> ('w sys, goerror option) state) \<Rightarrow> repo_config \<Rightarrow> 'w sched \<Rightarrow> bool"
  for env syncFn cfg where
  begin_loop: "reachable env syncFn cfg (start env cfg sys)"
| more: "reachable env syncFn cfg s \<Longrightarrow> sched_step env syncFn cfg s s' \<Longrightarrow> reachable env syncFn cfg s'"

inductive_cases sched_stepE: "sched_step env syncFn cfg s s'"

section \<open>Back-off\<close>

text \<open>What the scheduler needs of a back-off: a positive least delay and a greatest one.\<close>

locale backoff =
  fixes lo hi :: int
  assumes lo_pos: "0 < lo" and lo_le_hi: "lo \<le> hi"
begin

lemma bounds: "lo \<le> b \<Longrightarrow> b \<le> hi \<Longrightarrow> lo \<le> minDuration (b * 2) hi \<and> minDuration (b * 2) hi \<le> hi"
  using lo_pos lo_le_hi by (auto simp: minDuration_def)

lemma grows: "lo \<le> b \<Longrightarrow> b \<le> hi \<Longrightarrow> b \<le> minDuration (b * 2) hi"
  using lo_pos by (auto simp: minDuration_def)

lemma iterate: "((\<lambda>b. minDuration (b * 2) hi) ^^ n) lo = min (lo * 2 ^ n) hi"
proof (induction n)
  case 0
  then show ?case using lo_le_hi by simp
next
  case (Suc n)
  have "0 < lo * 2 ^ n" using lo_pos by simp
  then show ?case using Suc lo_le_hi lo_pos by (auto simp: minDuration_def min_def)
qed

end

interpretation err_backoff: backoff errorBackoffMin errorBackoffMax
  by unfold_locales (simp_all add: errorBackoffMin_def errorBackoffMax_def)

interpretation off_backoff: backoff offlineBackoffMin offlineBackoffMax
  by unfold_locales (simp_all add: offlineBackoffMin_def offlineBackoffMax_def)

section \<open>The invariant of the loop\<close>

definition sched_ok :: "'w sched \<Rightarrow> bool" where
  "sched_ok s \<longleftrightarrow>
     errorBackoffMin \<le> sd_errorBackoff s \<and> sd_errorBackoff s \<le> errorBackoffMax \<and>
     offlineBackoffMin \<le> sd_offlineBackoff s \<and> sd_offlineBackoff s \<le> offlineBackoffMax \<and>
     (sd_batching s \<longrightarrow> sd_fs s \<noteq> None)"

lemma run_on_sys [simp]:
  "run_state (on_sys m) s = (fst (run_state m (sd_sys s)), s\<lparr>sd_sys := snd (run_state m (sd_sys s))\<rparr>)"
  by (simp add: on_sys_def split_beta)

lemma sched_ok_sys [simp]: "sched_ok (s\<lparr>sd_sys := y\<rparr>) = sched_ok s"
  by (simp add: sched_ok_def)

lemma ok_on_sys [triple_rules]: "triple sched_ok (on_sys m) (\<lambda>_. sched_ok)"
  by (simp add: triple_def)

lemma ok_upd: "(\<And>s. sched_ok s \<Longrightarrow> sched_ok (f s)) \<Longrightarrow> triple sched_ok (upd f) (\<lambda>_. sched_ok)"
  by (rule triple_upd)

lemma ok_ask: "triple sched_ok (ask f) (\<lambda>_. sched_ok)"
  by (rule triple_ask)

lemma ok_return: "triple sched_ok (State_Monad.return x) (\<lambda>_. sched_ok)"
  by (rule triple_return)

lemma ok_bind:
  "triple sched_ok m (\<lambda>_. sched_ok) \<Longrightarrow> (\<And>x. triple sched_ok (k x) (\<lambda>_. sched_ok)) \<Longrightarrow>
    triple sched_ok (State_Monad.bind m k) (\<lambda>_. sched_ok)"
  by (rule triple_bind)

lemmas ok_rules = ok_bind ok_on_sys ok_ask ok_return triple_if triple_prod

lemma ok_checkExists: "triple sched_ok (checkExists env cfg) (\<lambda>_. sched_ok)"
  unfolding checkExists_def by (intro ok_rules ok_upd) (simp add: sched_ok_def)

lemma ok_onFileEvent: "triple sched_ok (onFileEvent env cfg) (\<lambda>_. sched_ok)"
proof -
  have batch: "triple sched_ok
      (do { resetFSTimer env d; upd (\<lambda>s. s\<lparr>sd_batching := True\<rparr>); now \<leftarrow> ask (sched_now env); on_sys (m now) })
      (\<lambda>_. sched_ok)" for d and m :: "int \<Rightarrow> ('a sys, unit) state"
    by (auto simp: triple_def resetFSTimer_def sched_ok_def)
  show ?thesis
    unfolding onFileEvent_def
    by (intro triple_if batch ok_bind ok_ask)
      (auto simp: resetFSTimer_def sched_ok_def intro!: ok_upd)
qed

lemma ok_disarmFS: "triple sched_ok (disarmFS cfg) (\<lambda>_. sched_ok)"
  by (auto simp: triple_def disarmFS_def sched_ok_def)

lemma ok_armRetry: "triple sched_ok (armRetry env d l) (\<lambda>_. sched_ok)"
  unfolding armRetry_def by (rule ok_upd) (simp add: sched_ok_def)

lemma ok_stopRetry: "triple sched_ok stopRetry (\<lambda>_. sched_ok)"
  unfolding stopRetry_def by (rule ok_upd) (simp add: sched_ok_def)

lemma ok_execute: "triple sched_ok (execute env syncFn cfg run) (\<lambda>_. sched_ok)"
  unfolding execute_def drainChannel_def
  by (intro ok_rules ok_upd ok_onFileEvent) (simp_all add: sched_ok_def)

lemma ok_fireLocal: "triple sched_ok (fireLocal env syncFn cfg) (\<lambda>_. sched_ok)"
  unfolding fireLocal_def by (intro ok_rules ok_disarmFS ok_checkExists ok_execute)

lemma ok_after_sync: "triple sched_ok (after_sync env cfg err) (\<lambda>_. sched_ok)"
  unfolding after_sync_def
  by (intro ok_rules ok_upd ok_armRetry ok_checkExists)
    (use err_backoff.bounds off_backoff.bounds err_backoff.lo_le_hi off_backoff.lo_le_hi in
      \<open>auto simp: sched_ok_def\<close>)

lemma ok_fire: "triple sched_ok (fire env syncFn cfg force) (\<lambda>_. sched_ok)"
  unfolding fire_def by (intro ok_rules ok_disarmFS ok_checkExists ok_stopRetry ok_execute ok_after_sync)

lemma ok_request: "triple sched_ok (request env syncFn cfg l b) (\<lambda>_. sched_ok)"
  unfolding request_def by (intro ok_rules ok_fireLocal ok_armRetry ok_fire)

lemma ok_handle: "sched_ok s \<Longrightarrow> sched_ok (handle env syncFn cfg c s)"
proof (cases c)
  case Immediate
  have "triple sched_ok (on_immediate env syncFn cfg) (\<lambda>_. sched_ok)"
    unfolding on_immediate_def by (intro ok_rules ok_upd ok_fire) (simp_all add: sched_ok_def)
  then show "sched_ok s \<Longrightarrow> ?thesis" using Immediate by (auto dest: tripleD)
next
  case Trigger
  have "triple sched_ok (on_trigger env cfg) (\<lambda>_. sched_ok)"
    unfolding on_trigger_def by (intro ok_rules ok_upd ok_checkExists ok_onFileEvent) (simp_all add: sched_ok_def)
  then show "sched_ok s \<Longrightarrow> ?thesis" using Trigger by (auto dest: tripleD)
next
  case FsTimer
  have "triple sched_ok (on_fs_timer env syncFn cfg) (\<lambda>_. sched_ok)"
    unfolding on_fs_timer_def by (intro ok_rules ok_disarmFS ok_request)
  then show "sched_ok s \<Longrightarrow> ?thesis" using FsTimer by (auto dest: tripleD)
next
  case RetryTimer
  have "triple sched_ok (on_retry_timer env syncFn cfg l) (\<lambda>_. sched_ok)" for l
    unfolding on_retry_timer_def by (intro ok_rules ok_stopRetry ok_request)
  then show "sched_ok s \<Longrightarrow> ?thesis" using RetryTimer by (auto dest: tripleD)
next
  case PollTick
  then show "sched_ok s \<Longrightarrow> ?thesis" using tripleD [OF ok_request] by auto
next
  case ExistTick
  then show "sched_ok s \<Longrightarrow> ?thesis" using tripleD [OF ok_checkExists] by auto
qed

lemma ok_start: "sched_ok (start env cfg sys)"
  using tripleD [OF ok_armRetry, of "newSyncScheduler sys"] err_backoff.lo_le_hi off_backoff.lo_le_hi
  by (simp add: start_def sched_ok_def newSyncScheduler_def)

lemma sched_ok_outside:
  "sched_ok (s\<lparr>sd_sys := sys', sd_paused := p, sd_trigger := n, sd_immediate := i, sd_force := f\<rparr>) = sched_ok s"
  by (simp add: sched_ok_def)

lemma ok_sched_step: "sched_step env syncFn cfg s s' \<Longrightarrow> sched_ok s \<Longrightarrow> sched_ok s'"
  by (elim sched_stepE) (simp_all add: ok_handle sched_ok_outside)

lemma ok_reachable: "reachable env syncFn cfg s \<Longrightarrow> sched_ok s"
  by (induction rule: reachable.induct) (auto intro: ok_start ok_sched_step)

section \<open>What fires\<close>

text \<open>
  \<open>fires L m\<close>: \<open>m\<close> only adds calls of the sync function to the log, all of them local-only if \<open>L\<close>;
  with \<open>silent m\<close> it adds none.
\<close>

definition fires :: "('w sched, 'a) state \<Rightarrow> bool" where
  "fires m \<longleftrightarrow> (\<forall>s. \<exists>fs. sd_fired (snd (run_state m s)) = sd_fired s @ fs \<and> list_all (\<lambda>(l, f, t). l) fs)"

definition silent :: "('w sched, 'a) state \<Rightarrow> bool" where
  "silent m \<longleftrightarrow> keeps sd_fired m"

lemma silent_fires: "silent m \<Longrightarrow> fires m"
  by (simp add: fires_def silent_def keeps_def)

lemma silentD: "silent m \<Longrightarrow> sd_fired (snd (run_state m s)) = sd_fired s"
  by (simp add: silent_def keeps_def)

lemma fires_bind:
  assumes "fires m" and "\<And>x. fires (k x)"
  shows "fires (State_Monad.bind m k)"
  unfolding fires_def run_bind
proof
  fix s
  let ?s = "snd (run_state m s)" and ?x = "fst (run_state m s)"
  obtain fs where "sd_fired ?s = sd_fired s @ fs" "list_all (\<lambda>(l, f, t). l) fs"
    using assms(1) unfolding fires_def by blast
  moreover obtain gs where "sd_fired (snd (run_state (k ?x) ?s)) = sd_fired ?s @ gs" "list_all (\<lambda>(l, f, t). l) gs"
    using assms(2) unfolding fires_def by blast
  ultimately show "\<exists>fs. sd_fired (snd (run_state (k ?x) ?s)) = sd_fired s @ fs \<and> list_all (\<lambda>(l, f, t). l) fs"
    by (intro exI [of _ "fs @ gs"]) simp
qed

lemma fires_if: "(b \<Longrightarrow> fires m) \<Longrightarrow> (\<not> b \<Longrightarrow> fires n) \<Longrightarrow> fires (if b then m else n)"
  by simp

lemma keeps_on_sys [keeps_rules]: "(\<And>s y. f (s\<lparr>sd_sys := y\<rparr>) = f s) \<Longrightarrow> keeps f (on_sys m)"
  by (simp add: keeps_def)

lemma silent_checkExists: "silent (checkExists env cfg)"
  unfolding silent_def checkExists_def by (intro keeps_rules) simp_all

lemma silent_onFileEvent: "silent (onFileEvent env cfg)"
  unfolding silent_def onFileEvent_def resetFSTimer_def by (intro keeps_rules) simp_all

lemma silent_disarmFS: "silent (disarmFS cfg)"
  unfolding silent_def disarmFS_def by (intro keeps_rules) simp_all

lemma silent_armRetry: "silent (armRetry env d l)"
  unfolding silent_def armRetry_def by (intro keeps_rules) simp

lemma silent_stopRetry: "silent stopRetry"
  unfolding silent_def stopRetry_def by (intro keeps_rules) simp

lemma silent_simple: "silent (State_Monad.return x)" "silent (ask f)"
  unfolding silent_def by (intro keeps_rules)+

lemma fires_upd: "(\<And>s. sd_fired (f s) = sd_fired s) \<Longrightarrow> fires (upd f)"
  by (rule silent_fires) (simp add: silent_def keeps_upd)

lemma fires_on_sys: "fires (on_sys m)"
  by (rule silent_fires) (simp add: silent_def keeps_on_sys)

lemmas fires_rules = fires_bind fires_if fires_on_sys silent_fires [OF silent_checkExists]
  silent_fires [OF silent_onFileEvent] silent_fires [OF silent_disarmFS]
  silent_fires [OF silent_armRetry] silent_fires [OF silent_stopRetry]
  silent_simple [THEN silent_fires]

lemma fires_execute: "cf_LocalOnly run \<Longrightarrow> fires (execute env syncFn cfg run)"
proof -
  assume l: "cf_LocalOnly run"
  have log: "fires (upd (\<lambda>s. s\<lparr>sd_fired := sd_fired s @ [(cf_LocalOnly run, cf_Force run, sched_now env s)]\<rparr>))"
    using l by (simp add: fires_def)
  show ?thesis
    unfolding execute_def drainChannel_def by (intro fires_rules log fires_upd) simp_all
qed

lemma fires_fireLocal: "fires (fireLocal env syncFn cfg)"
  unfolding fireLocal_def by (intro fires_rules fires_execute) simp

lemma paused_disarmFS: "sd_paused (snd (run_state (disarmFS cfg) s)) = sd_paused s"
  by (simp add: disarmFS_def)

lemma paused_fire: "sd_paused s \<Longrightarrow> sd_fired (snd (run_state (fire env syncFn cfg force) s)) = sd_fired s"
  using silentD [OF silent_disarmFS, of cfg s] paused_disarmFS [of cfg s]
  by (simp add: fire_def split_beta)

lemma paused_fireLocal: "sd_paused s \<Longrightarrow> sd_fired (snd (run_state (fireLocal env syncFn cfg) s)) = sd_fired s"
  using silentD [OF silent_disarmFS, of cfg s] paused_disarmFS [of cfg s]
  by (simp add: fireLocal_def split_beta)

lemma paused_request: "sd_paused s \<Longrightarrow> sd_fired (snd (run_state (request env syncFn cfg l b) s)) = sd_fired s"
  using paused_fire [of s env syncFn cfg False] paused_fireLocal [of s env syncFn cfg]
  by (simp add: request_def split_beta silentD [OF silent_armRetry])

lemma hold_disarmFS: "hold_wait env (snd (run_state (disarmFS cfg) s)) = hold_wait env s"
  by (simp add: disarmFS_def with_store_def hold_wait_def sched_now_def now_ns_def split: option.split)

lemma hold_stopRetry: "hold_wait env (snd (run_state stopRetry s)) = hold_wait env s"
  by (simp add: stopRetry_def hold_wait_def sched_now_def split: option.split)

lemma armRetry_armed: "sd_retry (snd (run_state (armRetry env d l) s)) \<noteq> None"
  by (simp add: armRetry_def)

lemma held_request:
  assumes "0 < hold_wait env s"
  shows "\<exists>fs. sd_fired (snd (run_state (request env syncFn cfg l b) s)) = sd_fired s @ fs \<and> list_all (\<lambda>(l, f, t). l) fs"
    and "sd_retry (snd (run_state (request env syncFn cfg l b) s)) \<noteq> None"
proof -
  let ?m = "(do {
           allowed \<leftarrow> ask (\<lambda>s. localCommitAllowed cfg (sd_sys s));
           (if b \<and> allowed then fireLocal env syncFn cfg else State_Monad.return ());
           armRetry env (hold_wait env s) l
         })"
  have r: "run_state (request env syncFn cfg l b) s = run_state ?m s" using assms by (simp add: request_def)
  have "fires ?m" by (intro fires_rules fires_fireLocal)
  then show "\<exists>fs. sd_fired (snd (run_state (request env syncFn cfg l b) s)) = sd_fired s @ fs \<and> list_all (\<lambda>(l, f, t). l) fs"
    unfolding r fires_def by blast
  show "sd_retry (snd (run_state (request env syncFn cfg l b) s)) \<noteq> None"
    unfolding r by (simp add: split_beta armRetry_armed)
qed

section \<open>Properties\<close>

text \<open>
  In every reachable state of the scheduler, whatever the sync function, the file system, the
  clock and the other goroutines do, the delays of both back-offs stay between their least and
  greatest values, and a pending batch always has its timer armed.
\<close>

theorem scheduler_invariant:
  assumes "reachable env syncFn cfg s"
  shows "errorBackoffMin \<le> sd_errorBackoff s \<and> sd_errorBackoff s \<le> errorBackoffMax \<and>
    offlineBackoffMin \<le> sd_offlineBackoff s \<and> sd_offlineBackoff s \<le> offlineBackoffMax \<and>
    (sd_batching s \<longrightarrow> sd_fs s \<noteq> None)"
  using ok_reachable [OF assms] by (simp add: sched_ok_def)

theorem scheduler_invariant_witness:
  "sd_errorBackoff (handle (demo_env []) (\<lambda>_. State_Monad.return (Some (Plain ''x''))) demo_cfg PollTick
      (start (demo_env []) demo_cfg demo_sys)) \<le> errorBackoffMax \<and>
   errorBackoffMin < sd_errorBackoff (handle (demo_env []) (\<lambda>_. State_Monad.return (Some (Plain ''x''))) demo_cfg PollTick
      (start (demo_env []) demo_cfg demo_sys))"
proof -
  let ?s = "handle (demo_env []) (\<lambda>_. State_Monad.return (Some (Plain ''x''))) demo_cfg PollTick
    (start (demo_env []) demo_cfg demo_sys)"
  have "\<not> sd_missing (start (demo_env []) demo_cfg demo_sys)"
    "ctx_err (demo_env []) Live (sd_sys (start (demo_env []) demo_cfg demo_sys)) = None" by code_simp+
  then have "sched_step (demo_env []) (\<lambda>_. State_Monad.return (Some (Plain ''x''))) demo_cfg
      (start (demo_env []) demo_cfg demo_sys) ?s" by (intro sched_step.select) simp_all
  then have "reachable (demo_env []) (\<lambda>_. State_Monad.return (Some (Plain ''x''))) demo_cfg ?s"
    by (rule reachable.more [OF reachable.begin_loop])
  from scheduler_invariant [OF this] show ?thesis by (intro conjI) (blast, code_simp)
qed

text \<open>
  A paused repository is left alone: no case of the scheduler's loop calls the sync function
  while the pause flag is set.
\<close>

theorem paused_never_syncs:
  assumes "sd_paused s"
  shows "sd_fired (handle env syncFn cfg c s) = sd_fired s"
proof (cases c)
  case Immediate
  then show ?thesis using assms by (simp add: on_immediate_def paused_fire)
next
  case Trigger
  have "silent (on_trigger env cfg)"
    using silent_checkExists silent_onFileEvent
    unfolding on_trigger_def silent_def by (intro keeps_rules) auto
  then show ?thesis using Trigger silentD by simp
next
  case FsTimer
  then show ?thesis
    using assms silentD [OF silent_disarmFS, of cfg s] paused_disarmFS [of cfg s]
    by (simp add: on_fs_timer_def split_beta paused_request)
next
  case RetryTimer
  then show ?thesis using assms by (simp add: on_retry_timer_def stopRetry_def paused_request)
next
  case PollTick
  then show ?thesis using assms by (simp add: paused_request)
next
  case ExistTick
  then show ?thesis using silentD [OF silent_checkExists] by simp
qed

theorem paused_never_syncs_witness:
  "sd_fired (handle (demo_env []) (AutoSyncCtx (demo_env []) Live) demo_cfg Immediate
      ((newSyncScheduler demo_sys)\<lparr>sd_paused := True\<rparr>)) = []"
  using paused_never_syncs [of "(newSyncScheduler demo_sys)\<lparr>sd_paused := True\<rparr>" "demo_env []"
      "AutoSyncCtx (demo_env []) Live" demo_cfg Immediate]
  by (simp add: newSyncScheduler_def)

text \<open>
  C13. While a failed sync is being held back, only an explicit request (the immediate channel)
  starts a full sync: every other case starts local-only ones at most; and a poll, a retry or a
  file event that is held back leaves a retry timer armed, so it is not forgotten.
\<close>

theorem hold_defers_full_syncs:
  assumes "0 < hold_wait env s" and "c \<noteq> Immediate"
  shows "(\<exists>fs. sd_fired (handle env syncFn cfg c s) = sd_fired s @ fs \<and> list_all (\<lambda>(l, f, t). l) fs) \<and>
    (c \<in> {PollTick, RetryTimer, FsTimer} \<longrightarrow> sd_retry (handle env syncFn cfg c s) \<noteq> None)"
proof (cases c)
  case Immediate
  then show ?thesis using assms(2) by simp
next
  case Trigger
  have "fires (on_trigger env cfg)" unfolding on_trigger_def by (intro fires_rules fires_upd) simp
  then show ?thesis using Trigger unfolding fires_def by simp
next
  case FsTimer
  let ?s = "snd (run_state (disarmFS cfg) s)"
  have "sd_fired ?s = sd_fired s" by (rule silentD [OF silent_disarmFS])
  moreover have "0 < hold_wait env ?s" using assms(1) by (simp add: hold_disarmFS)
  ultimately show ?thesis
    using held_request [of env ?s] FsTimer by (simp add: on_fs_timer_def split_beta)
next
  case RetryTimer
  let ?s = "snd (run_state stopRetry s)"
  have "sd_fired ?s = sd_fired s" by (rule silentD [OF silent_stopRetry])
  moreover have "0 < hold_wait env ?s" using assms(1) by (simp add: hold_stopRetry)
  ultimately show ?thesis
    using held_request [of env ?s] RetryTimer by (simp add: on_retry_timer_def split_beta)
next
  case PollTick
  then show ?thesis using held_request [OF assms(1)] by simp
next
  case ExistTick
  then show ?thesis using silent_fires [OF silent_checkExists, of env cfg] unfolding fires_def by auto
qed

theorem hold_defers_full_syncs_witness:
  "sd_retry (handle (demo_env []) (AutoSyncCtx (demo_env []) Live) demo_cfg PollTick
      ((newSyncScheduler demo_sys)\<lparr>sd_holdUntil := Some 5\<rparr>)) \<noteq> None"
proof -
  have "0 < hold_wait (demo_env []) ((newSyncScheduler demo_sys)\<lparr>sd_holdUntil := Some 5\<rparr>)" by code_simp
  from hold_defers_full_syncs [OF this, of PollTick] show ?thesis by simp
qed

end
