(* ===== verification/GitRoot.thy ===== *)
theory GitRoot
  imports Git
begin

text \<open>
  \<open>common/gitroot.go\<close>: the root of the repository a path is in, and a path with its symbolic links
  resolved; with the functions \<open>Abs\<close> and \<open>Rel\<close> of \<open>path/filepath\<close> on Unix that the sources use.

  The working directory and \<open>filepath.EvalSymlinks\<close> depend on the file system, so they are
  parameters, the record \<open>path_env\<close>.
\<close>

section \<open>Relative and absolute paths\<close>

record 'w path_env =
  pe_cwd :: "'w \<Rightarrow> goerror + string"
  pe_eval :: "'w \<Rightarrow> string \<Rightarrow> string option" \<comment> \<open>\<open>None\<close> for an error\<close>

definition Abs :: "'w path_env \<Rightarrow> 'w \<Rightarrow> string \<Rightarrow> goerror + string" where
  "Abs pe w p =
     (if is_abs p then Inr (Clean p)
      else (case pe_cwd pe w of Inl e \<Rightarrow> Inl e | Inr wd \<Rightarrow> Inr (Join [wd, p])))"

text \<open>The components of a clean path: the empty one in front of an absolute path is one.\<close>

definition elements :: "string \<Rightarrow> string list" where
  "elements p = (if p = [] then [] else if p = ''/'' then [[]] else split_on (CHR ''/'') p)"

fun drop_common :: "string list \<Rightarrow> string list \<Rightarrow> string list \<times> string list" where
  "drop_common (b # bs) (t # ts) = (if b = t then drop_common bs ts else (b # bs, t # ts))"
| "drop_common bs ts = (bs, ts)"

definition Rel :: "string \<Rightarrow> string \<Rightarrow> string option" where
  "Rel basepath targpath =
     (let base0 = Clean basepath; targ = Clean targpath; base = (if base0 = ''.'' then [] else base0) in
      if targ = base0 then Some ''.''
      else if has_prefix base ''/'' \<noteq> has_prefix targ ''/'' then None
      else
        (case drop_common (elements base) (elements targ) of
           (bs, ts) \<Rightarrow>
             if bs \<noteq> [] \<and> hd bs = ''..'' then None
             else Some (join ''/'' (replicate (length bs) ''..'' @ ts))))"

section \<open>The parent of a path is shorter\<close>

lemma str_last_index_byte:
  "str_last_index p [c] = Some i \<Longrightarrow> i < length p \<and> p ! i = c \<and> c \<notin> set (drop (Suc i) p)"
proof (induction p arbitrary: i)
  case (Cons x xs)
  show ?case
  proof (cases "str_last_index xs [c]")
    case None
    have "c \<notin> set xs" using None
    proof (induction xs)
      case (Cons y ys)
      then show ?case by (auto split: option.splits if_splits)
    qed simp
    then show ?thesis using Cons.prems None by (auto split: if_splits)
  next
    case (Some j)
    then show ?thesis using Cons.IH [OF Some] Cons.prems by auto
  qed
qed simp

lemma split_on_snoc: "split_on c (r @ [c]) = split_on c r @ [[]]"
  by (induction r) (auto split: list.splits)

lemma is_abs_append: "r \<noteq> [] \<Longrightarrow> is_abs (r @ q) = is_abs r"
  by (cases r) (simp_all add: is_abs_def has_prefix_def)

lemma Clean_slash: "r \<noteq> [] \<Longrightarrow> Clean (r @ ''/'') = Clean r"
  by (simp add: Clean_def clean_parts_def is_abs_append split_on_snoc)

definition weight :: "string list \<Rightarrow> nat" where
  "weight cs = sum_list (map (\<lambda>c. Suc (length c)) cs)"

lemma weight_simps [simp]: "weight [] = 0" "weight (c # cs) = Suc (length c) + weight cs"
  "weight (as @ bs) = weight as + weight bs"
  by (simp_all add: weight_def)

lemma weight_rev [simp]: "weight (rev cs) = weight cs"
  by (induction cs) simp_all

lemma weight_join: "cs \<noteq> [] \<Longrightarrow> Suc (length (join [c] cs)) = weight cs"
proof (induction cs)
  case (Cons a cs)
  then show ?case by (cases cs) auto
qed simp

lemma weight_clean_fold: "weight (foldl (clean_step r) acc cs) \<le> weight acc + weight cs"
proof (induction cs arbitrary: acc)
  case (Cons c cs)
  have "weight (clean_step r acc c) \<le> weight acc + Suc (length c)" by (auto split: list.split)
  then show ?case using Cons [of "clean_step r acc c"] by simp
qed simp

lemma weight_clean_parts: "weight (clean_parts p) + (if is_abs p then 1 else 0) \<le> Suc (length p)"
proof (cases "is_abs p")
  case True
  then obtain q where p: "p = CHR ''/'' # q" by (auto simp: is_abs_def has_prefix_def prefix_def)
  have "weight (split_on (CHR ''/'') q) = Suc (length q)"
    using weight_join [of "split_on (CHR ''/'') q" "CHR ''/''"] by (simp add: join_split_on)
  moreover have "clean_parts p = rev (foldl (clean_step True) [] (split_on (CHR ''/'') q))"
    using True p by (simp add: clean_parts_def)
  ultimately show ?thesis using True p weight_clean_fold [of True "[]" "split_on (CHR ''/'') q"] by simp
next
  case False
  have "weight (split_on (CHR ''/'') p) = Suc (length p)"
    using weight_join [of "split_on (CHR ''/'') p" "CHR ''/''"] by (simp add: join_split_on)
  then show ?thesis
    using False weight_clean_fold [of "is_abs p" "[]" "split_on (CHR ''/'') p"] by (simp add: clean_parts_def)
qed

lemma length_Clean: "length (Clean p) \<le> max 1 (length p)"
proof (cases "clean_parts p = []")
  case True
  then show ?thesis by (simp add: Clean_def)
next
  case False
  then have "Suc (length (join ''/'' (clean_parts p))) = weight (clean_parts p)" by (rule weight_join)
  then show ?thesis using weight_clean_parts [of p] by (auto simp: Clean_def Let_def)
qed

lemma length_Dir:
  assumes "Dir p \<noteq> ''.''" and "Dir p \<noteq> ''/''"
  shows "length (Dir p) < length p"
proof -
  obtain i where i: "str_last_index p ''/'' = Some i" using assms(1) by (auto simp: Dir_def split: option.splits)
  then have lt: "i < length p" and at: "p ! i = CHR ''/''" using str_last_index_byte by blast+
  have t: "take (Suc i) p = take i p @ ''/''" using lt at by (simp add: take_Suc_conv_app_nth)
  have ne: "take i p \<noteq> []"
  proof
    assume "take i p = []"
    then have "take (Suc i) p = ''/''" using t by simp
    moreover have "Clean ''/'' = ''/''" by code_simp
    ultimately have "Dir p = ''/''" using i by (simp add: Dir_def)
    then show False using assms(2) by simp
  qed
  then have "Dir p = Clean (take i p)" using i t by (simp add: Dir_def Clean_slash)
  moreover have "1 \<le> length (take i p)" using ne by (simp add: Suc_le_eq)
  ultimately show ?thesis using length_Clean [of "take i p"] lt by (simp add: max_def split: if_splits)
qed

lemma Dir_fixed: "Dir ''.'' = ''.''" "Dir ''/'' = ''/''"
  by code_simp+

definition depth :: "string \<Rightarrow> nat" where
  "depth p = (if p = ''.'' \<or> p = ''/'' then 0 else Suc (length p))"

lemma depth_Dir: "Dir p \<noteq> p \<Longrightarrow> depth (Dir p) < depth p"
  using length_Dir [of p] Dir_fixed by (auto simp: depth_def)

section \<open>Resolving symbolic links\<close>

function resolve_loop :: "(string \<Rightarrow> string option) \<Rightarrow> string \<Rightarrow> string \<Rightarrow> string \<Rightarrow> string" where
  "resolve_loop eval whole dir rest =
     (case eval dir of
        Some resolved \<Rightarrow> Join [resolved, rest]
      | None \<Rightarrow> if Dir dir = dir then whole else resolve_loop eval whole (Dir dir) (Join [Base dir, rest]))"
  by pat_completeness auto
termination by (relation "measure (\<lambda>(_, _, dir, _). depth dir)") (auto intro: depth_Dir)

declare resolve_loop.simps [simp del]

definition ResolvePath :: "'w path_env \<Rightarrow> 'w \<Rightarrow> string \<Rightarrow> string" where
  "ResolvePath pe w path =
     (case Abs pe w path of
        Inl _ \<Rightarrow> Clean path
      | Inr a \<Rightarrow> resolve_loop (pe_eval pe w) (Clean a) (Clean a) [])"

section \<open>The root of a repository\<close>

definition empty_cfg :: "string \<Rightarrow> repo_config" where
  "empty_cfg path = \<lparr>cf_RepoPath = path, cf_PollInterval = 0, cf_FSLag = 0, cf_BatchWindow = 0, cf_GitExec = [],
     cf_Env = [], cf_Emitter = False, cf_State = False, cf_Force = False, cf_LocalOnly = False,
     cf_MessagePrefix = [], cf_InitialDelay = 0\<rparr>"

definition root_error :: "string \<Rightarrow> goerror \<Rightarrow> goerror" where
  "root_error a e =
     (if ClassifyError (Some e) = CodeXcodeLicense then CodedError CodeXcodeLicense xcodeLicenseMessage
      else if ClassifyError (Some e) \<in> {CodeGitMissing, CodeTimeout}
      then CodedError (ClassifyError (Some e)) (errorSummary (Some e))
      else CodedError CodeNotARepo (''not a git repository: '' @ a))"

definition RepoRoot :: "'w env \<Rightarrow> 'w path_env \<Rightarrow> string \<Rightarrow> ('w sys, goerror + string) state" where
  "RepoRoot env pe path =
     do {
       absolute \<leftarrow> ask (\<lambda>s. Abs pe (sy_world s) path);
       case absolute of
         Inl e \<Rightarrow> State_Monad.return (Inl e)
       | Inr a \<Rightarrow>
           do {
             (out, err) \<leftarrow> runGit env WithoutCancel (empty_cfg a) [] [''rev-parse'', ''--show-toplevel''] None;
             case err of
               Some e \<Rightarrow> State_Monad.return (Inl (root_error a e))
             | None \<Rightarrow>
                 do {
                   resolved \<leftarrow> ask (\<lambda>s. pe_eval pe (sy_world s) (trim_space out));
                   State_Monad.return (Inr (Clean (case resolved of None \<Rightarrow> trim_space out | Some r \<Rightarrow> r)))
                 }
           }
     }"

end
