(* ===== verification/Ignore.thy ===== *)
theory Ignore
  imports GitRoot Commit
begin

text \<open>
  \<open>common/ignore.go\<close>: which changed files do not start a sync, with the cache of git's answers.

  The cache is a global map in the sources, shared by all watchers; here it is a part of the state
  \<open>ign\<close>, beside the system that runs git. Go maps are association lists without duplicate keys.
\<close>

section \<open>State\<close>

definition ignoreCacheTTL :: duration where "ignoreCacheTTL = 60000000000"
definition ignoreCacheMaxEntries :: nat where "ignoreCacheMaxEntries = 4096"

record ignore_entry =
  ie_ignored :: bool
  ie_at :: int

record repo_ignore_cache =
  ic_resolvedRoot :: string
  ic_entries :: "(string \<times> ignore_entry) list"

record 'w ign =
  ig_sys :: "'w sys"
  ig_caches :: "(string \<times> repo_ignore_cache) list"

definition in_sys :: "('w sys, 'a) state \<Rightarrow> ('w ign, 'a) state" where
  "in_sys m = State (\<lambda>s. case run_state m (ig_sys s) of (x, y) \<Rightarrow> (x, s\<lparr>ig_sys := y\<rparr>))"

text \<open>The cache of a repository; \<open>repoCache\<close> makes one if there is none.\<close>

definition cache_of :: "'w ign \<Rightarrow> string \<Rightarrow> repo_ignore_cache" where
  "cache_of s repo =
     (case map_of (ig_caches s) repo of None \<Rightarrow> \<lparr>ic_resolvedRoot = [], ic_entries = []\<rparr> | Some c \<Rightarrow> c)"

definition set_cache :: "string \<Rightarrow> (repo_ignore_cache \<Rightarrow> repo_ignore_cache) \<Rightarrow> 'w ign \<Rightarrow> 'w ign" where
  "set_cache repo f s = s\<lparr>ig_caches := AList.update repo (f (cache_of s repo)) (ig_caches s)\<rparr>"

definition repoCache :: "string \<Rightarrow> ('w ign, repo_ignore_cache) state" where
  "repoCache repo = do { upd (set_cache repo (\<lambda>c. c)); ask (\<lambda>s. cache_of s repo) }"

section \<open>Paths\<close>

definition isGitInternalPath :: "string \<Rightarrow> bool" where
  "isGitInternalPath rel \<longleftrightarrow>
     rel = ''.git'' \<or> has_prefix rel ''.git/'' \<or> has_suffix rel ''/.git'' \<or> contains rel ''/.git/''"

definition relWithin :: "string \<Rightarrow> string \<Rightarrow> string option" where
  "relWithin root filePath =
     (case Rel root filePath of
        None \<Rightarrow> None
      | Some rel \<Rightarrow> if rel = ''..'' \<or> has_prefix rel ''../'' then None else Some rel)"

definition resolvedRepoRoot :: "'w path_env \<Rightarrow> string \<Rightarrow> ('w ign, string) state" where
  "resolvedRepoRoot pe repoPath =
     do {
       c \<leftarrow> repoCache repoPath;
       if ic_resolvedRoot c \<noteq> [] then State_Monad.return (ic_resolvedRoot c)
       else do {
         resolved \<leftarrow> ask (\<lambda>s. case pe_eval pe (sy_world (ig_sys s)) repoPath of None \<Rightarrow> repoPath | Some r \<Rightarrow> r);
         upd (set_cache repoPath (\<lambda>c. c\<lparr>ic_resolvedRoot := resolved\<rparr>));
         State_Monad.return resolved
       }
     }"

definition relativeToRepo :: "'w path_env \<Rightarrow> string \<Rightarrow> string \<Rightarrow> ('w ign, string option) state" where
  "relativeToRepo pe repoPath filePath0 =
     (let filePath = (if is_abs filePath0 then filePath0 else Join [repoPath, filePath0]) in
      case relWithin repoPath filePath of
        Some rel \<Rightarrow> State_Monad.return (Some rel)
      | None \<Rightarrow>
          do {
            resolved \<leftarrow> resolvedRepoRoot pe repoPath;
            case (if resolved \<noteq> repoPath then relWithin resolved filePath else None) of
              Some rel \<Rightarrow> State_Monad.return (Some rel)
            | None \<Rightarrow>
                do {
                  resolvedFile \<leftarrow> ask (\<lambda>s. ResolvePath pe (sy_world (ig_sys s)) filePath);
                  State_Monad.return
                    (if resolvedFile = filePath then None
                     else (case relWithin resolved resolvedFile of
                             Some rel \<Rightarrow> Some rel
                           | None \<Rightarrow> relWithin repoPath resolvedFile))
                }
          })"

definition invalidateIgnoreCache :: "string \<Rightarrow> ('w ign, unit) state" where
  "invalidateIgnoreCache repoPath = upd (set_cache repoPath (\<lambda>c. c\<lparr>ic_entries := []\<rparr>))"

section \<open>Asking git\<close>

abbreviation check_ignore_args :: "string list" where
  "check_ignore_args \<equiv> [''check-ignore'', ''-z'', ''--stdin'']"

definition checkIgnore ::
  "'w env \<Rightarrow> string \<Rightarrow> string list \<Rightarrow> ('w sys, goerror + string list) state" where
  "checkIgnore env repoPath paths =
     do {
       (out, err) \<leftarrow> runGit env WithoutCancel (empty_cfg repoPath) [] check_ignore_args
         (Some (join [CHR 0x00] paths @ [CHR 0x00]));
       State_Monad.return
         (case err of
            Some e \<Rightarrow> if gitExitCode err = 1 then Inr [] else Inl e
          | None \<Rightarrow> Inr (filter (\<lambda>p. p \<noteq> []) (split_on (CHR 0x00) out)))
     }"

text \<open>The directories above a path, innermost first, with a final slash.\<close>

function parent_dirs :: "string \<Rightarrow> string list" where
  "parent_dirs d = (if d = ''.'' \<or> d = ''/'' then [] else (d @ ''/'') # parent_dirs (Dir d))"
  by pat_completeness auto
termination
proof (relation "measure depth")
  fix d :: string
  assume "\<not> (d = ''.'' \<or> d = ''/'')"
  then show "(Dir d, d) \<in> measure depth"
    using depth_Dir [of d] length_Dir [of d] by (auto simp: depth_def)
qed simp

declare parent_dirs.simps [simp del]

definition fresh_entry :: "int \<Rightarrow> (string \<times> ignore_entry) list \<Rightarrow> string \<Rightarrow> ignore_entry option" where
  "fresh_entry now entries p =
     (case map_of entries p of
        None \<Rightarrow> None
      | Some e \<Rightarrow> if now - ie_at e < ignoreCacheTTL then Some e else None)"

text \<open>The first loop: \<open>None\<close> if the cache has an ignored directory, else the directories to ask for.\<close>

fun scan_dirs :: "int \<Rightarrow> (string \<times> ignore_entry) list \<Rightarrow> string list \<Rightarrow> string list option" where
  "scan_dirs now entries [] = Some []"
| "scan_dirs now entries (d # ds) =
     (case fresh_entry now entries d of
        Some e \<Rightarrow> if ie_ignored e then None else scan_dirs now entries ds
      | None \<Rightarrow> map_option (\<lambda>q. d # q) (scan_dirs now entries ds))"

definition store_answers ::
  "int \<Rightarrow> string list \<Rightarrow> string list \<Rightarrow> repo_ignore_cache \<Rightarrow> repo_ignore_cache" where
  "store_answers now query ignored c =
     c\<lparr>ic_entries :=
       foldl (\<lambda>es q. AList.update q \<lparr>ie_ignored = (q \<in> set ignored), ie_at = now\<rparr> es)
         (if ignoreCacheMaxEntries < length (ic_entries c) + length query then [] else ic_entries c) query\<rparr>"

definition isFileIgnoredByGit ::
  "'w env \<Rightarrow> 'w path_env \<Rightarrow> string \<Rightarrow> string \<Rightarrow> ('w ign, bool \<times> goerror option) state" where
  "isFileIgnoredByGit env pe repoPath filePath =
     do {
       relo \<leftarrow> relativeToRepo pe repoPath filePath;
       case relo of
         None \<Rightarrow> State_Monad.return (True, None)
       | Some rel \<Rightarrow>
           do {
             now \<leftarrow> ask (\<lambda>s. now_ns env (ig_sys s));
             c \<leftarrow> repoCache repoPath;
             case scan_dirs now (ic_entries c) (rev (parent_dirs (Dir rel))) of
               None \<Rightarrow> State_Monad.return (True, None)
             | Some dirs \<Rightarrow>
                 (case fresh_entry now (ic_entries c) rel of
                    Some e \<Rightarrow> State_Monad.return (ie_ignored e, None)
                  | None \<Rightarrow>
                      do {
                        let query = dirs @ [rel];
                        answer \<leftarrow> in_sys (checkIgnore env repoPath query);
                        case answer of
                          Inl e \<Rightarrow> State_Monad.return (False, Some (Traced e))
                        | Inr ignored \<Rightarrow>
                            do {
                              upd (set_cache repoPath (store_answers now query ignored));
                              State_Monad.return (list_ex (\<lambda>q. q \<in> set ignored) query, None)
                            }
                      })
           }
     }"

definition ShouldIgnoreFile ::
  "'w env \<Rightarrow> 'w path_env \<Rightarrow> string \<Rightarrow> string \<Rightarrow> ('w ign, bool \<times> goerror option) state" where
  "ShouldIgnoreFile env pe repoPath filePath =
     do {
       relo \<leftarrow> relativeToRepo pe repoPath filePath;
       case relo of
         None \<Rightarrow> State_Monad.return (True, None)
       | Some rel \<Rightarrow>
           if rel = ''.'' then State_Monad.return (False, None)
           else if isGitInternalPath rel then State_Monad.return (True, None)
           else do {
             (if Base rel = ''.gitignore'' then invalidateIgnoreCache repoPath else State_Monad.return ());
             if isTempFileName (Base rel) then State_Monad.return (True, None)
             else isFileIgnoredByGit env pe repoPath rel
           }
     }"

section \<open>What git answers\<close>

text \<open>
  The documented behaviour of \<open>git check-ignore -z --stdin\<close> in a repository whose ignored paths are
  \<open>ign\<close>: it prints the given paths that are ignored, each with a NUL, and exits with 1 if there are
  none.
\<close>

definition ignore_answer :: "(string \<Rightarrow> bool) \<Rightarrow> string list \<Rightarrow> run_result" where
  "ignore_answer ign paths =
     \<lparr>rr_out = concat (map (\<lambda>p. p @ [CHR 0x00]) (filter ign paths)), rr_err = [],
      rr_fail = (if filter ign paths = [] then Some (ExitError 1 ''exit status 1'') else None),
      rr_deadline = False\<rparr>"

definition good_path :: "string \<Rightarrow> bool" where
  "good_path p \<longleftrightarrow> p \<noteq> [] \<and> CHR 0x00 \<notin> set p"

definition git_ignores :: "'w env \<Rightarrow> string \<Rightarrow> (string \<Rightarrow> bool) \<Rightarrow> bool" where
  "git_ignores env repo ign \<longleftrightarrow>
     (\<forall>w. \<exists>info. en_stat env w repo = Inr info) \<and>
     (\<forall>w inv paths. gi_args inv = check_ignore_args \<longrightarrow> gi_dir inv = repo \<longrightarrow> list_all good_path paths \<longrightarrow>
        gi_stdin inv = Some (join [CHR 0x00] paths @ [CHR 0x00]) \<longrightarrow>
        fst (en_run env w inv) = ignore_answer ign paths)"

text \<open>A command whose first process does not fail on the index lock runs that process only.\<close>

definition invocation :: "'w env \<Rightarrow> repo_config \<Rightarrow> string list \<Rightarrow> string list \<Rightarrow> string option \<Rightarrow> git_invocation" where
  "invocation env cfg prefixArgs args stdin =
     \<lparr>gi_cmd = (if cf_GitExec cfg = [] then ''git'' else cf_GitExec cfg), gi_dir = cf_RepoPath cfg,
      gi_args = prefixArgs @ args, gi_env = toEnvString env cfg, gi_stdin = stdin, gi_timeout = gitTimeout args\<rparr>"

lemma git_attempts_first:
  assumes "en_run env (sy_world s) (invocation env cfg p args stdin) = (r, w)" and "\<not> isIndexLockError (rr_err r)"
  shows "fst (run_state (git_attempts (Suc n) env WithoutCancel cfg p args stdin b out err) s) =
    (rr_out r, rr_err r, map_option (\<lambda>e. Traced (git_failure args r e (rr_deadline r) None)) (rr_fail r))"
  using assms by (cases "rr_fail r") (simp_all add: exec_git_def invocation_def ctx_err_def split_beta)

lemma runGit_first:
  assumes "en_stat env (sy_world s) (cf_RepoPath cfg) = Inr info"
    and "en_run env (sy_world s) (invocation env cfg p args stdin) = (r, w)" and "\<not> isIndexLockError (rr_err r)"
  shows "fst (run_state (runGit env WithoutCancel cfg p args stdin) s) =
    (rr_out r, map_option (\<lambda>e. Traced (git_failure args r e (rr_deadline r) None)) (rr_fail r))"
proof -
  have "run_state (runGitFull env WithoutCancel cfg p args stdin) s =
      run_state (git_attempts (Suc 4) env WithoutCancel cfg p args stdin 120000000 [] []) s"
    using assms(1) by (simp add: runGitFull_def maxAttempts_def)
  then show ?thesis
    using git_attempts_first [OF assms(2,3), of 4] by (simp add: runGit_def split_beta)
qed

lemma split_terminated:
  "list_all good_path ps \<Longrightarrow> split_on (CHR 0x00) (concat (map (\<lambda>p. p @ [CHR 0x00]) ps)) = ps @ [[]]"
  by (induction ps) (auto simp: split_on_append good_path_def)

lemma filter_good: "list_all good_path ps \<Longrightarrow> filter (\<lambda>p. p \<noteq> []) (ps @ [[]]) = ps"
  by (induction ps) (auto simp: good_path_def)

lemma checkIgnore_answers:
  assumes git: "git_ignores env repo ign" and paths: "list_all good_path paths"
  shows "fst (run_state (checkIgnore env repo paths) s) = Inr (filter ign paths)"
proof -
  let ?inv = "invocation env (empty_cfg repo) [] check_ignore_args (Some (join [CHR 0x00] paths @ [CHR 0x00]))"
  let ?r = "ignore_answer ign paths"
  have "\<exists>info. en_stat env (sy_world s) repo = Inr info" using git unfolding git_ignores_def by (rule conjunct1 [THEN spec])
  then obtain info where st: "en_stat env (sy_world s) (cf_RepoPath (empty_cfg repo)) = Inr info"
    by (auto simp: empty_cfg_def)
  have "fst (en_run env (sy_world s) ?inv) = ?r"
    using git paths unfolding git_ignores_def by (simp add: invocation_def empty_cfg_def)
  then obtain w where w: "en_run env (sy_world s) ?inv = (?r, w)" by (metis prod.collapse)
  have lock: "\<not> isIndexLockError (rr_err ?r)" by (simp add: isIndexLockError_def contains_def ignore_answer_def)
  have fl: "list_all good_path (filter ign paths)" using paths by (auto simp: list_all_iff)
  have "fst (run_state (checkIgnore env repo paths) s) =
      (case map_option (\<lambda>e. Traced (git_failure check_ignore_args ?r e (rr_deadline ?r) None)) (rr_fail ?r) of
         Some e \<Rightarrow> if gitExitCode (Some e) = 1 then Inr [] else Inl e
       | None \<Rightarrow> Inr (filter (\<lambda>p. p \<noteq> []) (split_on (CHR 0x00) (rr_out ?r))))"
    using runGit_first [OF st w lock] by (simp add: checkIgnore_def split_beta split: option.split)
  also have "\<dots> = Inr (filter ign paths)"
    using split_terminated [OF fl] filter_good [OF fl]
    by (simp add: ignore_answer_def git_failure_def gitExitCode_def as_git_def as_exit_def Let_def del: filter_append)
  finally show ?thesis .
qed

section \<open>Paths inside the repository\<close>

text \<open>A path inside a repository, as \<open>Rel\<close> gives it.\<close>

definition inside :: "string \<Rightarrow> bool" where
  "inside rel \<longleftrightarrow> (\<exists>cs. cs \<noteq> [] \<and> rel = join ''/'' cs \<and> (\<forall>c \<in> set cs. plain c))"

lemma plain_clean_acc: "(\<And>c. c \<in> set cs \<Longrightarrow> plain c) \<Longrightarrow> clean_acc r (rev cs)"
  unfolding clean_acc_def by (rule exI [of _ "rev cs"], rule exI [of _ 0]) auto

lemma rooted_plain: "is_abs p \<Longrightarrow> c \<in> set (clean_parts p) \<Longrightarrow> plain c"
  using clean_parts_acc [of p] unfolding clean_acc_def by (auto dest: arg_cong [where f = set])

lemma clean_abs_form: "is_abs repo \<Longrightarrow> Clean repo = repo \<Longrightarrow> repo = CHR ''/'' # join ''/'' (clean_parts repo)"
  by (simp add: Clean_def Let_def)

lemma split_on_join_sep: "split_on c (a @ c # b) = split_on c a @ split_on c b"
  by (induction a) (auto split: list.splits)

lemma Join_inside:
  assumes "is_abs repo" and "Clean repo = repo" and "cs \<noteq> []" and "\<And>c. c \<in> set cs \<Longrightarrow> plain c"
  shows "Join [repo, join ''/'' cs] = CHR ''/'' # join ''/'' (clean_parts repo @ cs)"
proof -
  have ne: "repo \<noteq> []" using assms(1) by (auto simp: is_abs_def has_prefix_def)
  have jn: "join ''/'' cs \<noteq> []" using join_eq_Nil [of cs] assms(3,4) by (auto simp: plain_def)
  have sc: "split_on (CHR ''/'') (join ''/'' cs) = cs"
    using assms(3,4) by (intro split_on_join) (auto simp: plain_def)
  have ab: "is_abs (repo @ ''/'' @ join ''/'' cs)" using assms(1) is_abs_append [OF ne] by simp
  have "foldl (clean_step True) [] (split_on (CHR ''/'') repo) = rev (clean_parts repo)"
    using assms(1) by (simp add: clean_parts_def)
  then have "clean_parts (repo @ ''/'' @ join ''/'' cs) = clean_parts repo @ cs"
    using ab sc clean_fold_plain [OF assms(4)] split_on_join_sep [of "CHR ''/''" repo "join ''/'' cs"]
    unfolding clean_parts_def [of "repo @ _"] by (simp del: clean_step.simps)
  then show ?thesis using ab ne jn by (simp add: Join_def Clean_def Let_def)
qed

lemma elements_rooted:
  assumes "\<And>c. c \<in> set cs \<Longrightarrow> plain c"
  shows "elements (CHR ''/'' # join ''/'' cs) = [] # cs"
proof (cases "cs = []")
  case False
  then have "join ''/'' cs \<noteq> []" using join_eq_Nil [of cs] assms by (auto simp: plain_def)
  moreover have "split_on (CHR ''/'') (join ''/'' cs) = cs"
    using assms False by (intro split_on_join) (auto simp: plain_def)
  ultimately show ?thesis by (simp add: elements_def)
qed (simp add: elements_def)

lemma drop_common_prefix: "drop_common ps (ps @ cs) = ([], cs)"
  by (induction ps) simp_all

lemma relWithin_inside:
  assumes "is_abs repo" and "Clean repo = repo" and "inside rel"
  shows "relWithin repo (Join [repo, rel]) = Some rel" and "is_abs (Join [repo, rel])"
proof -
  obtain cs where cs: "cs \<noteq> []" "rel = join ''/'' cs" "\<And>c. c \<in> set cs \<Longrightarrow> plain c"
    using assms(3) by (auto simp: inside_def)
  let ?ps = "clean_parts repo"
  have j: "Join [repo, rel] = CHR ''/'' # join ''/'' (?ps @ cs)" using Join_inside [OF assms(1,2) cs(1,3)] cs(2) by simp
  have pl: "c \<in> set (?ps @ cs) \<Longrightarrow> plain c" for c using rooted_plain [OF assms(1)] cs(3) by auto
  have rp: "repo = CHR ''/'' # join ''/'' ?ps" using clean_abs_form [OF assms(1,2)] .
  have "repo \<noteq> []" using rp by (metis list.distinct(1))
  then have cj: "Clean (Join [repo, rel]) = Join [repo, rel]" by (simp add: Join_def)
  have e1: "elements repo = [] # ?ps" using elements_rooted [of ?ps] pl rp by auto
  have e2: "elements (Join [repo, rel]) = [] # ?ps @ cs" using elements_rooted [of "?ps @ cs"] pl j by auto
  have ne: "Join [repo, rel] \<noteq> repo" using e1 e2 cs(1) by auto
  have hp: "has_prefix repo ''/''" "has_prefix (Join [repo, rel]) ''/''" using assms(1) j
    by (simp_all add: is_abs_def has_prefix_def)
  have nd: "repo \<noteq> ''.''" using rp by auto
  have "Rel repo (Join [repo, rel]) = Some rel"
    using assms(2) cj ne hp nd e1 e2 drop_common_prefix [of ?ps cs] cs(2) by (simp add: Rel_def Let_def)
  moreover have sp: "split_on (CHR ''/'') rel = cs"
    using cs by (auto intro!: split_on_join simp: plain_def)
  moreover have "rel \<noteq> ''..''" using sp cs(3) by (auto simp: plain_def)
  moreover have "\<not> has_prefix rel ''../''"
  proof
    assume "has_prefix rel ''../''"
    then obtain r where "rel = ''..'' @ CHR ''/'' # r" by (auto simp: has_prefix_def prefix_def)
    then have "''..'' \<in> set (split_on (CHR ''/'') rel)"
      using split_on_append [of "CHR ''/''" "''..''" r] by simp
    then show False using sp cs(3) by (auto simp: plain_def)
  qed
  ultimately show "relWithin repo (Join [repo, rel]) = Some rel" by (simp add: relWithin_def)
  show "is_abs (Join [repo, rel])" using j by (simp add: is_abs_def has_prefix_def)
qed

lemma clean_fold_subset: "set (foldl (clean_step r) acc cs) \<subseteq> set acc \<union> set cs"
proof (induction cs arbitrary: acc)
  case (Cons c cs)
  have "set (clean_step r acc c) \<subseteq> set acc \<union> {c}" by (auto split: list.split)
  then show ?case using Cons [of "clean_step r acc c"] by (auto simp del: clean_step.simps)
qed simp

lemma set_join: "set (join sep cs) \<subseteq> set sep \<union> \<Union> (set ` set cs)"
  by (induction sep cs rule: join.induct) auto

lemma set_split_on: "x \<in> set (split_on c s) \<Longrightarrow> set x \<subseteq> set s"
proof (induction s arbitrary: x)
  case (Cons a s)
  obtain y ys where y: "split_on c s = y # ys" by (cases "split_on c s") auto
  have "set y \<subseteq> set s" "\<forall>z \<in> set ys. set z \<subseteq> set s" using Cons.IH y by auto
  then show ?case using Cons.prems y by (auto split: if_splits)
qed simp

lemma set_Clean: "set (Clean p) \<subseteq> {CHR ''/'', CHR ''.''} \<union> set p"
proof -
  have "set (clean_parts p) \<subseteq> set (split_on (CHR ''/'') p)"
    using clean_fold_subset [of "is_abs p" "[]" "split_on (CHR ''/'') p"] by (simp add: clean_parts_def)
  then have "set (join ''/'' (clean_parts p)) \<subseteq> {CHR ''/''} \<union> set p"
    using set_join [of "''/''" "clean_parts p"] set_split_on [of _ "CHR ''/''" p] by fastforce
  then show ?thesis by (auto simp: Clean_def Let_def)
qed

lemma set_Dir: "set (Dir p) \<subseteq> {CHR ''/'', CHR ''.''} \<union> set p"
proof (cases "str_last_index p ''/''")
  case (Some i)
  then show ?thesis using set_Clean [of "take (Suc i) p"] set_take_subset [of "Suc i" p] by (auto simp: Dir_def)
qed (simp add: Dir_def)

lemma good_parent_dirs: "CHR 0x00 \<notin> set d \<Longrightarrow> list_all good_path (parent_dirs d)"
proof (induction d rule: parent_dirs.induct)
  case (1 d)
  have "CHR 0x00 \<notin> set (Dir d)" using "1.prems" set_Dir [of d] by auto
  then have "\<not> (d = ''.'' \<or> d = ''/'') \<Longrightarrow> list_all good_path (parent_dirs (Dir d))" using "1.IH" by blast
  then show ?case using "1.prems" by (subst parent_dirs.simps) (auto simp: good_path_def [of "d @ _"])
qed

section \<open>The cache\<close>

definition cache_agrees :: "(string \<Rightarrow> bool) \<Rightarrow> 'w ign \<Rightarrow> string \<Rightarrow> bool" where
  "cache_agrees ign s repo \<longleftrightarrow>
     (\<forall>p e. map_of (ic_entries (cache_of s repo)) p = Some e \<longrightarrow> ie_ignored e = ign p)"

lemma cache_of_set [simp]:
  "cache_of (set_cache repo f s) q = (if q = repo then f (cache_of s repo) else cache_of s q)"
  by (simp add: cache_of_def set_cache_def)

lemma cache_of_sys [simp]: "cache_of (s\<lparr>ig_sys := y\<rparr>) q = cache_of s q"
  by (simp add: cache_of_def)

lemma run_in_sys [simp]:
  "run_state (in_sys m) s = (fst (run_state m (ig_sys s)), s\<lparr>ig_sys := snd (run_state m (ig_sys s))\<rparr>)"
  by (simp add: in_sys_def split_beta)

lemma run_repoCache [simp]: "run_state (repoCache repo) s = (cache_of s repo, set_cache repo (\<lambda>c. c) s)"
  by (simp add: repoCache_def)

lemma fresh_entry_agrees:
  "(\<And>p e. map_of es p = Some e \<Longrightarrow> ie_ignored e = ign p) \<Longrightarrow> fresh_entry now es p = Some e \<Longrightarrow> ie_ignored e = ign p"
  by (auto simp: fresh_entry_def split: option.splits if_splits)

lemma scan_dirs_spec:
  assumes "\<And>p e. map_of es p = Some e \<Longrightarrow> ie_ignored e = ign p"
  shows "case scan_dirs now es ds of
      None \<Rightarrow> list_ex ign ds
    | Some q \<Rightarrow> set q \<subseteq> set ds \<and> length q \<le> length ds \<and> (list_ex ign ds \<longrightarrow> list_ex ign q)"
proof (induction ds)
  case (Cons d ds)
  show ?case
  proof (cases "fresh_entry now es d")
    case None
    then show ?thesis using Cons by (auto split: option.splits)
  next
    case (Some e)
    then have "ie_ignored e = ign d" using fresh_entry_agrees [of es ign now d e, OF assms] by blast
    then show ?thesis using Cons Some by (auto split: option.splits)
  qed
qed simp

lemma fold_update_answers:
  "map_of (foldl (\<lambda>es q. AList.update q (f q) es) es qs) p = (if p \<in> set qs then Some (f p) else map_of es p)"
  by (induction qs arbitrary: es) auto

lemma length_update: "length (AList.update k v es) \<le> Suc (length es)"
  by (induction es) auto

lemma length_fold_update: "length (foldl (\<lambda>es q. AList.update q (f q) es) es qs) \<le> length es + length qs"
proof (induction qs arbitrary: es)
  case (Cons q qs)
  show ?case using Cons [of "AList.update q (f q) es"] length_update [of q "f q" es] by simp
qed simp

lemma store_answers_size:
  "length (ic_entries (store_answers now query ignored c)) \<le> max ignoreCacheMaxEntries (length query)"
  using length_fold_update [of "\<lambda>q. \<lparr>ie_ignored = (q \<in> set ignored), ie_at = now\<rparr>" "[]" query]
    length_fold_update [of "\<lambda>q. \<lparr>ie_ignored = (q \<in> set ignored), ie_at = now\<rparr>" "ic_entries c" query]
  by (simp add: store_answers_def max_def)

lemma store_answers_agree:
  assumes "\<And>p e. map_of (ic_entries c) p = Some e \<Longrightarrow> ie_ignored e = ign p" and "ignored = filter ign query"
    and "map_of (ic_entries (store_answers now query ignored c)) p = Some e"
  shows "ie_ignored e = ign p"
  using assms by (auto simp: store_answers_def fold_update_answers split: if_splits)

text \<open>
  Asking about a path inside the repository: the answer is git's own, the cache agrees with git
  afterwards, and it stays small.
\<close>

lemma isFileIgnoredByGit_exact:
  assumes git: "git_ignores env repo ign" and repo: "is_abs repo" "Clean repo = repo"
    and rel: "inside rel" "CHR 0x00 \<notin> set rel"
    and up: "\<And>d. d \<in> set (parent_dirs (Dir rel)) \<Longrightarrow> ign d \<Longrightarrow> ign rel"
    and agree: "cache_agrees ign s repo"
    and size: "length (ic_entries (cache_of s repo)) \<le> max ignoreCacheMaxEntries (Suc (length (parent_dirs (Dir rel))))"
    and run: "run_state (isFileIgnoredByGit env pe repo rel) s = (res, s')"
  shows "res = (ign rel, None) \<and> cache_agrees ign s' repo \<and>
    length (ic_entries (cache_of s' repo)) \<le> max ignoreCacheMaxEntries (Suc (length (parent_dirs (Dir rel))))"
proof -
  let ?c = "cache_of s repo" and ?now = "now_ns env (ig_sys s)" and ?dirs = "rev (parent_dirs (Dir rel))"
  have ag: "map_of (ic_entries ?c) p = Some e \<Longrightarrow> ie_ignored e = ign p" for p e
    using agree by (simp add: cache_agrees_def)
  obtain c cs where "rel = join ''/'' (c # cs)" "plain c" using rel(1) by (auto simp: inside_def) (metis list.exhaust list.set_intros(1))
  then have na: "\<not> is_abs rel" by (cases c; cases cs) (auto simp: is_abs_def has_prefix_def plain_def)
  have r: "run_state (relativeToRepo pe repo rel) s = (Some rel, s)"
    using relWithin_inside [OF repo rel(1)] na by (simp add: relativeToRepo_def Let_def)
  have ne: "rel \<noteq> []" using rel(1) join_eq_Nil by (auto simp: inside_def plain_def)
  have nul: "CHR 0x00 \<notin> set (Dir rel)" using rel(2) set_Dir [of rel] by auto
  have sc: "case scan_dirs ?now (ic_entries ?c) ?dirs of
      None \<Rightarrow> list_ex ign ?dirs
    | Some q \<Rightarrow> set q \<subseteq> set ?dirs \<and> length q \<le> length ?dirs \<and> (list_ex ign ?dirs \<longrightarrow> list_ex ign q)"
    using scan_dirs_spec [OF ag] .
  show ?thesis
  proof (cases "scan_dirs ?now (ic_entries ?c) ?dirs")
    case None
    then have "ign rel" using sc up by (auto simp: list_ex_iff)
    then show ?thesis using run r None agree size by (auto simp: isFileIgnoredByGit_def cache_agrees_def)
  next
    case (Some q)
    show ?thesis
    proof (cases "fresh_entry ?now (ic_entries ?c) rel")
      case fresh: (Some e)
      then have "ie_ignored e = ign rel" using fresh_entry_agrees [of "ic_entries ?c" ign ?now rel e, OF ag] by blast
      then show ?thesis using run r Some fresh agree size by (auto simp: isFileIgnoredByGit_def cache_agrees_def)
    next
      case None
      have good: "list_all good_path (q @ [rel])"
        using Some sc good_parent_dirs [OF nul] ne rel(2) by (auto simp: list_all_iff good_path_def)
      let ?y = "ig_sys (set_cache repo (\<lambda>c. c) s)"
      have an: "fst (run_state (checkIgnore env repo (q @ [rel])) ?y) = Inr (filter ign (q @ [rel]))"
        using checkIgnore_answers [OF git good] .
      let ?s = "set_cache repo (store_answers ?now (q @ [rel]) (filter ign (q @ [rel])))
        ((set_cache repo (\<lambda>c. c) s)\<lparr>ig_sys := snd (run_state (checkIgnore env repo (q @ [rel])) ?y)\<rparr>)"
      have e: "res = (list_ex (\<lambda>p. p \<in> set (filter ign (q @ [rel]))) (q @ [rel]), None)" "s' = ?s"
        using run r Some None an by (simp_all add: isFileIgnoredByGit_def Let_def split_beta)
      have "list_ex (\<lambda>p. p \<in> set (filter ign (q @ [rel]))) (q @ [rel]) = ign rel"
        using Some sc up by (auto simp: list_ex_iff)
      moreover have "cache_agrees ign ?s repo"
        unfolding cache_agrees_def
        using store_answers_agree [of ?c ign "filter ign (q @ [rel])" "q @ [rel]" ?now, OF ag refl]
        by (simp del: filter_append)
      moreover have "length (q @ [rel]) \<le> Suc (length (parent_dirs (Dir rel)))" using Some sc by simp
      then have "length (ic_entries (cache_of ?s repo)) \<le> max ignoreCacheMaxEntries (Suc (length (parent_dirs (Dir rel))))"
        using store_answers_size [of ?now "q @ [rel]" "filter ign (q @ [rel])" ?c] by (simp add: max_def split: if_splits)
      ultimately show ?thesis using e by simp
    qed
  qed
qed

section \<open>Properties\<close>

lemma cache_agrees_empty: "cache_agrees ign (set_cache repo (\<lambda>c. c\<lparr>ic_entries := []\<rparr>) s) repo"
  by (simp add: cache_agrees_def)

text \<open>
  C35. What the watcher ignores is exactly what it should: for a file inside the repository, git's own
  files, temporary files, and the files git ignores. The cache never changes the answer, agrees
  with git afterwards, and keeps its bound. Git is assumed to answer \<open>check-ignore\<close> as documented,
  and to ignore everything in a directory it ignores.
\<close>

theorem ShouldIgnoreFile_exact:
  assumes "git_ignores env repo ign" and "is_abs repo" and "Clean repo = repo"
    and "inside rel" and "CHR 0x00 \<notin> set rel"
    and "\<And>d. d \<in> set (parent_dirs (Dir rel)) \<Longrightarrow> ign d \<Longrightarrow> ign rel"
    and "cache_agrees ign s repo"
    and "length (ic_entries (cache_of s repo)) \<le> max ignoreCacheMaxEntries (Suc (length (parent_dirs (Dir rel))))"
    and "run_state (ShouldIgnoreFile env pe repo (Join [repo, rel])) s = (res, s')"
  shows "res = (isGitInternalPath rel \<or> isTempFileName (Base rel) \<or> ign rel, None) \<and>
    cache_agrees ign s' repo \<and>
    length (ic_entries (cache_of s' repo)) \<le> max ignoreCacheMaxEntries (Suc (length (parent_dirs (Dir rel))))"
proof -
  let ?s = "if Base rel = ''.gitignore'' then set_cache repo (\<lambda>c. c\<lparr>ic_entries := []\<rparr>) s else s"
  have r: "run_state (relativeToRepo pe repo (Join [repo, rel])) s = (Some rel, s)"
    using relWithin_inside [OF assms(2-4)] by (simp add: relativeToRepo_def)
  have dot: "rel \<noteq> ''.''"
  proof
    assume d: "rel = ''.''"
    obtain cs where cs: "cs \<noteq> []" "rel = join ''/'' cs" "\<forall>c \<in> set cs. plain c"
      using assms(4) by (auto simp: inside_def)
    then have "split_on (CHR ''/'') rel = cs" by (auto intro!: split_on_join simp: plain_def)
    then have "cs = [''.'']" using d by simp
    then show False using cs(3) by (simp add: plain_def)
  qed
  have s: "cache_agrees ign ?s repo"
    "length (ic_entries (cache_of ?s repo)) \<le> max ignoreCacheMaxEntries (Suc (length (parent_dirs (Dir rel))))"
    using assms(7,8) cache_agrees_empty by auto
  consider "isGitInternalPath rel" | "\<not> isGitInternalPath rel" "isTempFileName (Base rel)"
    | "\<not> isGitInternalPath rel" "\<not> isTempFileName (Base rel)" by blast
  then show ?thesis
  proof cases
    case 1
    then show ?thesis using assms(7-9) r dot by (simp add: ShouldIgnoreFile_def)
  next
    case 2
    then have "res = (True, None)" "s' = ?s"
      using assms(9) r dot by (auto simp: ShouldIgnoreFile_def invalidateIgnoreCache_def split: if_splits)
    then show ?thesis using 2 s by simp
  next
    case 3
    then have "run_state (isFileIgnoredByGit env pe repo rel) ?s = (res, s')"
      using assms(9) r dot by (simp add: ShouldIgnoreFile_def invalidateIgnoreCache_def split: if_splits)
    from isFileIgnoredByGit_exact [OF assms(1-6) s this] show ?thesis using 3 by simp
  qed
qed

text \<open>A repository that ignores the directory \<open>o/\<close>.\<close>

definition ignore_env :: "unit env" where
  "ignore_env = (demo_env [])\<lparr>en_run := \<lambda>w inv.
     (ignore_answer (\<lambda>p. has_prefix p ''o/'')
        (filter (\<lambda>p. p \<noteq> []) (split_on (CHR 0x00) (case gi_stdin inv of None \<Rightarrow> [] | Some x \<Rightarrow> x))), w)\<rparr>"

definition demo_paths :: "unit path_env" where
  "demo_paths = \<lparr>pe_cwd = \<lambda>_. Inr ''/'', pe_eval = \<lambda>_ p. Some p\<rparr>"

lemma join_terminated: "ps \<noteq> [] \<Longrightarrow> join [c] ps @ [c] = concat (map (\<lambda>p. p @ [c]) ps)"
  by (induction "[c]" ps rule: join.induct) auto

lemma ignore_env_git: "git_ignores ignore_env ''/r'' (\<lambda>p. has_prefix p ''o/'')"
proof -
  have "filter (\<lambda>p. p \<noteq> []) (split_on (CHR 0x00) (join [CHR 0x00] paths @ [CHR 0x00])) = paths"
    if "list_all good_path paths" for paths
  proof (cases "paths = []")
    case False
    then show ?thesis
      using join_terminated [OF False] split_terminated [OF that] filter_good [OF that] by (simp del: filter_append)
  qed simp
  then show ?thesis by (simp add: git_ignores_def ignore_env_def demo_env_def)
qed

theorem ShouldIgnoreFile_exact_witness:
  "fst (run_state (ShouldIgnoreFile ignore_env demo_paths ''/r'' (Join [''/r'', ''o/x'']))
      \<lparr>ig_sys = demo_sys, ig_caches = []\<rparr>) = (True, None)"
proof -
  let ?s = "\<lparr>ig_sys = demo_sys, ig_caches = []\<rparr>"
  obtain res s' where run: "run_state (ShouldIgnoreFile ignore_env demo_paths ''/r'' (Join [''/r'', ''o/x''])) ?s = (res, s')"
    by (metis surj_pair)
  have "inside ''o/x''" unfolding inside_def by (rule exI [of _ "[''o'', ''x'']"]) (simp add: plain_def)
  moreover have "is_abs ''/r''" "Clean ''/r'' = ''/r''" by code_simp+
  moreover have "has_prefix ''o/x'' ''o/''" by code_simp
  moreover have "cache_agrees (\<lambda>p. has_prefix p ''o/'') ?s ''/r''" "cache_of ?s ''/r'' = \<lparr>ic_resolvedRoot = [], ic_entries = []\<rparr>"
    by (simp_all add: cache_agrees_def cache_of_def)
  ultimately show ?thesis
    using ShouldIgnoreFile_exact [OF ignore_env_git _ _ _ _ _ _ _ run] run by simp
qed

end
