(* ===== verification/Watch.thy ===== *)
theory Watch
  imports Scheduler Ignore
begin

text \<open>
  The rest of \<open>common/watch.go\<close> and \<open>common/repomissing.go\<close>: file events, waiting for a folder that
  is gone, and the life of a watcher around the scheduler.

  Waiting is a function of what the loop sees, tick by tick: the world at the tick, or that the
  context ended. It gives \<open>None\<close> while the list of ticks has not decided it. The life of a watcher is
  a step relation: the scheduler runs, the folder is lost and waited for, the watcher stops.
\<close>

section \<open>File events\<close>

definition triggerCapacity :: nat where "triggerCapacity = 100"

record 'w fs_watch =
  fw_ign :: "'w ign"
  fw_trigger :: nat

definition in_ign :: "('w ign, 'a) state \<Rightarrow> ('w fs_watch, 'a) state" where
  "in_ign m = State (\<lambda>s. case run_state m (fw_ign s) of (x, y) \<Rightarrow> (x, s\<lparr>fw_ign := y\<rparr>))"

text \<open>One event of \<open>watchFileSystem\<close>: the send on the trigger channel is dropped when it is full.\<close>

definition on_notify :: "'w env \<Rightarrow> 'w path_env \<Rightarrow> string \<Rightarrow> string \<Rightarrow> ('w fs_watch, unit) state" where
  "on_notify env pe repoPath path =
     do {
       (ignore0, err) \<leftarrow> in_ign (ShouldIgnoreFile env pe repoPath path);
       gone \<leftarrow> ask (\<lambda>s. RepoDirMissing env repoPath (ig_sys (fw_ign s)));
       if err \<noteq> None \<and> \<not> gone then State_Monad.return ()
       else
         let ignore = (if err \<noteq> None then False else ignore0) in
         if ignore then State_Monad.return ()
         else upd (\<lambda>s. if fw_trigger s < triggerCapacity then s\<lparr>fw_trigger := fw_trigger s + 1\<rparr> else s)
     }"

definition watch_root :: "'w path_env \<Rightarrow> 'w \<Rightarrow> string \<Rightarrow> string" where
  "watch_root pe w repoPath = (case pe_eval pe w repoPath of None \<Rightarrow> repoPath | Some r \<Rightarrow> r)"

section \<open>Waiting for the folder\<close>

datatype 'w wake = CtxDone | Tick 'w

primrec wait_loop :: "'w env \<Rightarrow> repo_config \<Rightarrow> 'w wake list \<Rightarrow> ('w sys, bool option) state" where
  "wait_loop env cfg [] = State_Monad.return None"
| "wait_loop env cfg (x # xs) =
     (case x of
        CtxDone \<Rightarrow> State_Monad.return (Some False)
      | Tick w \<Rightarrow>
          do {
            upd (\<lambda>s. s\<lparr>sy_world := w\<rparr>);
            missing \<leftarrow> ask (RepoDirMissing env (cf_RepoPath cfg));
            if missing then wait_loop env cfg xs
            else do {
              ReportRepoFound env cfg;
              cerr \<leftarrow> ask (ctx_err env Live);
              State_Monad.return (Some (cerr = None))
            }
          })"

definition WaitForRepoDir :: "'w env \<Rightarrow> repo_config \<Rightarrow> 'w wake list \<Rightarrow> ('w sys, bool option) state" where
  "WaitForRepoDir env cfg wakes =
     do {
       missing \<leftarrow> ask (RepoDirMissing env (cf_RepoPath cfg));
       if \<not> missing then
         do {
           ReportRepoFound env cfg;
           cerr \<leftarrow> ask (ctx_err env Live);
           State_Monad.return (Some (cerr = None))
         }
       else do { ReportRepoMissing env cfg; wait_loop env cfg wakes }
     }"

section \<open>The life of a watcher\<close>

definition watch_config :: "repo_config \<Rightarrow> repo_config" where
  "watch_config cfg =
     cfg\<lparr>cf_PollInterval := (if cf_PollInterval cfg \<le> 0 then DefaultPollInterval else cf_PollInterval cfg)\<rparr>"

text \<open>Go's division of a duration by \<open>time.Second\<close>, which rounds to zero.\<close>

definition whole_seconds :: "duration \<Rightarrow> int" where
  "whole_seconds d = sgn d * (\<bar>d\<bar> div 1000000000)"

definition watch_begin :: "repo_config \<Rightarrow> ('w sys, unit) state" where
  "watch_begin cfg =
     do {
       with_store cfg (\<lambda>st. SetWatching st (cf_RepoPath cfg) True);
       with_store cfg (\<lambda>st. SetSettings st (cf_RepoPath cfg)
         (whole_seconds (cf_PollInterval cfg)) (whole_seconds (cf_BatchWindow cfg)))
     }"

definition watch_end :: "repo_config \<Rightarrow> ('w sys, unit) state" where
  "watch_end cfg = with_store cfg (\<lambda>st. SetWatching st (cf_RepoPath cfg) False)"

text \<open>The deferred calls of \<open>run\<close>, in the order in which they are made.\<close>

definition run_exit :: "repo_config \<Rightarrow> ('w sched, unit) state" where
  "run_exit cfg = do { disarmFS cfg; stopRetry }"

text \<open>A new scheduler for the same handle: the flags and channels of the handle are kept.\<close>

definition resume_watch :: "'w env \<Rightarrow> repo_config \<Rightarrow> 'w sched \<Rightarrow> 'w sys \<Rightarrow> 'w sched" where
  "resume_watch env cfg s sys =
     (start env (cfg\<lparr>cf_InitialDelay := 0\<rparr>) sys)
       \<lparr>sd_paused := sd_paused s, sd_immediate := sd_immediate s, sd_force := sd_force s,
        sd_trigger := 0, sd_fired := sd_fired s\<rparr>"

datatype 'w watcher =
  Running repo_config "'w sched"
| Waiting repo_config "'w sched"
| Stopped "'w sys"

inductive watch_step ::
  "'w env \<Rightarrow> (repo_config \<Rightarrow> ('w sys, goerror option) state) \<Rightarrow> 'w watcher \<Rightarrow> 'w watcher \<Rightarrow> bool"
  for env syncFn where
  schedule: "sched_step env syncFn cfg s s' \<Longrightarrow> watch_step env syncFn (Running cfg s) (Running cfg s')"
| cancel: "\<not> sd_missing s \<Longrightarrow> ctx_err env Live (sd_sys s) \<noteq> None \<Longrightarrow>
    watch_step env syncFn (Running cfg s)
      (Stopped (snd (run_state (watch_end cfg) (sd_sys (snd (run_state (run_exit cfg) s))))))"
| lost: "sd_missing s \<Longrightarrow> s' = snd (run_state (run_exit cfg) s) \<Longrightarrow> ctx_err env Live (sd_sys s') = None \<Longrightarrow>
    watch_step env syncFn (Running cfg s) (Waiting cfg s')"
| lost_cancel: "sd_missing s \<Longrightarrow> s' = snd (run_state (run_exit cfg) s) \<Longrightarrow> ctx_err env Live (sd_sys s') \<noteq> None \<Longrightarrow>
    watch_step env syncFn (Running cfg s) (Stopped (snd (run_state (watch_end cfg) (sd_sys s'))))"
| found: "run_state (WaitForRepoDir env cfg wakes) (sd_sys s) = (Some True, sys') \<Longrightarrow>
    watch_step env syncFn (Waiting cfg s) (Running (cfg\<lparr>cf_InitialDelay := 0\<rparr>) (resume_watch env cfg s sys'))"
| give_up: "run_state (WaitForRepoDir env cfg wakes) (sd_sys s) = (Some False, sys') \<Longrightarrow>
    watch_step env syncFn (Waiting cfg s) (Stopped (snd (run_state (watch_end cfg) sys')))"

inductive watch_reachable ::
  "'w env \<Rightarrow> (repo_config \<Rightarrow> ('w sys, goerror option) state) \<Rightarrow> repo_config \<Rightarrow> 'w watcher \<Rightarrow> bool"
  for env syncFn cfg where
  begin_watch: "watch_reachable env syncFn cfg (Running (watch_config cfg)
    (start env (watch_config cfg) (snd (run_state (watch_begin (watch_config cfg)) sys))))"
| watch_more: "watch_reachable env syncFn cfg x \<Longrightarrow> watch_step env syncFn x y \<Longrightarrow> watch_reachable env syncFn cfg y"

inductive_cases watch_stepE: "watch_step env syncFn x y"

section \<open>Waiting\<close>

definition missing_at :: "'w env \<Rightarrow> repo_config \<Rightarrow> 'w \<Rightarrow> bool" where
  "missing_at env cfg w \<longleftrightarrow>
     (case en_stat env w (cf_RepoPath cfg) of Inl e \<Rightarrow> os_IsNotExist e \<or> isNotDirErr e | Inr info \<Rightarrow> \<not> fi_IsDir info)"

lemma RepoDirMissing_at: "RepoDirMissing env (cf_RepoPath cfg) s = missing_at env cfg (sy_world s)"
  by (simp add: RepoDirMissing_def missing_at_def)

lemma wait_loop_skip:
  assumes "\<And>w. w \<in> set ws \<Longrightarrow> missing_at env cfg w"
  shows "\<exists>w. run_state (wait_loop env cfg (map Tick ws @ xs)) s = run_state (wait_loop env cfg xs) (s\<lparr>sy_world := w\<rparr>)"
  using assms
proof (induction ws arbitrary: s)
  case Nil
  show ?case by (rule exI [of _ "sy_world s"]) simp
next
  case (Cons w ws)
  have "run_state (wait_loop env cfg (map Tick (w # ws) @ xs)) s =
      run_state (wait_loop env cfg (map Tick ws @ xs)) (s\<lparr>sy_world := w\<rparr>)"
    using Cons.prems [of w] by (simp add: RepoDirMissing_at)
  then show ?case using Cons.IH [of "s\<lparr>sy_world := w\<rparr>"] Cons.prems by auto
qed

lemma run_ReportRepoMissing:
  assumes "cf_State cfg" and "cf_Emitter cfg"
  shows "snd (run_state (ReportRepoMissing env cfg) s) =
    (let m = MarkRepoMissing (sy_store s) (cf_RepoPath cfg) (RepoMissingMessage (cf_RepoPath cfg));
         s1 = s\<lparr>sy_store := snd m\<rparr>
     in if fst m then s1\<lparr>sy_events := sy_events s @ [NewCodedEvent (now_unix env s1) EventPreflight (cf_RepoPath cfg)
          (RepoMissingMessage (cf_RepoPath cfg)) CodeRepoMissing]\<rparr> else s1)"
  using assms by (simp add: ReportRepoMissing_def with_store_def emit_now_def emitEvent_def Let_def)

lemma run_ReportRepoFound:
  assumes "cf_State cfg" and "cf_Emitter cfg" and "fst (ClearRepoMissing (sy_store s) (cf_RepoPath cfg))"
  shows "\<exists>t. snd (run_state (ReportRepoFound env cfg) s) =
    s\<lparr>sy_store := snd (ClearRepoMissing (sy_store s) (cf_RepoPath cfg)),
      sy_events := sy_events s @ [NewEvent t EventRecovered (cf_RepoPath cfg) ''repository folder found again'' StatusIdle]\<rparr>"
  using assms by (simp add: ReportRepoFound_def with_store_def emit_now_def emitEvent_def Let_def) blast

lemma MarkRepoMissing_current:
  "current (snd (MarkRepoMissing st p msg)) p =
    (current st p)\<lparr>st_Status := StatusPreflight, st_Preflight := msg, st_LastError := msg, st_ErrorCode := CodeRepoMissing,
      st_NextRetryTs := 0, st_BatchPending := False, st_BatchDueTs := 0, st_Seq := rs_seq st + 1\<rparr>"
  "Get (snd (MarkRepoMissing st p msg)) p \<noteq> None"
  by (simp_all add: MarkRepoMissing_def Let_def current_Update Get_Update)

lemma ClearRepoMissing_Get:
  assumes "Get st p = Some x" and "st_ErrorCode x = CodeRepoMissing"
  shows "fst (ClearRepoMissing st p)"
    and "Get (snd (ClearRepoMissing st p)) p = Some ((clear_missing x)\<lparr>st_Seq := rs_seq st + 1\<rparr>)"
  using assms by (simp_all add: ClearRepoMissing_def Let_def UpdateExisting_def Get_def publish_def)

text \<open>The events and the state at the end of a wait that finds the folder again.\<close>

definition found_again :: "repo_config \<Rightarrow> 'w sys \<Rightarrow> 'w sys \<Rightarrow> bool" where
  "found_again cfg s s' \<longleftrightarrow>
     (\<exists>t u. sy_events s' = sy_events s @
        (if fst (MarkRepoMissing (sy_store s) (cf_RepoPath cfg) (RepoMissingMessage (cf_RepoPath cfg)))
         then [NewCodedEvent t EventPreflight (cf_RepoPath cfg) (RepoMissingMessage (cf_RepoPath cfg)) CodeRepoMissing]
         else []) @
        [NewEvent u EventRecovered (cf_RepoPath cfg) ''repository folder found again'' StatusIdle]) \<and>
     st_ErrorCode (current (sy_store s') (cf_RepoPath cfg)) = [] \<and>
     st_Status (current (sy_store s') (cf_RepoPath cfg)) =
       (if st_Paused (current (sy_store s) (cf_RepoPath cfg)) then StatusPaused else StatusIdle)"

lemma found_after_missing:
  assumes "cf_State cfg" and "cf_Emitter cfg"
    and y: "y = snd (run_state (ReportRepoMissing env cfg) s)" and y': "sy_store y' = sy_store y" "sy_events y' = sy_events y"
    and s': "s' = snd (run_state (ReportRepoFound env cfg) y')"
  shows "found_again cfg s s'"
proof -
  let ?p = "cf_RepoPath cfg"
  let ?m = "MarkRepoMissing (sy_store s) ?p (RepoMissingMessage ?p)"
  have st: "sy_store y' = snd ?m"
    unfolding y'(1) y run_ReportRepoMissing [OF assms(1,2)] by (simp add: Let_def)
  obtain x where x: "Get (snd ?m) ?p = Some x" using MarkRepoMissing_current(2) by blast
  then have cx: "x = current (snd ?m) ?p" by (simp add: current_def)
  have code: "st_ErrorCode x = CodeRepoMissing" and paused: "st_Paused x = st_Paused (current (sy_store s) ?p)"
    unfolding cx MarkRepoMissing_current(1) by simp_all
  note clear = ClearRepoMissing_Get [OF x code]
  obtain u where u: "s' = y'\<lparr>sy_store := snd (ClearRepoMissing (snd ?m) ?p),
      sy_events := sy_events y' @ [NewEvent u EventRecovered ?p ''repository folder found again'' StatusIdle]\<rparr>"
    using run_ReportRepoFound [OF assms(1,2), of y' env] clear(1) unfolding st s' by blast
  have cur: "current (sy_store s') ?p = (clear_missing x)\<lparr>st_Seq := rs_seq (snd ?m) + 1\<rparr>"
    using clear(2) unfolding u by (simp add: current_def)
  have "\<exists>t. sy_events y' = sy_events s @
      (if fst ?m then [NewCodedEvent t EventPreflight ?p (RepoMissingMessage ?p) CodeRepoMissing] else [])"
    unfolding y'(2) y run_ReportRepoMissing [OF assms(1,2)] by (auto simp: Let_def)
  then have "\<exists>t u. sy_events s' = sy_events s @
      (if fst ?m then [NewCodedEvent t EventPreflight ?p (RepoMissingMessage ?p) CodeRepoMissing] else []) @
      [NewEvent u EventRecovered ?p ''repository folder found again'' StatusIdle]"
    using u by auto
  moreover have "st_ErrorCode (current (sy_store s') ?p) = []"
    "st_Status (current (sy_store s') ?p) = (if st_Paused (current (sy_store s) ?p) then StatusPaused else StatusIdle)"
    unfolding cur using code paused by (simp_all add: clear_missing_def)
  ultimately show ?thesis unfolding found_again_def by blast
qed

section \<open>Properties\<close>

text \<open>
  C34. A folder that comes back is noticed at the first tick that sees it: the wait then ends, however
  long the folder was gone. Its absence was reported once, unless it was already recorded, and its
  return once; and the repository is idle again, or paused if it was, without an error.
\<close>

theorem wait_ends_when_found:
  assumes "cf_State cfg" and "cf_Emitter cfg" and "missing_at env cfg (sy_world s)"
    and "\<And>w. w \<in> set ws \<Longrightarrow> missing_at env cfg w" and "\<not> missing_at env cfg w" and "en_cancelled env w = None"
    and "run_state (WaitForRepoDir env cfg (map Tick ws @ Tick w # rest)) s = (r, s')"
  shows "r = Some True \<and> found_again cfg s s'"
proof -
  let ?y = "snd (run_state (ReportRepoMissing env cfg) s)"
  obtain v where v: "run_state (wait_loop env cfg (map Tick ws @ Tick w # rest)) ?y =
      run_state (wait_loop env cfg (Tick w # rest)) (?y\<lparr>sy_world := v\<rparr>)"
    using wait_loop_skip [OF assms(4)] by blast
  let ?z = "?y\<lparr>sy_world := w\<rparr>"
  have w: "sy_world (snd (run_state (ReportRepoFound env cfg) ?z)) = w"
    using assms(1,2) by (simp add: ReportRepoFound_def with_store_def emit_now_def emitEvent_def)
  have "run_state (WaitForRepoDir env cfg (map Tick ws @ Tick w # rest)) s =
      (Some True, snd (run_state (ReportRepoFound env cfg) ?z))"
    using assms(3,5,6) v w by (simp add: WaitForRepoDir_def RepoDirMissing_at split_beta ctx_err_def)
  then have "r = Some True" "s' = snd (run_state (ReportRepoFound env cfg) ?z)" using assms(7) by simp_all
  then show ?thesis using found_after_missing [OF assms(1,2) refl, of ?z env s s'] by simp
qed

text \<open>A folder that is missing in the world \<open>False\<close>.\<close>

definition folder_env :: "bool env" where
  "folder_env = \<lparr>
     en_run = \<lambda>w _. (\<lparr>rr_out = [], rr_err = [], rr_fail = None, rr_deadline = False\<rparr>, w),
     en_stat = \<lambda>w _. if w then Inr \<lparr>fi_IsDir = True, fi_Exec = True, fi_ModTime = 0, fi_Size = 0\<rparr>
       else Inl (PathError ''stat'' ''/r'' (Sentinel ErrNotExist)),
     en_remove = \<lambda>w _. w, en_sleep = \<lambda>w _. (True, w), en_cancelled = \<lambda>_. None, en_now = \<lambda>_. 0,
     en_append = \<lambda>w _ _. w, en_clients = \<lambda>_. False, en_quote = id, en_environ = [], en_path = []\<rparr>"

definition gone_sys :: "bool sys" where
  "gone_sys = \<lparr>sy_world = False, sy_store = NewRepoStateStore, sy_events = [], sy_trace = [],
     sy_facts = [], sy_warned = [], sy_alerts = []\<rparr>"

theorem wait_ends_when_found_witness:
  "fst (run_state (WaitForRepoDir folder_env demo_cfg [Tick False, Tick False, Tick True]) gone_sys) = Some True"
proof -
  obtain r s' where run: "run_state (WaitForRepoDir folder_env demo_cfg (map Tick [False, False] @ Tick True # [])) gone_sys = (r, s')"
    by (metis surj_pair)
  have m: "missing_at folder_env demo_cfg False" "\<not> missing_at folder_env demo_cfg True" by code_simp+
  have "sy_world gone_sys = False" "en_cancelled folder_env True = None" "cf_State demo_cfg" "cf_Emitter demo_cfg"
    by code_simp+
  then have "r = Some True" using wait_ends_when_found [OF _ _ _ _ m(2) _ run] m(1) by auto
  then show ?thesis using run by simp
qed

text \<open>
  C21. Whatever happens to a watcher, through every loss and return of its folder: it keeps watching
  the same repository, the poll interval is positive, so that creating its ticker cannot panic,
  and the scheduler's back-offs are within their bounds.
\<close>

theorem watcher_invariant:
  assumes "watch_reachable env syncFn cfg (Running c s)"
  shows "cf_RepoPath c = cf_RepoPath cfg \<and> 0 < cf_PollInterval c \<and>
    errorBackoffMin \<le> sd_errorBackoff s \<and> sd_errorBackoff s \<le> errorBackoffMax \<and>
    offlineBackoffMin \<le> sd_offlineBackoff s \<and> sd_offlineBackoff s \<le> offlineBackoffMax \<and>
    (sd_batching s \<longrightarrow> sd_fs s \<noteq> None)"
proof -
  let ?same = "\<lambda>c. cf_RepoPath c = cf_RepoPath cfg \<and> 0 < cf_PollInterval c"
  have resume: "sched_ok (resume_watch env c s y)" for c and s :: "'a sched" and y
    using ok_start [of env "c\<lparr>cf_InitialDelay := 0\<rparr>" y] by (simp add: resume_watch_def sched_ok_def)
  have "watch_reachable env syncFn cfg x \<Longrightarrow>
      (case x of Running c s \<Rightarrow> ?same c \<and> sched_ok s | Waiting c s \<Rightarrow> ?same c | Stopped _ \<Rightarrow> True)" for x
  proof (induction rule: watch_reachable.induct)
    case (begin_watch sys)
    show ?case by (simp add: watch_config_def DefaultPollInterval_def ok_start)
  next
    case (watch_more x y)
    from watch_more(2,3) show ?case
      by (elim watch_stepE) (auto simp: resume intro: ok_sched_step)
  qed
  from this [OF assms] show ?thesis by (simp add: sched_ok_def)
qed

theorem watcher_invariant_witness:
  "0 < cf_PollInterval (watch_config (demo_cfg\<lparr>cf_PollInterval := 0\<rparr>))"
  using watcher_invariant [OF watch_reachable.begin_watch [of "demo_env []" "AutoSyncCtx (demo_env []) Live"
      "demo_cfg\<lparr>cf_PollInterval := 0\<rparr>" demo_sys]] by simp

end
