(* ===== verification/Persist.thy ===== *)
theory Persist
  imports RepoState
begin

text \<open>
  \<open>common/atomicfile.go\<close> and \<open>common/repostate_persist.go\<close>: replacing a file atomically, and
  the part of the repository states that survives a restart of the daemon.

  A file system is a map from names to contents and permissions. \<open>WriteFileAtomic\<close> returns every
  file system it goes through, so that its promise to concurrent readers (and to a reader after
  a crash) can be stated. The outcome of each system call is an argument. The JSON codec of
  Go's library is a pair of parameters \<open>enc\<close> and \<open>dec\<close>.
\<close>

section \<open>Atomic replacement of a file\<close>

type_synonym filesystem = "string \<rightharpoonup> string \<times> nat"

record atomic_env =
  ae_temp :: "string option" \<comment> \<open>the name \<open>os.CreateTemp\<close> returns; \<open>None\<close> when it fails\<close>
  ae_write :: "nat option" \<comment> \<open>\<open>Some k\<close>: \<open>Write\<close> fails after \<open>k\<close> bytes\<close>
  ae_sync :: bool
  ae_chmod :: bool
  ae_close :: bool
  ae_rename :: bool
  ae_remove :: bool

definition remove_temp :: "atomic_env \<Rightarrow> string \<Rightarrow> filesystem \<Rightarrow> filesystem" where
  "remove_temp env tmp fs = (if ae_remove env then fs(tmp := None) else fs)"

text \<open>\<open>True\<close> stands for the nil error.\<close>

definition WriteFileAtomic ::
  "atomic_env \<Rightarrow> filesystem \<Rightarrow> string \<Rightarrow> string \<Rightarrow> nat \<Rightarrow> bool \<times> filesystem list" where
  "WriteFileAtomic env fs path content perm =
     (case ae_temp env of
        None \<Rightarrow> (False, [fs])
      | Some tmp \<Rightarrow>
          let fs1 = fs(tmp \<mapsto> ([], 384)) in
          (case ae_write env of
             Some k \<Rightarrow>
               let fs2 = fs1(tmp \<mapsto> (take k content, 384))
               in (False, [fs, fs1, fs2, remove_temp env tmp fs2])
           | None \<Rightarrow>
               let fs2 = fs1(tmp \<mapsto> (content, 384)) in
               if \<not> ae_sync env then (False, [fs, fs1, fs2, remove_temp env tmp fs2])
               else if \<not> ae_chmod env then (False, [fs, fs1, fs2, remove_temp env tmp fs2])
               else
                 let fs3 = fs2(tmp \<mapsto> (content, perm)) in
                 if \<not> ae_close env then (False, [fs, fs1, fs2, fs3, remove_temp env tmp fs3])
                 else if \<not> ae_rename env then (False, [fs, fs1, fs2, fs3, remove_temp env tmp fs3])
                 else (True, [fs, fs1, fs2, fs3, (fs3(path := fs3 tmp))(tmp := None)])))"

lemmas write_atomic_defs = WriteFileAtomic_def remove_temp_def Let_def

lemma WriteFileAtomic_nonempty [simp]: "snd (WriteFileAtomic env fs path content perm) \<noteq> []"
  by (simp add: write_atomic_defs split: option.split)

lemma WriteFileAtomic_final:
  assumes "\<And>t. ae_temp env = Some t \<Longrightarrow> t \<noteq> path"
  shows "last (snd (WriteFileAtomic env fs path content perm)) path =
    (if fst (WriteFileAtomic env fs path content perm) then Some (content, perm) else fs path)"
  using assms by (auto simp: write_atomic_defs split: option.split)

section \<open>The persisted states\<close>

definition persistedStateVersion :: go_int where
  "persistedStateVersion = 1"

record persisted_repo_state =
  pp_Path :: string
  pp_Paused :: bool
  pp_LastSyncTs :: int
  pp_LastChangeTs :: int
  pp_LastCheckTs :: int
  pp_Conflict :: bool
  pp_ConflictFiles :: "string list"
  pp_ConflictHead :: string
  pp_ConflictUp :: string

record persisted_state_file =
  pf_Version :: go_int
  pf_Repos :: "persisted_repo_state list"

definition to_persisted :: "repo_state \<Rightarrow> persisted_repo_state" where
  "to_persisted st = \<lparr>pp_Path = st_Path st, pp_Paused = st_Paused st,
     pp_LastSyncTs = st_LastSyncTs st, pp_LastChangeTs = st_LastChangeTs st,
     pp_LastCheckTs = st_LastCheckTs st, pp_Conflict = st_Conflict st,
     pp_ConflictFiles = (if st_Conflict st then st_ConflictFiles st else []),
     pp_ConflictHead = st_ConflictHead st, pp_ConflictUp = st_ConflictUp st\<rparr>"

definition persisted_file :: "repo_store \<Rightarrow> persisted_state_file" where
  "persisted_file s = \<lparr>pf_Version = persistedStateVersion,
     pf_Repos = sort_key pp_Path (map (\<lambda>(_, st). to_persisted st) (rs_states s))\<rparr>"

definition MarshalPersisted ::
  "(persisted_state_file \<Rightarrow> string option) \<Rightarrow> repo_store \<Rightarrow> string option" where
  "MarshalPersisted enc s =
     (case enc (persisted_file s) of None \<Rightarrow> None | Some content \<Rightarrow> Some (content @ [CHR 0x0A]))"

text \<open>
  \<open>SavePersisted\<close> returns the bytes the caller passes as \<open>previous\<close> the next time (\<open>None\<close> is a nil
  slice), whether the error is nil, and the file system. \<open>mkdir\<close> is the outcome of \<open>MkdirAll\<close>.
\<close>

definition SavePersisted ::
  "(persisted_state_file \<Rightarrow> string option) \<Rightarrow> bool \<Rightarrow> atomic_env \<Rightarrow> repo_store \<Rightarrow> filesystem \<Rightarrow>
   string \<Rightarrow> string option \<Rightarrow> string option \<times> bool \<times> filesystem" where
  "SavePersisted enc mkdir env s fs path previous =
     (case MarshalPersisted enc s of
        None \<Rightarrow> (previous, False, fs)
      | Some content \<Rightarrow>
          if previous = Some content then (previous, True, fs)
          else if \<not> mkdir then (previous, False, fs)
          else
            let r = WriteFileAtomic env fs path content 384 in
            if fst r then (Some content, True, last (snd r)) else (previous, False, last (snd r)))"

datatype read_result = NotExist | ReadFailed | ReadData string

definition load_state :: "persisted_repo_state \<Rightarrow> repo_state \<Rightarrow> repo_state" where
  "load_state p st =
     (let st1 = st\<lparr>st_Paused := pp_Paused p, st_LastSyncTs := pp_LastSyncTs p,
            st_LastChangeTs := pp_LastChangeTs p, st_LastCheckTs := pp_LastCheckTs p,
            st_ConflictHead := pp_ConflictHead p, st_ConflictUp := pp_ConflictUp p\<rparr>;
          st2 = (if pp_Conflict p
                 then st1\<lparr>st_Conflict := True, st_ConflictFiles := pp_ConflictFiles p,
                        st_Status := StatusConflict, st_ErrorCode := CodeConflict,
                        st_LastError := ''rebase conflict''\<rparr>
                 else st1)
      in if pp_Paused p then st2\<lparr>st_Status := StatusPaused\<rparr> else st2)"

fun load_repos ::
  "(string \<Rightarrow> bool) \<Rightarrow> persisted_repo_state list \<Rightarrow> repo_store \<Rightarrow> go_int \<Rightarrow> go_int \<times> repo_store" where
  "load_repos keep [] s n = (n, s)"
| "load_repos keep (p # ps) s n =
     (if pp_Path p = [] \<or> \<not> keep (pp_Path p) then load_repos keep ps s n
      else load_repos keep ps
             (s\<lparr>rs_states := AList.update (pp_Path p) (load_state p (current s (pp_Path p))) (rs_states s)\<rparr>)
             (n + 1))"

definition LoadPersisted ::
  "(string \<Rightarrow> persisted_state_file option) \<Rightarrow> repo_store \<Rightarrow> read_result \<Rightarrow> (string \<Rightarrow> bool) \<Rightarrow>
   (go_int \<times> bool) \<times> repo_store" where
  "LoadPersisted dec s r keep =
     (case r of
        NotExist \<Rightarrow> ((0, True), s)
      | ReadFailed \<Rightarrow> ((0, False), s)
      | ReadData content \<Rightarrow>
          (case dec content of
             None \<Rightarrow> ((0, False), s)
           | Some pf \<Rightarrow>
               (case load_repos keep (pf_Repos pf) s 0 of (n, s') \<Rightarrow> ((n, True), s'))))"

section \<open>Lemmas\<close>

text \<open>What a restart keeps of a state.\<close>

definition restored :: "repo_state \<Rightarrow> repo_state" where
  "restored st = (idle_state (st_Path st))\<lparr>
     st_Paused := st_Paused st, st_LastSyncTs := st_LastSyncTs st,
     st_LastChangeTs := st_LastChangeTs st, st_LastCheckTs := st_LastCheckTs st,
     st_ConflictHead := st_ConflictHead st, st_ConflictUp := st_ConflictUp st,
     st_Conflict := st_Conflict st,
     st_ConflictFiles := (if st_Conflict st then st_ConflictFiles st else []),
     st_ErrorCode := (if st_Conflict st then CodeConflict else []),
     st_LastError := (if st_Conflict st then ''rebase conflict'' else []),
     st_Status := (if st_Paused st then StatusPaused
                   else if st_Conflict st then StatusConflict else StatusIdle)\<rparr>"

lemma load_state_restored: "load_state (to_persisted st) (idle_state (st_Path st)) = restored st"
  by (simp add: load_state_def to_persisted_def restored_def idle_state_def Let_def)

lemma pp_Path_to_persisted [simp]: "pp_Path (to_persisted st) = st_Path st"
  by (simp add: to_persisted_def)

lemma Get_states_update:
  "Get (s\<lparr>rs_states := AList.update k v (rs_states s)\<rparr>) p = (if p = k then Some v else Get s p)"
  by (simp add: Get_def)

lemma load_repos_Get:
  assumes "distinct (map pp_Path ps)" and "\<And>p. p \<in> set ps \<Longrightarrow> pp_Path p \<noteq> [] \<and> keep (pp_Path p)"
    and "\<And>p. p \<in> set ps \<Longrightarrow> Get s (pp_Path p) = None"
  shows "fst (load_repos keep ps s n) = n + int (length ps) \<and>
    (\<forall>q. Get (snd (load_repos keep ps s n)) q =
      (case find (\<lambda>p. pp_Path p = q) ps of
         None \<Rightarrow> Get s q | Some p \<Rightarrow> Some (load_state p (idle_state (pp_Path p)))))"
  using assms
proof (induction ps arbitrary: s n)
  case Nil
  then show ?case by simp
next
  case (Cons p ps)
  let ?s = "s\<lparr>rs_states := AList.update (pp_Path p) (load_state p (current s (pp_Path p))) (rs_states s)\<rparr>"
  have cur: "current s (pp_Path p) = idle_state (pp_Path p)"
    using Cons.prems(3) [of p] by (simp add: current_def)
  have notin: "\<And>p'. p' \<in> set ps \<Longrightarrow> pp_Path p' \<noteq> pp_Path p"
    using Cons.prems(1) by (auto simp: image_iff)
  then have none: "find (\<lambda>p'. pp_Path p' = pp_Path p) ps = None" by (auto simp: find_None_iff)
  have "fst (load_repos keep ps ?s (n + 1)) = (n + 1) + int (length ps) \<and>
    (\<forall>q. Get (snd (load_repos keep ps ?s (n + 1))) q =
      (case find (\<lambda>p. pp_Path p = q) ps of
         None \<Rightarrow> Get ?s q | Some p \<Rightarrow> Some (load_state p (idle_state (pp_Path p)))))"
    using Cons.prems notin by (intro Cons.IH) (auto simp: Get_states_update)
  moreover have "load_repos keep (p # ps) s n = load_repos keep ps ?s (n + 1)"
    using Cons.prems(2) [of p] by simp
  ultimately show ?case
    using none by (auto simp: Get_states_update cur split: option.split)
qed

lemma distinct_sort_key_paths:
  assumes "distinct (map fst al)" and "\<And>k st. (k, st) \<in> set al \<Longrightarrow> st_Path st = k"
  shows "distinct (map pp_Path (sort_key pp_Path (map (\<lambda>(_, st). to_persisted st) al)))"
proof -
  have "map (pp_Path \<circ> (\<lambda>(_, st). to_persisted st)) al = map fst al"
    using assms(2) by (auto simp del: map_eq_conv intro!: map_cong)
  then have "distinct (map pp_Path (map (\<lambda>(_, st). to_persisted st) al))"
    unfolding map_map using assms(1) by (simp del: map_eq_conv)
  then show ?thesis unfolding distinct_map [of pp_Path] by (simp only: distinct_sort set_sort)
qed

lemma find_unique:
  assumes "distinct (map f xs)"
  shows "find (\<lambda>x. f x = q) xs = Some x \<longleftrightarrow> x \<in> set xs \<and> f x = q"
  using assms by (induction xs) (auto simp: image_iff)

lemma load_persisted_file:
  assumes inv: "store_inv s" and ne: "Get s [] = None"
    and keep: "\<And>p. Get s p \<noteq> None \<Longrightarrow> keep p"
  shows "fst (load_repos keep (pf_Repos (persisted_file s)) NewRepoStateStore 0) = int (length (rs_states s)) \<and>
    Get (snd (load_repos keep (pf_Repos (persisted_file s)) NewRepoStateStore 0)) q =
      map_option restored (Get s q)"
proof -
  let ?ps = "sort_key pp_Path (map (\<lambda>(_, st). to_persisted st) (rs_states s))"
  have dist: "distinct (map fst (rs_states s))" using inv by (simp add: store_inv_def)
  have mem: "(k, st) \<in> set (rs_states s) \<longleftrightarrow> Get s k = Some st" for k st
    using dist by (simp add: Get_def)
  have path: "(k, st) \<in> set (rs_states s) \<Longrightarrow> st_Path st = k" for k st
    using inv by (auto simp: mem store_inv_def)
  have dps: "distinct (map pp_Path ?ps)" using dist path by (rule distinct_sort_key_paths)
  have set_ps: "p \<in> set ?ps \<longleftrightarrow> (\<exists>k st. Get s k = Some st \<and> p = to_persisted st)" for p
    by (force simp: mem)
  have L: "fst (load_repos keep ?ps NewRepoStateStore 0) = 0 + int (length ?ps) \<and>
    (\<forall>q. Get (snd (load_repos keep ?ps NewRepoStateStore 0)) q =
      (case find (\<lambda>p. pp_Path p = q) ?ps of
         None \<Rightarrow> Get NewRepoStateStore q | Some p \<Rightarrow> Some (load_state p (idle_state (pp_Path p)))))"
  proof (rule load_repos_Get [OF dps])
    fix p assume "p \<in> set ?ps"
    then obtain k st where k: "Get s k = Some st" and p: "p = to_persisted st" using set_ps by blast
    then have "st_Path st = k" using inv by (simp add: store_inv_def)
    then show "pp_Path p \<noteq> [] \<and> keep (pp_Path p)" using k p ne keep [of k] by auto
    show "Get NewRepoStateStore (pp_Path p) = None" by (simp add: Get_def NewRepoStateStore_def)
  qed
  show ?thesis
  proof (cases "Get s q")
    case None
    have "find (\<lambda>p. pp_Path p = q) ?ps = None"
    proof (rule ccontr)
      assume "find (\<lambda>p. pp_Path p = q) ?ps \<noteq> None"
      then obtain p where "p \<in> set ?ps" "pp_Path p = q"
        using find_unique [OF dps] by (metis not_None_eq)
      then obtain k st where "Get s k = Some st" "st_Path st = q" using set_ps by auto
      then show False using inv None by (auto simp: store_inv_def)
    qed
    then show ?thesis using L None by (simp add: persisted_file_def Get_def NewRepoStateStore_def)
  next
    case (Some st)
    then have p: "st_Path st = q" using inv by (simp add: store_inv_def)
    then have "find (\<lambda>p. pp_Path p = q) ?ps = Some (to_persisted st)"
      using Some set_ps [of "to_persisted st"] by (subst find_unique [OF dps]) auto
    then show ?thesis using L Some by (simp add: persisted_file_def load_state_restored)
  qed
qed

lemma save_in_sync:
  assumes "\<And>t. ae_temp env = Some t \<Longrightarrow> t \<noteq> path"
    and "previous = None \<or> map_option fst (fs path) = previous"
    and "SavePersisted enc mkdir env s fs path previous = (previous', ok, fs')"
  shows "(previous' = None \<or> map_option fst (fs' path) = previous') \<and>
    (ok \<longrightarrow> map_option fst (fs' path) = MarshalPersisted enc s \<and> previous' = MarshalPersisted enc s)"
  using assms(2,3) WriteFileAtomic_final [OF assms(1), where fs = fs]
  by (auto simp: SavePersisted_def Let_def split: option.splits if_splits)

section \<open>Properties\<close>

text \<open>
  C29. A file replaced with \<open>WriteFileAtomic\<close> is never seen half written: in every file system
  the call goes through, whichever system call fails, the file has either its old contents or
  all of the new ones; the error is nil exactly when the new contents are in place for good, no
  other file changes, and no temporary file is left behind on success, nor on failure when it
  can be removed. (The temporary name is one that no file had.)
\<close>

theorem WriteFileAtomic_atomic:
  assumes "\<And>t. ae_temp env = Some t \<Longrightarrow> t \<noteq> path \<and> fs t = None"
  shows "(\<forall>m \<in> set (snd (WriteFileAtomic env fs path content perm)).
            m path = fs path \<or> m path = Some (content, perm)) \<and>
    (let r = WriteFileAtomic env fs path content perm in
     (fst r \<longrightarrow> last (snd r) = fs(path \<mapsto> (content, perm))) \<and>
     (\<not> fst r \<longrightarrow> (\<forall>q. Some q \<noteq> ae_temp env \<longrightarrow> last (snd r) q = fs q)) \<and>
     (\<not> fst r \<and> ae_remove env \<longrightarrow> last (snd r) = fs))"
  using assms by (auto simp: write_atomic_defs fun_eq_iff split: option.split)

theorem WriteFileAtomic_atomic_witness:
  "(let fs = [''c'' \<mapsto> (''old'', 420)];
        env = \<lparr>ae_temp = Some ''.c.1.tmp'', ae_write = None, ae_sync = True, ae_chmod = True,
                ae_close = True, ae_rename = False, ae_remove = True\<rparr>
    in last (snd (WriteFileAtomic env fs ''c'' ''new'' 420)) = fs)"
  using WriteFileAtomic_atomic [of "\<lparr>ae_temp = Some ''.c.1.tmp'', ae_write = None, ae_sync = True,
      ae_chmod = True, ae_close = True, ae_rename = False, ae_remove = True\<rparr>" "''c''"
      "[''c'' \<mapsto> (''old'', 420)]" "''new''" 420]
  by (simp add: Let_def WriteFileAtomic_def)

text \<open>
  C30. A restart restores what must survive it. If the JSON decoder inverts the encoder on the
  file that is written, then saving a store and loading the file into a new store, with every
  repository still configured, succeeds, counts every repository, and gives every repository its
  paused flag, time stamps and conflict (files, refs and code) back, with status paused, conflict
  or idle accordingly; nothing else is in the new store.
\<close>

theorem persisted_roundtrip:
  assumes "store_inv s" and "Get s [] = None" and "\<And>p. Get s p \<noteq> None \<Longrightarrow> keep p"
    and "MarshalPersisted enc s = Some content" and "dec content = Some (persisted_file s)"
    and "LoadPersisted dec NewRepoStateStore (ReadData content) keep = (res, s')"
  shows "res = (int (length (rs_states s)), True) \<and> Get s' q = map_option restored (Get s q)"
  using load_persisted_file [OF assms(1,2), of keep q] assms(3,5,6)
  by (auto simp: LoadPersisted_def split: prod.splits)

text \<open>A codec for the witness: the file is printed as the paths of its paused repositories.\<close>

definition demo_store :: repo_store where
  "demo_store = store_run NewRepoStateStore
     [OpConflict ''/b'' [''x''] ''m'', OpPaused ''/a'' True, OpPaused ''/b'' True]"

definition demo_dec :: "string \<Rightarrow> persisted_state_file option" where
  "demo_dec content = (if content = [CHR ''j'', CHR 0x0A] then Some (persisted_file demo_store) else None)"

theorem persisted_roundtrip_witness:
  "Get (snd (LoadPersisted demo_dec NewRepoStateStore (ReadData [CHR ''j'', CHR 0x0A]) (\<lambda>_. True))) ''/b'' =
     map_option restored (Get demo_store ''/b'')"
proof -
  let ?r = "LoadPersisted demo_dec NewRepoStateStore (ReadData [CHR ''j'', CHR 0x0A]) (\<lambda>_. True)"
  have "store_inv demo_store"
    unfolding demo_store_def by (rule store_inv_run [OF store_inv_New])
  moreover have "Get demo_store [] = None" by code_simp
  moreover have "MarshalPersisted (\<lambda>_. Some ''j'') demo_store = Some [CHR ''j'', CHR 0x0A]"
    by (simp add: MarshalPersisted_def)
  moreover have "demo_dec [CHR ''j'', CHR 0x0A] = Some (persisted_file demo_store)"
    by (simp add: demo_dec_def)
  ultimately show ?thesis
    using persisted_roundtrip [of demo_store "\<lambda>_. True" "\<lambda>_. Some ''j''" "[CHR ''j'', CHR 0x0A]"
        demo_dec "fst ?r" "snd ?r" "''/b''"] by simp
qed

text \<open>
  The bytes the daemon remembers as saved are the bytes in the file: if they are before
  \<open>SavePersisted\<close>, they are after it, whatever fails; and a nil error means that the file now holds
  the marshalled store. So skipping the write when the bytes are unchanged never loses a change.
\<close>

theorem SavePersisted_in_sync:
  assumes "\<And>t. ae_temp env = Some t \<Longrightarrow> t \<noteq> path"
    and "previous = None \<or> map_option fst (fs path) = previous"
    and "SavePersisted enc mkdir env s fs path previous = (previous', ok, fs')"
  shows "(previous' = None \<or> map_option fst (fs' path) = previous') \<and>
    (ok \<longrightarrow> map_option fst (fs' path) = MarshalPersisted enc s \<and> previous' = MarshalPersisted enc s)"
  using assms by (rule save_in_sync)

theorem SavePersisted_in_sync_witness:
  "\<exists>fs'. SavePersisted (\<lambda>_. Some ''j'') True
      \<lparr>ae_temp = Some ''t'', ae_write = None, ae_sync = True, ae_chmod = True, ae_close = True,
       ae_rename = True, ae_remove = True\<rparr> demo_store Map.empty ''state.json'' None
      = (Some [CHR ''j'', CHR 0x0A], True, fs') \<and>
    map_option fst (fs' ''state.json'') = MarshalPersisted (\<lambda>_. Some ''j'') demo_store"
proof -
  let ?env = "\<lparr>ae_temp = Some ''t'', ae_write = None, ae_sync = True, ae_chmod = True,
    ae_close = True, ae_rename = True, ae_remove = True\<rparr>"
  obtain p' ok fs' where r: "SavePersisted (\<lambda>_. Some ''j'') True ?env demo_store Map.empty
    ''state.json'' None = (p', ok, fs')" by (metis prod_cases3)
  then have "p' = Some [CHR ''j'', CHR 0x0A] \<and> ok"
    by (simp add: SavePersisted_def MarshalPersisted_def WriteFileAtomic_def Let_def)
  then show ?thesis using SavePersisted_in_sync [OF _ _ r] r by simp
qed

end
