(* ===== verification/Config.thy ===== *)
theory Config
  imports GoPath Persist
begin

text \<open>
  \<open>common/config/v1.go\<close> and \<open>common/config/config.go\<close>: the list of repositories and of extra
  environment variables, in a JSON file.

  The directory comes from the third-party package \<open>configdir\<close>, so the path of the file is an
  argument, \<open>None\<close> when \<open>MakePath\<close> fails. The JSON codec is a pair of parameters, as in
  \<open>Persist\<close>.
\<close>

record config_v1 =
  cfg_Repos :: "string list"
  cfg_Envs :: "string list"

fun normalize_loop :: "string list \<Rightarrow> string list \<Rightarrow> string list \<Rightarrow> string list" where
  "normalize_loop [] seen out = out"
| "normalize_loop (rp # rps) seen out =
     (if rp = [] then normalize_loop rps seen out
      else if Clean rp \<in> set seen then normalize_loop rps seen out
      else normalize_loop rps (Clean rp # seen) (out @ [Clean rp]))"

definition NormalizeRepos :: "string list \<Rightarrow> string list" where
  "NormalizeRepos repos = normalize_loop repos [] []"

text \<open>\<open>None\<close> stands for a non-nil error.\<close>

definition ReadV1 ::
  "(string \<Rightarrow> config_v1 option) \<Rightarrow> string option \<Rightarrow> (string \<Rightarrow> read_result) \<Rightarrow> config_v1 option" where
  "ReadV1 dec configFilePath read =
     (case configFilePath of
        None \<Rightarrow> None
      | Some path \<Rightarrow>
          (case read path of
             NotExist \<Rightarrow> Some \<lparr>cfg_Repos = [], cfg_Envs = []\<rparr>
           | ReadFailed \<Rightarrow> None
           | ReadData content \<Rightarrow>
               if trim_space content = [] then Some \<lparr>cfg_Repos = [], cfg_Envs = []\<rparr>
               else (case dec content of
                       None \<Rightarrow> None
                     | Some c \<Rightarrow> Some (c\<lparr>cfg_Repos := NormalizeRepos (cfg_Repos c)\<rparr>))))"

definition WriteV1 ::
  "(config_v1 \<Rightarrow> string option) \<Rightarrow> string option \<Rightarrow> atomic_env \<Rightarrow> filesystem \<Rightarrow> config_v1 \<Rightarrow>
   bool \<times> filesystem" where
  "WriteV1 enc configFilePath env fs config =
     (case configFilePath of
        None \<Rightarrow> (False, fs)
      | Some path \<Rightarrow>
          (case enc (config\<lparr>cfg_Repos := NormalizeRepos (cfg_Repos config)\<rparr>) of
             None \<Rightarrow> (False, fs)
           | Some content \<Rightarrow>
               let r = WriteFileAtomic env fs path (content @ [CHR 0x0A]) 420
               in (fst r, last (snd r))))"

definition read_fs :: "filesystem \<Rightarrow> string \<Rightarrow> read_result" where
  "read_fs fs path = (case fs path of None \<Rightarrow> NotExist | Some (content, _) \<Rightarrow> ReadData content)"

section \<open>Lemmas\<close>

text \<open>The specification of normalisation: clean what is not empty, keep first occurrences.\<close>

fun first_occurrences :: "'a list \<Rightarrow> 'a list" where
  "first_occurrences [] = []"
| "first_occurrences (x # xs) = x # filter (\<lambda>y. y \<noteq> x) (first_occurrences xs)"

lemma set_first_occurrences [simp]: "set (first_occurrences xs) = set xs"
  by (induction xs) auto

lemma distinct_first_occurrences [simp]: "distinct (first_occurrences xs)"
  by (induction xs) auto

lemma first_occurrences_distinct: "distinct xs \<Longrightarrow> first_occurrences xs = xs"
  by (induction xs) (auto simp: filter_id_conv)

lemma normalize_loop_eq:
  "normalize_loop rps seen out =
     out @ filter (\<lambda>c. c \<notin> set seen) (first_occurrences (map Clean (filter (\<lambda>rp. rp \<noteq> []) rps)))"
proof (induction rps arbitrary: seen out)
  case (Cons rp rps)
  then show ?case by (auto intro!: filter_cong)
qed simp

lemma NormalizeRepos_eq:
  "NormalizeRepos rps = first_occurrences (map Clean (filter (\<lambda>rp. rp \<noteq> []) rps))"
  by (simp add: NormalizeRepos_def normalize_loop_eq)

lemma NormalizeRepos_idem: "NormalizeRepos (NormalizeRepos rps) = NormalizeRepos rps"
proof -
  let ?n = "NormalizeRepos rps"
  have "\<And>c. c \<in> set ?n \<Longrightarrow> c \<noteq> [] \<and> Clean c = c" by (auto simp: NormalizeRepos_eq)
  then have "map Clean (filter (\<lambda>rp. rp \<noteq> []) ?n) = ?n"
    by (simp add: filter_id_conv map_idI)
  then show ?thesis
    using first_occurrences_distinct [of ?n] by (simp add: NormalizeRepos_eq [of ?n])
      (simp add: NormalizeRepos_eq)
qed

text \<open>What is in the file after a write.\<close>

abbreviation normalized :: "config_v1 \<Rightarrow> config_v1" where
  "normalized c \<equiv> c\<lparr>cfg_Repos := NormalizeRepos (cfg_Repos c)\<rparr>"

lemma WriteV1_final:
  assumes "\<And>t. ae_temp env = Some t \<Longrightarrow> t \<noteq> path" and "WriteV1 enc (Some path) env fs c = (ok, fs')"
  shows "fs' path =
    (if ok then Some (the (enc (normalized c)) @ [CHR 0x0A], 420) else fs path)" and "ok \<Longrightarrow> enc (normalized c) \<noteq> None"
proof -
  have "fs' path = (if ok then Some (the (enc (normalized c)) @ [CHR 0x0A], 420) else fs path) \<and>
      (ok \<longrightarrow> enc (normalized c) \<noteq> None)"
  proof (cases "enc (normalized c)")
    case None
    then show ?thesis using assms(2) by (simp add: WriteV1_def)
  next
    case (Some content)
    let ?r = "WriteFileAtomic env fs path (content @ [CHR 0x0A]) 420"
    have "ok = fst ?r" "fs' = last (snd ?r)" using assms(2) Some by (auto simp: WriteV1_def Let_def)
    then show ?thesis using Some WriteFileAtomic_final [OF assms(1)] by simp
  qed
  then show "fs' path = (if ok then Some (the (enc (normalized c)) @ [CHR 0x0A], 420) else fs path)"
    and "ok \<Longrightarrow> enc (normalized c) \<noteq> None" by blast+
qed

lemma ReadV1_written:
  assumes "read path = ReadData (content @ [CHR 0x0A])" and "dec (content @ [CHR 0x0A]) = Some (normalized c)"
    and "trim_space (content @ [CHR 0x0A]) \<noteq> []"
  shows "ReadV1 dec (Some path) read = Some (normalized c)"
  using assms by (simp add: ReadV1_def NormalizeRepos_idem)

section \<open>Properties\<close>

text \<open>
  Normalising the repository list gives every non-empty path in clean form, in order of first
  occurrence, none of them empty and none of them twice; doing it again changes nothing.
\<close>

theorem NormalizeRepos_spec:
  "NormalizeRepos repos = first_occurrences (map Clean (filter (\<lambda>rp. rp \<noteq> []) repos)) \<and>
   distinct (NormalizeRepos repos) \<and> [] \<notin> set (NormalizeRepos repos) \<and>
   set (NormalizeRepos repos) = Clean ` (set repos - {[]}) \<and>
   NormalizeRepos (NormalizeRepos repos) = NormalizeRepos repos"
  unfolding NormalizeRepos_idem using Clean_not_Nil [symmetric] by (auto simp: NormalizeRepos_eq)

text \<open>
  What \<open>WriteV1\<close> writes \<open>ReadV1\<close> reads: if the write succeeds and the decoder inverts the
  encoder on the written document (which is not blank), reading returns the configuration with
  its repositories normalised; if the write fails, reading returns what it did before.
\<close>

theorem config_write_read:
  assumes "\<And>t. ae_temp env = Some t \<Longrightarrow> t \<noteq> path"
    and "\<And>content. enc (c\<lparr>cfg_Repos := NormalizeRepos (cfg_Repos c)\<rparr>) = Some content \<Longrightarrow>
      dec (content @ [CHR 0x0A]) = Some (c\<lparr>cfg_Repos := NormalizeRepos (cfg_Repos c)\<rparr>) \<and>
      trim_space (content @ [CHR 0x0A]) \<noteq> []"
    and "WriteV1 enc (Some path) env fs c = (ok, fs')"
  shows "ReadV1 dec (Some path) (read_fs fs') =
    (if ok then Some (c\<lparr>cfg_Repos := NormalizeRepos (cfg_Repos c)\<rparr>)
     else ReadV1 dec (Some path) (read_fs fs))"
proof (cases ok)
  case True
  then obtain content where c: "enc (normalized c) = Some content" using WriteV1_final(2) [OF assms(1,3)] by blast
  then have "fs' path = Some (content @ [CHR 0x0A], 420)" using WriteV1_final(1) [OF assms(1,3)] True by simp
  then have "ReadV1 dec (Some path) (read_fs fs') = Some (normalized c)"
    using assms(2) [OF c] by (intro ReadV1_written) (auto simp: read_fs_def)
  then show ?thesis using True by simp
next
  case False
  then have "fs' path = fs path" using WriteV1_final(1) [OF assms(1,3)] by simp
  then show ?thesis using False by (simp add: ReadV1_def read_fs_def)
qed

theorem config_write_read_witness:
  "let env = \<lparr>ae_temp = Some ''t'', ae_write = None, ae_sync = True, ae_chmod = True,
               ae_close = True, ae_rename = True, ae_remove = True\<rparr>;
       c = \<lparr>cfg_Repos = [''/a/b/'', ''/a/b'', [], ''/a/./c''], cfg_Envs = []\<rparr>;
       dec = (\<lambda>_. Some \<lparr>cfg_Repos = [''/a/b'', ''/a/c''], cfg_Envs = []\<rparr>);
       r = WriteV1 (\<lambda>_. Some ''j'') (Some ''config.json'') env Map.empty c
   in fst r \<and> ReadV1 dec (Some ''config.json'') (read_fs (snd r)) =
        Some \<lparr>cfg_Repos = [''/a/b'', ''/a/c''], cfg_Envs = []\<rparr>"
proof -
  let ?env = "\<lparr>ae_temp = Some ''t'', ae_write = None, ae_sync = True, ae_chmod = True,
    ae_close = True, ae_rename = True, ae_remove = True\<rparr>"
  let ?c = "\<lparr>cfg_Repos = [''/a/b/'', ''/a/b'', [], ''/a/./c''], cfg_Envs = []\<rparr>"
  have n: "NormalizeRepos [''/a/b/'', ''/a/b'', [], ''/a/./c''] = [''/a/b'', ''/a/c'']" by code_simp
  have t: "trim_space (''j'' @ [CHR 0x0A]) \<noteq> []" by code_simp
  let ?r = "WriteV1 (\<lambda>_. Some ''j'') (Some ''config.json'') ?env Map.empty ?c"
  have "fst ?r" by (simp add: WriteV1_def WriteFileAtomic_def Let_def)
  moreover have "ReadV1 (\<lambda>_. Some \<lparr>cfg_Repos = [''/a/b'', ''/a/c''], cfg_Envs = []\<rparr>)
      (Some ''config.json'') (read_fs (snd ?r)) =
    (if fst ?r then Some (?c\<lparr>cfg_Repos := NormalizeRepos (cfg_Repos ?c)\<rparr>)
     else ReadV1 (\<lambda>_. Some \<lparr>cfg_Repos = [''/a/b'', ''/a/c''], cfg_Envs = []\<rparr>)
        (Some ''config.json'') (read_fs Map.empty))"
    by (rule config_write_read [where enc = "\<lambda>_. Some ''j''" and env = ?env]) (use n t in simp_all)
  ultimately show ?thesis using n by (simp add: Let_def)
qed

end
