(* ===== verification/Daemon.thy ===== *)
theory Daemon
  imports Watch Config
begin

text \<open>
  \<open>daemon/main.go\<close> and \<open>daemon/state.go\<close>: the daemon's watchers and its saved state.

  Handles are never deleted here: the list \<open>dm_handles\<close> has one for every watcher ever started, in
  order, and a handle is named by its position, which stands for its pointer and for its channel
  \<open>done\<close>. \<open>hd_phase\<close> is how far the goroutine of the handle is: blocked on the watcher before it, in
  the watch function, or with \<open>done\<close> closed. The daemon's mutexes make each operation atomic, so the
  daemon is a state machine, \<open>daemon_step\<close>, whose steps are the operations, the moves of the
  goroutines, and whatever the outside world and the watchers do to the rest of the state.

  The JSON codecs, the paths of the files, and the outcomes of the system calls are parameters.
\<close>

section \<open>Data\<close>

record 'w daemon_env =
  de_env :: "'w env"
  de_paths :: "'w path_env"
  de_cfg_path :: "string option"
  de_cfg_dec :: "string \<Rightarrow> config_v1 option"
  de_cfg_enc :: "config_v1 \<Rightarrow> string option"
  de_cfg_error :: "'w \<Rightarrow> string" \<comment> \<open>the text of an error of \<open>cfg.Read\<close> or \<open>cfg.Write\<close>\<close>
  de_readable :: "'w \<Rightarrow> string \<Rightarrow> bool"
  de_atomic :: "'w \<Rightarrow> atomic_env"
  de_mkdir :: "'w \<Rightarrow> bool"
  de_state_path :: string
  de_state_dec :: "string \<Rightarrow> persisted_state_file option"
  de_state_enc :: "persisted_state_file \<Rightarrow> string option"
  de_version :: string

definition initialSyncStagger :: duration where "initialSyncStagger = 3000000000"
definition configRetryDelay :: duration where "configRetryDelay = 5000000000"

datatype phase = Blocked | Watching | Ended

record watcher_handle =
  hd_repo :: string
  hd_envs :: "string list"
  hd_delay :: duration
  hd_prev :: "nat option"
  hd_cancelled :: bool
  hd_phase :: phase
  hd_immediate :: bool
  hd_force :: bool
  hd_paused :: bool

record 'w daemon =
  dm_sys :: "'w sys"
  dm_handles :: "watcher_handle list"
  dm_watchers :: "(string \<times> nat) list"
  dm_stopping :: "(string \<times> nat) list"
  dm_locks :: "string list"
  dm_envs :: "string list"
  dm_cancelled :: bool
  dm_ready :: bool
  dm_persisted :: "string option"
  dm_persistCh :: bool
  dm_forget :: "(string \<times> nat) list" \<comment> \<open>the goroutines of \<open>forgetWhenStopped\<close>\<close>
  dm_fs :: filesystem
  dm_restarts :: "string list" \<comment> \<open>the goroutines of \<open>restartWatcher\<close> that have not begun\<close>

section \<open>Operations\<close>

definition init :: "'w sys \<Rightarrow> filesystem \<Rightarrow> 'w daemon" where
  "init sys fs = \<lparr>dm_sys = sys\<lparr>sy_store := NewRepoStateStore\<rparr>, dm_handles = [], dm_watchers = [], dm_stopping = [],
     dm_locks = [], dm_envs = [], dm_cancelled = False, dm_ready = False, dm_persisted = None, dm_persistCh = False,
     dm_forget = [], dm_fs = fs, dm_restarts = []\<rparr>"

definition dm_world :: "'w daemon \<Rightarrow> 'w" where
  "dm_world d = sy_world (dm_sys d)"

definition dm_store :: "'w daemon \<Rightarrow> repo_store" where
  "dm_store d = sy_store (dm_sys d)"

definition upd_store :: "(repo_store \<Rightarrow> repo_store) \<Rightarrow> 'w daemon \<Rightarrow> 'w daemon" where
  "upd_store f d = d\<lparr>dm_sys := (dm_sys d)\<lparr>sy_store := f (dm_store d)\<rparr>\<rparr>"

definition daemon_read :: "'w daemon_env \<Rightarrow> 'w daemon \<Rightarrow> string \<Rightarrow> read_result" where
  "daemon_read de d path = (if de_readable de (dm_world d) path then read_fs (dm_fs d) path else ReadFailed)"

definition cfg_Read :: "'w daemon_env \<Rightarrow> 'w daemon \<Rightarrow> config_v1 option" where
  "cfg_Read de d = ReadV1 (de_cfg_dec de) (de_cfg_path de) (daemon_read de d)"

definition on_daemon :: "('w sys, 'a) state \<Rightarrow> ('w daemon, 'a) state" where
  "on_daemon m = State (\<lambda>d. case run_state m (dm_sys d) of (x, y) \<Rightarrow> (x, d\<lparr>dm_sys := y\<rparr>))"

text \<open>The loop of \<open>readConfigWithRetry\<close>; the argument is the number of attempts left.\<close>

primrec read_config_attempts :: "nat \<Rightarrow> 'w daemon_env \<Rightarrow> ('w daemon, config_v1 option) state" where
  "read_config_attempts 0 de = State_Monad.return None"
| "read_config_attempts (Suc n) de =
     do {
       config \<leftarrow> ask (cfg_Read de);
       case config of
         Some c \<Rightarrow> State_Monad.return (Some c)
       | None \<Rightarrow>
           if 0 < n then
             do {
               fired \<leftarrow> on_daemon (sleepCtx (de_env de) Live configRetryDelay);
               if fired then read_config_attempts n de else State_Monad.return None
             }
           else State_Monad.return None
     }"

definition readConfigWithRetry :: "'w daemon_env \<Rightarrow> ('w daemon, config_v1 option) state" where
  "readConfigWithRetry de = read_config_attempts 3 de"

fun unique_loop :: "(string \<Rightarrow> string) \<Rightarrow> string list \<Rightarrow> string list \<Rightarrow> string list \<Rightarrow> string list" where
  "unique_loop resolve [] seen out = out"
| "unique_loop resolve (rp # rps) seen out =
     (if resolve rp \<in> set seen then unique_loop resolve rps seen out
      else unique_loop resolve rps (resolve rp # seen) (out @ [rp]))"

definition uniqueRepos :: "'w daemon_env \<Rightarrow> 'w \<Rightarrow> string list \<Rightarrow> string list" where
  "uniqueRepos de w repos = unique_loop (ResolvePath (de_paths de) w) repos [] []"

definition ensureRestored :: "'w daemon_env \<Rightarrow> string list \<Rightarrow> 'w daemon \<Rightarrow> 'w daemon" where
  "ensureRestored de repos d =
     (if dm_ready d then d
      else
        let store = foldl Ensure (dm_store d) repos in
        (case LoadPersisted (de_state_dec de) store (daemon_read de d (de_state_path de)) (\<lambda>p. p \<in> set repos) of
           (_, store') \<Rightarrow> upd_store (\<lambda>_. store') (d\<lparr>dm_ready := True\<rparr>)))"

definition requestPersist :: "'w daemon \<Rightarrow> 'w daemon" where
  "requestPersist d = d\<lparr>dm_persistCh := True\<rparr>"

definition saveState :: "'w daemon_env \<Rightarrow> 'w daemon \<Rightarrow> 'w daemon" where
  "saveState de d =
     (if \<not> dm_ready d then d
      else (case SavePersisted (de_state_enc de) (de_mkdir de (dm_world d)) (de_atomic de (dm_world d)) (dm_store d)
                   (dm_fs d) (de_state_path de) (dm_persisted d) of
              (previous, ok, fs) \<Rightarrow>
                if ok then d\<lparr>dm_fs := fs, dm_persisted := previous\<rparr> else d\<lparr>dm_fs := fs\<rparr>))"

definition startWatcherLocked :: "string \<Rightarrow> duration \<Rightarrow> 'w daemon \<Rightarrow> 'w daemon" where
  "startWatcherLocked repoPath initialDelay d0 =
     (let d = upd_store (\<lambda>st. Ensure st repoPath) d0;
          h = \<lparr>hd_repo = repoPath, hd_envs = dm_envs d, hd_delay = initialDelay,
               hd_prev = map_of (dm_stopping d) repoPath, hd_cancelled = False, hd_phase = Blocked,
               hd_immediate = False, hd_force = False,
               hd_paused = (case Get (dm_store d) repoPath of Some st \<Rightarrow> st_Paused st | None \<Rightarrow> False)\<rparr>
      in d\<lparr>dm_handles := dm_handles d @ [h],
           dm_watchers := AList.update repoPath (length (dm_handles d)) (dm_watchers d),
           dm_stopping := AList.delete repoPath (dm_stopping d)\<rparr>)"

definition upd_handle :: "nat \<Rightarrow> (watcher_handle \<Rightarrow> watcher_handle) \<Rightarrow> 'w daemon \<Rightarrow> 'w daemon" where
  "upd_handle n f d = d\<lparr>dm_handles := (dm_handles d)[n := f (dm_handles d ! n)]\<rparr>"

definition stopWatcherLocked :: "string \<Rightarrow> 'w daemon \<Rightarrow> nat option \<times> 'w daemon" where
  "stopWatcherLocked repoPath d =
     (case map_of (dm_watchers d) repoPath of
        None \<Rightarrow> (None, d)
      | Some n \<Rightarrow>
          (Some n,
           (upd_handle n (\<lambda>h. h\<lparr>hd_cancelled := True\<rparr>) d)
             \<lparr>dm_watchers := AList.delete repoPath (dm_watchers d),
              dm_stopping := AList.update repoPath n (dm_stopping d)\<rparr>))"

text \<open>The loop of \<open>startWatchers\<close>, with the number of watchers it has started.\<close>

fun start_loop :: "string list \<Rightarrow> nat \<Rightarrow> 'w daemon \<Rightarrow> 'w daemon" where
  "start_loop [] n d = d"
| "start_loop (rp # rps) n d =
     (if map_of (dm_watchers d) rp \<noteq> None then start_loop rps n d
      else start_loop rps (n + 1) (startWatcherLocked rp (int n * initialSyncStagger) d))"

definition startWatchers :: "'w daemon_env \<Rightarrow> config_v1 \<Rightarrow> 'w daemon \<Rightarrow> 'w daemon" where
  "startWatchers de config d =
     (let repos = uniqueRepos de (dm_world d) (cfg_Repos config)
      in start_loop repos 0 ((ensureRestored de repos d)\<lparr>dm_envs := cfg_Envs config\<rparr>))"

definition removeWatcher :: "string \<Rightarrow> 'w daemon \<Rightarrow> 'w daemon" where
  "removeWatcher rp d =
     (case stopWatcherLocked rp d of
        (None, d1) \<Rightarrow> d1
      | (Some n, d1) \<Rightarrow>
          requestPersist (upd_store (\<lambda>st. Remove st rp) (d1\<lparr>dm_forget := (rp, n) # dm_forget d1\<rparr>)))"

definition restart_locked :: "string \<Rightarrow> 'w daemon \<Rightarrow> 'w daemon" where
  "restart_locked rp d = startWatcherLocked rp 0 (snd (stopWatcherLocked rp d))"

definition reconcileWatchers :: "'w daemon_env \<Rightarrow> config_v1 \<Rightarrow> 'w daemon \<Rightarrow> 'w daemon" where
  "reconcileWatchers de config d =
     (if dm_cancelled d then d
      else
        let repos = uniqueRepos de (dm_world d) (cfg_Repos config);
            d1 = ensureRestored de repos d;
            envsChanged = (dm_envs d1 \<noteq> cfg_Envs config);
            d2 = d1\<lparr>dm_envs := cfg_Envs config\<rparr>;
            watched = map fst (dm_watchers d2);
            d3 = fold removeWatcher (filter (\<lambda>rp. rp \<notin> set repos) watched) d2;
            d4 = fold restart_locked (if envsChanged then filter (\<lambda>rp. rp \<in> set repos) watched else []) d3
        in fold (\<lambda>rp d. if map_of (dm_watchers d) rp = None then startWatcherLocked rp 0 d else d) repos d4)"

definition reloadConfig :: "'w daemon_env \<Rightarrow> 'w daemon \<Rightarrow> 'w daemon" where
  "reloadConfig de d =
     (case cfg_Read de d of None \<Rightarrow> d | Some config \<Rightarrow> reconcileWatchers de config d)"

text \<open>What \<open>restartWatcher\<close> does with the key that \<open>lookupWatcher\<close> gave it.\<close>

definition restart_key :: "string \<Rightarrow> 'w daemon \<Rightarrow> 'w daemon" where
  "restart_key key d =
     (if dm_cancelled d then d
      else if map_of (dm_watchers d) key = None then d
      else restart_locked key d)"

definition forgetWhenStopped :: "string \<Rightarrow> 'w daemon \<Rightarrow> 'w daemon" where
  "forgetWhenStopped repoPath d =
     (if map_of (dm_watchers d) repoPath \<noteq> None then d
      else requestPersist (upd_store (\<lambda>st. Remove st repoPath) (d\<lparr>dm_locks := removeAll repoPath (dm_locks d)\<rparr>)))"

definition syncLock :: "string \<Rightarrow> 'w daemon \<Rightarrow> 'w daemon" where
  "syncLock repoPath d = d\<lparr>dm_locks := List.insert repoPath (dm_locks d)\<rparr>"

text \<open>\<open>run\<close> up to its loop. The socket is started before it (\<open>Socket\<close>).\<close>

definition run_begin :: "'w daemon_env \<Rightarrow> ('w daemon, unit) state" where
  "run_begin de =
     do {
       config \<leftarrow> readConfigWithRetry de;
       case config of
         None \<Rightarrow>
           do {
             cerr \<leftarrow> ask (\<lambda>d. ctx_err (de_env de) Live (dm_sys d));
             if cerr \<noteq> None then State_Monad.return () else upd (upd_store OnChange)
           }
       | Some c \<Rightarrow> upd (\<lambda>d. startWatchers de c (upd_store OnChange d))
     }"

definition Stop_daemon :: "'w daemon_env \<Rightarrow> 'w daemon \<Rightarrow> 'w daemon" where
  "Stop_daemon de d = saveState de (d\<lparr>dm_cancelled := True\<rparr>)"

section \<open>The goroutine of a watcher\<close>

definition gitConfigTimeout :: duration where "gitConfigTimeout = 30000000000"

text \<open>\<open>git config\<close> run outside \<open>runGit\<close>, with the environment of the daemon.\<close>

definition exec_git_config :: "'w env \<Rightarrow> string \<Rightarrow> string list \<Rightarrow> ('w sys, run_result) state" where
  "exec_git_config env repoPath args = State (\<lambda>s.
     case en_run env (sy_world s)
            \<lparr>gi_cmd = ''git'', gi_dir = repoPath, gi_args = ''config'' # args, gi_env = en_environ env,
             gi_stdin = None, gi_timeout = gitConfigTimeout\<rparr> of
       (r, w) \<Rightarrow> (r, s\<lparr>sy_world := w, sy_trace := sy_trace s @ [(''config'' # args, 1)]\<rparr>))"

definition read_settings :: "'w env \<Rightarrow> string \<Rightarrow> ('w sys, goerror + (string \<times> string) list) state" where
  "read_settings env repoPath =
     do {
       r \<leftarrow> exec_git_config env repoPath [''-z'', ''--get-regexp'', ''^auto-sync'' @ [CHR 0x5C] @ ''.''];
       State_Monad.return (ReadAutoSyncGitConfig (rr_fail r) (rr_out r) (rr_err r))
     }"

definition new_repo_config :: "'w env \<Rightarrow> string \<Rightarrow> ('w sys, goerror + repo_config) state" where
  "new_repo_config env repoPath =
     do {
       isdir \<leftarrow> ask (\<lambda>s. case en_stat env (sy_world s) repoPath of Inl _ \<Rightarrow> False | Inr info \<Rightarrow> fi_IsDir info);
       raw \<leftarrow> (if isdir then read_settings env repoPath else State_Monad.return (Inr []));
       ask (\<lambda>s. NewRepoConfig (en_quote env) (en_stat env (sy_world s)) raw repoPath)
     }"

datatype watcher_start = StillWaiting | GiveUp | WatchWith repo_config

text \<open>
  The loop of \<open>runWatcher\<close>, one list of ticks for each wait for the folder; it is undecided when the
  lists end. \<open>run_watcher\<close> goes on to \<open>WatchForChangesWith\<close>, whose steps are \<open>watch_step\<close>.
\<close>

primrec run_watcher_loop :: "'w wake list list \<Rightarrow> 'w env \<Rightarrow> string \<Rightarrow> ('w sys, watcher_start) state" where
  "run_watcher_loop [] env repoPath = State_Monad.return StillWaiting"
| "run_watcher_loop (wakes # later) env repoPath =
     do {
       found \<leftarrow> WaitForRepoDir env ((empty_cfg repoPath)\<lparr>cf_State := True, cf_Emitter := True\<rparr>) wakes;
       case found of
         None \<Rightarrow> State_Monad.return StillWaiting
       | Some False \<Rightarrow> State_Monad.return GiveUp
       | Some True \<Rightarrow>
           do {
             cfg \<leftarrow> new_repo_config env repoPath;
             case cfg of
               Inr c \<Rightarrow> State_Monad.return (WatchWith c)
             | Inl e \<Rightarrow>
                 do {
                   missing \<leftarrow> ask (RepoDirMissing env repoPath);
                   if missing then run_watcher_loop later env repoPath
                   else
                     do {
                       cerr \<leftarrow> ask (ctx_err env Live);
                       (if cerr = None
                        then upd (\<lambda>s. s\<lparr>sy_store := MarkErrorCode (sy_store s) repoPath CodeConfig (ErrorMessage (Some e))\<rparr>)
                        else State_Monad.return ());
                       State_Monad.return GiveUp
                     }
                 }
           }
     }"

definition run_watcher :: "'w wake list list \<Rightarrow> 'w env \<Rightarrow> watcher_handle \<Rightarrow> ('w sys, watcher_start) state" where
  "run_watcher wakes env h =
     do {
       start \<leftarrow> run_watcher_loop wakes env (hd_repo h);
       case start of
         WatchWith c \<Rightarrow>
           let cfg = c\<lparr>cf_Env := cf_Env c @ hd_envs h, cf_Emitter := True, cf_State := True, cf_InitialDelay := hd_delay h\<rparr>
           in do { _ \<leftarrow> RestoreBranchInfo env Live cfg; State_Monad.return (WatchWith cfg) }
       | x \<Rightarrow> State_Monad.return x
     }"

definition watcher_failed :: "'w env \<Rightarrow> string \<Rightarrow> goerror \<Rightarrow> ('w sys, unit) state" where
  "watcher_failed env repoPath e =
     do {
       cerr \<leftarrow> ask (ctx_err env Live);
       if cerr = None
       then upd (\<lambda>s. s\<lparr>sy_store := MarkError (sy_store s) repoPath (''File watcher stopped: '' @ ErrorMessage (Some e))\<rparr>)
       else State_Monad.return ()
     }"

section \<open>Steps\<close>

abbreviation ended :: "'w daemon \<Rightarrow> nat \<Rightarrow> bool" where
  "ended d n \<equiv> hd_phase (dm_handles d ! n) = Ended"

text \<open>The goroutine of handle \<open>n\<close> may go on: the watcher before it has ended.\<close>

definition unblocked :: "'w daemon \<Rightarrow> nat \<Rightarrow> bool" where
  "unblocked d n \<longleftrightarrow> (case hd_prev (dm_handles d ! n) of None \<Rightarrow> True | Some m \<Rightarrow> ended d m)"

definition watch_cancelled :: "'w daemon \<Rightarrow> nat \<Rightarrow> bool" where
  "watch_cancelled d n \<longleftrightarrow> dm_cancelled d \<or> hd_cancelled (dm_handles d ! n)"

inductive daemon_step :: "'w daemon_env \<Rightarrow> 'w daemon \<Rightarrow> 'w daemon \<Rightarrow> bool" for de where
  step_start: "daemon_step de d (startWatchers de config d)"
| step_reconcile: "daemon_step de d (reconcileWatchers de config d)"
| step_restart: "daemon_step de d (restart_key key d)"
| step_watch: "n < length (dm_handles d) \<Longrightarrow> hd_phase (dm_handles d ! n) = Blocked \<Longrightarrow> unblocked d n \<Longrightarrow>
    \<not> watch_cancelled d n \<Longrightarrow> daemon_step de d (upd_handle n (\<lambda>h. h\<lparr>hd_phase := Watching\<rparr>) d)"
| step_skip: "n < length (dm_handles d) \<Longrightarrow> hd_phase (dm_handles d ! n) = Blocked \<Longrightarrow> unblocked d n \<Longrightarrow>
    watch_cancelled d n \<Longrightarrow> daemon_step de d (upd_handle n (\<lambda>h. h\<lparr>hd_phase := Ended\<rparr>) d)"
| step_return: "n < length (dm_handles d) \<Longrightarrow> hd_phase (dm_handles d ! n) = Watching \<Longrightarrow>
    daemon_step de d (upd_handle n (\<lambda>h. h\<lparr>hd_phase := Ended\<rparr>) d)"
| step_stopped: "map_of (dm_stopping d) p = Some n \<Longrightarrow> ended d n \<Longrightarrow>
    daemon_step de d (d\<lparr>dm_stopping := AList.delete p (dm_stopping d)\<rparr>)"
| step_forget: "(p, n) \<in> set (dm_forget d) \<Longrightarrow> ended d n \<Longrightarrow>
    daemon_step de d (forgetWhenStopped p (d\<lparr>dm_forget := remove1 (p, n) (dm_forget d)\<rparr>))"
| step_lock: "daemon_step de d (syncLock p d)"
| step_save: "daemon_step de d (saveState de (d\<lparr>dm_persistCh := False\<rparr>))"
| step_cancel: "daemon_step de d (d\<lparr>dm_cancelled := True\<rparr>)"
| step_flags: "daemon_step de d (upd_handle n (\<lambda>h. h\<lparr>hd_immediate := i, hd_force := f, hd_paused := p\<rparr>) d)"
| step_outside: "fs' (de_state_path de) = dm_fs d (de_state_path de) \<Longrightarrow>
    daemon_step de d (d\<lparr>dm_sys := sys, dm_fs := fs', dm_persistCh := b, dm_restarts := rs\<rparr>)"

inductive daemon_reachable :: "'w daemon_env \<Rightarrow> 'w daemon \<Rightarrow> 'w daemon \<Rightarrow> bool" for de d0 where
  daemon_begin: "daemon_reachable de d0 d0"
| daemon_more: "daemon_reachable de d0 d \<Longrightarrow> daemon_step de d d' \<Longrightarrow> daemon_reachable de d0 d'"

inductive_cases daemon_stepE: "daemon_step de d d'"

section \<open>One watcher at a time\<close>

abbreviation repo_of :: "'w daemon \<Rightarrow> nat \<Rightarrow> string" where
  "repo_of d n \<equiv> hd_repo (dm_handles d ! n)"

text \<open>
  The invariant on the handles. Once a goroutine is past its wait, every earlier one of the same
  repository has ended; one that may still have a predecessor waits for it or for a later one; and
  the last one that has not ended is found in \<open>dm_watchers\<close> or, if there is none there, in
  \<open>dm_stopping\<close>.
\<close>

definition passed_inv :: "watcher_handle list \<Rightarrow> bool" where
  "passed_inv hs \<longleftrightarrow> (\<forall>n < length hs. \<forall>m < n. hd_repo (hs ! m) = hd_repo (hs ! n) \<longrightarrow>
     hd_phase (hs ! n) \<noteq> Blocked \<longrightarrow> hd_phase (hs ! m) = Ended)"

definition wait_inv :: "watcher_handle list \<Rightarrow> bool" where
  "wait_inv hs \<longleftrightarrow> (\<forall>n < length hs. \<forall>m < n. hd_repo (hs ! m) = hd_repo (hs ! n) \<longrightarrow> hd_phase (hs ! m) \<noteq> Ended \<longrightarrow>
     (\<exists>k. m \<le> k \<and> k < n \<and> hd_repo (hs ! k) = hd_repo (hs ! n) \<and> hd_prev (hs ! n) = Some k))"

definition latest_inv :: "watcher_handle list \<Rightarrow> (string \<Rightarrow> nat option) \<Rightarrow> (string \<Rightarrow> nat option) \<Rightarrow> bool" where
  "latest_inv hs watchers stopping \<longleftrightarrow> (\<forall>n < length hs. hd_phase (hs ! n) \<noteq> Ended \<longrightarrow>
     (\<exists>k \<ge> n. watchers (hd_repo (hs ! n)) = Some k \<or>
        watchers (hd_repo (hs ! n)) = None \<and> stopping (hd_repo (hs ! n)) = Some k))"

definition names_inv :: "watcher_handle list \<Rightarrow> (string \<Rightarrow> nat option) \<Rightarrow> bool" where
  "names_inv hs names \<longleftrightarrow> (\<forall>p k. names p = Some k \<longrightarrow> k < length hs \<and> hd_repo (hs ! k) = p)"

definition daemon_inv :: "'w daemon \<Rightarrow> bool" where
  "daemon_inv d \<longleftrightarrow> passed_inv (dm_handles d) \<and> wait_inv (dm_handles d) \<and>
     latest_inv (dm_handles d) (map_of (dm_watchers d)) (map_of (dm_stopping d)) \<and>
     names_inv (dm_handles d) (map_of (dm_watchers d)) \<and> names_inv (dm_handles d) (map_of (dm_stopping d))"

lemmas handle_invs = passed_inv_def wait_inv_def latest_inv_def names_inv_def

lemma passed_invD:
  "passed_inv hs \<Longrightarrow> n < length hs \<Longrightarrow> m < n \<Longrightarrow> hd_repo (hs ! m) = hd_repo (hs ! n) \<Longrightarrow> hd_phase (hs ! n) \<noteq> Blocked \<Longrightarrow>
   hd_phase (hs ! m) = Ended"
  unfolding passed_inv_def by blast

lemma wait_invE:
  assumes "wait_inv hs" and "n < length hs" and "m < n" and "hd_repo (hs ! m) = hd_repo (hs ! n)" and "hd_phase (hs ! m) \<noteq> Ended"
  obtains k where "m \<le> k" and "k < n" and "hd_repo (hs ! k) = hd_repo (hs ! n)" and "hd_prev (hs ! n) = Some k"
  using assms unfolding wait_inv_def by blast

text \<open>The state that the invariant is about.\<close>

definition same_watchers :: "'w daemon \<Rightarrow> 'w daemon \<Rightarrow> bool" where
  "same_watchers d d' \<longleftrightarrow> dm_handles d' = dm_handles d \<and> dm_watchers d' = dm_watchers d \<and> dm_stopping d' = dm_stopping d"

lemma daemon_inv_same: "same_watchers d d' \<Longrightarrow> daemon_inv d \<Longrightarrow> daemon_inv d'"
  by (simp add: same_watchers_def daemon_inv_def)

lemma same_watchers_ops [simp]:
  "same_watchers d d" "same_watchers d (upd_store f d)" "same_watchers d (ensureRestored de repos d)"
  "same_watchers d (requestPersist d)" "same_watchers d (saveState de d)" "same_watchers d (syncLock p d)"
  "same_watchers d (forgetWhenStopped p d)"
  by (auto simp: same_watchers_def upd_store_def ensureRestored_def requestPersist_def saveState_def syncLock_def
      forgetWhenStopped_def Let_def split: prod.split)

lemma daemon_inv_handle_flags:
  assumes "daemon_inv d" and "\<And>h. hd_repo (f h) = hd_repo h \<and> hd_prev (f h) = hd_prev h \<and> hd_phase (f h) = hd_phase h"
  shows "daemon_inv (upd_handle n f d)"
proof -
  let ?hs = "dm_handles d" and ?hs' = "dm_handles (upd_handle n f d)"
  have e: "k < length ?hs \<Longrightarrow> hd_repo (?hs' ! k) = hd_repo (?hs ! k) \<and> hd_prev (?hs' ! k) = hd_prev (?hs ! k) \<and>
      hd_phase (?hs' ! k) = hd_phase (?hs ! k)" for k
    using assms(2) by (cases "k = n") (simp_all add: upd_handle_def)
  have l: "length ?hs' = length ?hs" by (simp add: upd_handle_def)
  have w: "dm_watchers (upd_handle n f d) = dm_watchers d" "dm_stopping (upd_handle n f d) = dm_stopping d"
    by (simp_all add: upd_handle_def)
  have "passed_inv ?hs'" using assms(1) e unfolding daemon_inv_def passed_inv_def l by (metis order_less_trans)
  moreover have "wait_inv ?hs'" unfolding wait_inv_def l
  proof (intro allI impI)
    fix j i assume j: "j < length ?hs" "i < j" "hd_repo (?hs' ! i) = hd_repo (?hs' ! j)" "hd_phase (?hs' ! i) \<noteq> Ended"
    have "wait_inv ?hs" using assms(1) by (simp add: daemon_inv_def)
    then obtain k where "i \<le> k" "k < j" "hd_repo (?hs ! k) = hd_repo (?hs ! j)" "hd_prev (?hs ! j) = Some k"
      by (rule wait_invE [of _ j i]) (use j e [of i] e [of j] in auto)
    then show "\<exists>k. i \<le> k \<and> k < j \<and> hd_repo (?hs' ! k) = hd_repo (?hs' ! j) \<and> hd_prev (?hs' ! j) = Some k"
      using e [of k] e [of j] j by auto
  qed
  moreover have "latest_inv ?hs' (map_of (dm_watchers d)) (map_of (dm_stopping d))"
    using assms(1) e unfolding daemon_inv_def latest_inv_def l by metis
  moreover have "names_inv ?hs' (map_of (dm_watchers d))" "names_inv ?hs' (map_of (dm_stopping d))"
    using assms(1) e unfolding daemon_inv_def names_inv_def l by metis+
  ultimately show ?thesis unfolding daemon_inv_def w by blast
qed

text \<open>A goroutine goes past its wait, or ends.\<close>

lemma daemon_inv_advance:
  assumes inv: "daemon_inv d" and n: "n < length (dm_handles d)"
    and ph: "hd_phase (dm_handles d ! n) \<noteq> Blocked \<or> unblocked d n" and ph': "ph \<noteq> Blocked"
    and ended: "hd_phase (dm_handles d ! n) \<noteq> Ended"
  shows "daemon_inv (upd_handle n (\<lambda>h. h\<lparr>hd_phase := ph\<rparr>) d)"
proof -
  let ?hs = "dm_handles d" and ?hs' = "dm_handles (upd_handle n (\<lambda>h. h\<lparr>hd_phase := ph\<rparr>) d)"
  have e: "k < length ?hs \<Longrightarrow> hd_repo (?hs' ! k) = hd_repo (?hs ! k) \<and> hd_prev (?hs' ! k) = hd_prev (?hs ! k) \<and>
      hd_phase (?hs' ! k) = (if k = n then ph else hd_phase (?hs ! k))" for k
    using n by (simp add: upd_handle_def)
  have l: "length ?hs' = length ?hs" by (simp add: upd_handle_def)
  have w: "dm_watchers (upd_handle n (\<lambda>h. h\<lparr>hd_phase := ph\<rparr>) d) = dm_watchers d"
    "dm_stopping (upd_handle n (\<lambda>h. h\<lparr>hd_phase := ph\<rparr>) d) = dm_stopping d" by (simp_all add: upd_handle_def)
  note P = inv [unfolded daemon_inv_def passed_inv_def, THEN conjunct1, rule_format]
  have W: "wait_inv ?hs" using inv by (simp add: daemon_inv_def)
  have earlier: "hd_phase (?hs ! m) = Ended" if m: "m < n" "hd_repo (?hs ! m) = hd_repo (?hs ! n)" for m
  proof (rule ccontr)
    assume a: "hd_phase (?hs ! m) \<noteq> Ended"
    then have b: "hd_phase (?hs ! n) = Blocked" "unblocked d n" using P [OF n m] ph by auto
    obtain k where k: "m \<le> k" "k < n" "hd_repo (?hs ! k) = hd_repo (?hs ! n)" "hd_prev (?hs ! n) = Some k"
      using W n m a unfolding wait_inv_def by blast
    then have "hd_phase (?hs ! k) = Ended" using b by (simp add: unblocked_def)
    then show False using P [of k m] k m n a by (cases "m = k") auto
  qed
  have "passed_inv ?hs'" unfolding passed_inv_def l
  proof (intro allI impI)
    fix j i assume j: "j < length ?hs" "i < j" "hd_repo (?hs' ! i) = hd_repo (?hs' ! j)" "hd_phase (?hs' ! j) \<noteq> Blocked"
    have "hd_phase (?hs ! i) = Ended"
    proof (cases "j = n")
      case True
      then show ?thesis using earlier j e [of i] e [of j] by simp
    next
      case False
      then show ?thesis using P [of j i] j e [of i] e [of j] by simp
    qed
    then show "hd_phase (?hs' ! i) = Ended" using e [of i] j ended by auto
  qed
  moreover have "wait_inv ?hs'" unfolding wait_inv_def l
  proof (intro allI impI)
    fix j i assume j: "j < length ?hs" "i < j" "hd_repo (?hs' ! i) = hd_repo (?hs' ! j)" "hd_phase (?hs' ! i) \<noteq> Ended"
    then have "hd_phase (?hs ! i) \<noteq> Ended" using e [of i] ended by (auto split: if_splits)
    then obtain k where "i \<le> k" "k < j" "hd_repo (?hs ! k) = hd_repo (?hs ! j)" "hd_prev (?hs ! j) = Some k"
      using W j e [of i] e [of j] unfolding wait_inv_def by auto
    then show "\<exists>k. i \<le> k \<and> k < j \<and> hd_repo (?hs' ! k) = hd_repo (?hs' ! j) \<and> hd_prev (?hs' ! j) = Some k"
      using e [of k] e [of j] j by auto
  qed
  moreover have "latest_inv ?hs' (map_of (dm_watchers d)) (map_of (dm_stopping d))"
    using inv e ended unfolding daemon_inv_def latest_inv_def l by metis
  moreover have "names_inv ?hs' (map_of (dm_watchers d))" "names_inv ?hs' (map_of (dm_stopping d))"
    using inv e unfolding daemon_inv_def names_inv_def l by metis+
  ultimately show ?thesis unfolding daemon_inv_def w by blast
qed

lemma daemon_inv_stopped:
  assumes inv: "daemon_inv d" and p: "map_of (dm_stopping d) p = Some n" "ended d n"
  shows "daemon_inv (d\<lparr>dm_stopping := AList.delete p (dm_stopping d)\<rparr>)"
proof -
  let ?hs = "dm_handles d"
  have n: "n < length ?hs" "hd_repo (?hs ! n) = p" using inv p unfolding daemon_inv_def names_inv_def by blast+
  have "latest_inv ?hs (map_of (dm_watchers d)) ((map_of (dm_stopping d))(p := None))" unfolding latest_inv_def
  proof (intro allI impI)
    fix m assume m: "m < length ?hs" "hd_phase (?hs ! m) \<noteq> Ended"
    then obtain k where k: "k \<ge> m" "map_of (dm_watchers d) (hd_repo (?hs ! m)) = Some k \<or>
        map_of (dm_watchers d) (hd_repo (?hs ! m)) = None \<and> map_of (dm_stopping d) (hd_repo (?hs ! m)) = Some k"
      using inv unfolding daemon_inv_def latest_inv_def by blast
    moreover have "\<not> (hd_repo (?hs ! m) = p \<and> k = n)"
    proof
      assume a: "hd_repo (?hs ! m) = p \<and> k = n"
      then have "m < n" using k(1) m p(2) by (metis le_neq_implies_less)
      then have "hd_phase (?hs ! m) = Ended"
        by (intro passed_invD [of ?hs n]) (use inv n a p(2) in \<open>simp_all add: daemon_inv_def\<close>)
      then show False using m(2) by simp
    qed
    ultimately show "\<exists>k \<ge> m. map_of (dm_watchers d) (hd_repo (?hs ! m)) = Some k \<or>
        map_of (dm_watchers d) (hd_repo (?hs ! m)) = None \<and> ((map_of (dm_stopping d))(p := None)) (hd_repo (?hs ! m)) = Some k"
      using p(1) by (metis fun_upd_other option.inject)
  qed
  then show ?thesis using inv unfolding daemon_inv_def names_inv_def by (auto simp: delete_conv' split: if_splits)
qed

lemma daemon_inv_stop:
  assumes inv: "daemon_inv d"
  shows "daemon_inv (snd (stopWatcherLocked p d)) \<and> map_of (dm_watchers (snd (stopWatcherLocked p d))) p = None"
proof (cases "map_of (dm_watchers d) p")
  case (Some n)
  let ?d = "upd_handle n (\<lambda>h. h\<lparr>hd_cancelled := True\<rparr>) d"
  have inv': "daemon_inv ?d" by (rule daemon_inv_handle_flags [OF inv]) simp
  have w: "dm_watchers ?d = dm_watchers d" "dm_stopping ?d = dm_stopping d" by (simp_all add: upd_handle_def)
  have "latest_inv (dm_handles ?d) ((map_of (dm_watchers d))(p := None)) ((map_of (dm_stopping d))(p \<mapsto> n))"
    using inv' Some unfolding daemon_inv_def latest_inv_def w by (metis fun_upd_apply option.inject option.distinct(1))
  then show ?thesis
    using inv' Some unfolding daemon_inv_def names_inv_def w
    by (auto simp: stopWatcherLocked_def delete_conv' update_conv' split: if_splits)
qed (use inv in \<open>simp add: stopWatcherLocked_def\<close>)

lemma daemon_inv_start:
  assumes inv: "daemon_inv d" and none: "map_of (dm_watchers d) p = None"
  shows "daemon_inv (startWatcherLocked p t d)"
proof -
  let ?d' = "startWatcherLocked p t d"
  let ?hs = "dm_handles d" and ?hs' = "dm_handles ?d'"
  obtain h where h: "?hs' = ?hs @ [h]" "hd_repo h = p" "hd_prev h = map_of (dm_stopping d) p" "hd_phase h = Blocked"
    by (simp add: startWatcherLocked_def Let_def upd_store_def)
  have w: "map_of (dm_watchers ?d') = (map_of (dm_watchers d))(p \<mapsto> length ?hs)"
    "map_of (dm_stopping ?d') = (map_of (dm_stopping d))(p := None)"
    by (simp_all add: startWatcherLocked_def Let_def upd_store_def update_conv' delete_conv')
  have "passed_inv ?hs'" using inv h unfolding daemon_inv_def passed_inv_def by (auto simp: nth_append less_Suc_eq)
  moreover have "wait_inv ?hs'" unfolding wait_inv_def
  proof (intro allI impI)
    fix j i assume j: "j < length ?hs'" "i < j" "hd_repo (?hs' ! i) = hd_repo (?hs' ! j)" "hd_phase (?hs' ! i) \<noteq> Ended"
    show "\<exists>k. i \<le> k \<and> k < j \<and> hd_repo (?hs' ! k) = hd_repo (?hs' ! j) \<and> hd_prev (?hs' ! j) = Some k"
    proof (cases "j < length ?hs")
      case True
      have "wait_inv ?hs" using inv by (simp add: daemon_inv_def)
      then obtain k where "i \<le> k" "k < j" "hd_repo (?hs ! k) = hd_repo (?hs ! j)" "hd_prev (?hs ! j) = Some k"
        by (rule wait_invE [of _ j i]) (use j True h(1) in \<open>auto simp: nth_append\<close>)
      then show ?thesis using True h(1) by (intro exI [of _ k]) (simp add: nth_append)
    next
      case False
      then have jl: "j = length ?hs" and i: "i < length ?hs" using j h(1) by auto
      then have ip: "hd_repo (?hs ! i) = p" "hd_phase (?hs ! i) \<noteq> Ended" using j h by (auto simp: nth_append)
      then obtain k where k: "k \<ge> i" "map_of (dm_stopping d) p = Some k"
        using inv none i unfolding daemon_inv_def latest_inv_def by (metis option.distinct(1))
      then have "k < length ?hs" "hd_repo (?hs ! k) = p" using inv unfolding daemon_inv_def names_inv_def by blast+
      then show ?thesis using k h jl by (auto simp: nth_append)
    qed
  qed
  moreover have "latest_inv ?hs' (map_of (dm_watchers ?d')) (map_of (dm_stopping ?d'))"
    using inv h unfolding daemon_inv_def latest_inv_def w by (auto simp: nth_append less_Suc_eq)
  moreover have "names_inv ?hs' (map_of (dm_watchers ?d'))" "names_inv ?hs' (map_of (dm_stopping ?d'))"
    using inv h unfolding daemon_inv_def names_inv_def w by (auto simp: nth_append intro: less_SucI)
  ultimately show ?thesis unfolding daemon_inv_def by blast
qed

lemma daemon_inv_fold:
  "(\<And>x d. daemon_inv d \<Longrightarrow> daemon_inv (f x d)) \<Longrightarrow> daemon_inv d \<Longrightarrow> daemon_inv (fold f xs d)"
  by (induction xs arbitrary: d) auto

lemma daemon_inv_restart: "daemon_inv d \<Longrightarrow> daemon_inv (restart_locked p d)"
  unfolding restart_locked_def using daemon_inv_stop [of d p] by (intro daemon_inv_start) simp_all

lemma daemon_inv_remove:
  assumes "daemon_inv d"
  shows "daemon_inv (removeWatcher p d)"
proof -
  obtain m d1 where s: "stopWatcherLocked p d = (m, d1)" by (metis surj_pair)
  have d1: "daemon_inv d1" using daemon_inv_stop [OF assms, of p] s by simp
  show ?thesis
  proof (cases m)
    case (Some n)
    have "same_watchers d1 (removeWatcher p d)"
      using s Some by (simp add: removeWatcher_def same_watchers_def requestPersist_def upd_store_def)
    then show ?thesis using d1 by (rule daemon_inv_same)
  qed (use s d1 in \<open>simp add: removeWatcher_def\<close>)
qed

lemma daemon_inv_envs: "daemon_inv (d\<lparr>dm_envs := es\<rparr>) = daemon_inv d"
  by (simp add: daemon_inv_def)

lemma daemon_inv_ensureRestored: "daemon_inv d \<Longrightarrow> daemon_inv (ensureRestored de repos d)"
  by (rule daemon_inv_same [of d]) simp_all

lemma daemon_inv_start_loop: "daemon_inv d \<Longrightarrow> daemon_inv (start_loop rps n d)"
  by (induction rps n d rule: start_loop.induct) (simp_all add: daemon_inv_start)

lemma daemon_inv_reconcile: "daemon_inv d \<Longrightarrow> daemon_inv (reconcileWatchers de config d)"
  unfolding reconcileWatchers_def Let_def
  by (auto intro!: daemon_inv_fold daemon_inv_restart daemon_inv_remove daemon_inv_start daemon_inv_ensureRestored
      simp: daemon_inv_envs)

lemma daemon_inv_step:
  assumes "daemon_step de d d'" and inv: "daemon_inv d"
  shows "daemon_inv d'"
  using assms(1)
proof (cases rule: daemon_step.cases)
  case (step_start config)
  then show ?thesis
    using inv by (simp add: startWatchers_def Let_def daemon_inv_start_loop daemon_inv_envs daemon_inv_ensureRestored)
next
  case (step_reconcile config)
  then show ?thesis using inv daemon_inv_reconcile by simp
next
  case (step_restart key)
  then show ?thesis using inv daemon_inv_restart [OF inv, of key] by (simp add: restart_key_def)
next
  case (step_watch n)
  then show ?thesis using daemon_inv_advance [OF inv, of n Watching] by simp
next
  case (step_skip n)
  then show ?thesis using daemon_inv_advance [OF inv, of n Ended] by simp
next
  case (step_return n)
  then show ?thesis using daemon_inv_advance [OF inv, of n Ended] by simp
next
  case (step_stopped p n)
  then show ?thesis using daemon_inv_stopped [OF inv] by simp
next
  case (step_flags n i f p)
  then show ?thesis using daemon_inv_handle_flags [OF inv] by simp
next
  case (step_forget p n)
  have "same_watchers (d\<lparr>dm_forget := remove1 (p, n) (dm_forget d)\<rparr>) d'" using step_forget by simp
  then show ?thesis using inv by (auto simp: same_watchers_def intro: daemon_inv_same [of d])
next
  case step_save
  have "same_watchers (d\<lparr>dm_persistCh := False\<rparr>) d'" using step_save by simp
  then show ?thesis using inv by (auto simp: same_watchers_def intro: daemon_inv_same [of d])
qed (use inv in \<open>auto intro: daemon_inv_same [of d] simp: same_watchers_def syncLock_def\<close>)

lemma daemon_inv_init: "daemon_inv (init sys fs)"
  by (simp add: daemon_inv_def init_def handle_invs)

interpretation daemon_sys: step_system "daemon_step de" "daemon_reachable de" for de
proof
  show "daemon_reachable de d d" for d by (rule daemon_begin)
  show "daemon_reachable de d t \<Longrightarrow> daemon_step de t u \<Longrightarrow> daemon_reachable de d u" for d t u by (rule daemon_more)
  show "daemon_reachable de d t \<Longrightarrow> P d \<Longrightarrow> (\<And>t u. P t \<Longrightarrow> daemon_step de t u \<Longrightarrow> P u) \<Longrightarrow> P t" for d t P
    by (induction rule: daemon_reachable.induct) auto
qed

interpretation watchers: step_invariant "daemon_step de" "daemon_reachable de" daemon_inv for de
  by unfold_locales (rule daemon_inv_step)

lemma daemon_inv_reachable: "daemon_reachable de (init sys fs) d \<Longrightarrow> daemon_inv d"
  by (erule watchers.reach_inv) (rule daemon_inv_init)

section \<open>The configured repositories\<close>

lemma unique_loop_eq:
  "unique_loop resolve rps seen out =
     out @ unique_loop resolve rps seen []"
proof (induction rps arbitrary: seen out)
  case (Cons rp rps)
  show ?case
    using Cons.IH [of seen out] Cons.IH [of "resolve rp # seen" "out @ [rp]"] Cons.IH [of "resolve rp # seen" "[rp]"] by simp
qed simp

lemma unique_loop_Cons [simp]:
  "unique_loop resolve (rp # rps) seen [] =
     (if resolve rp \<in> set seen then unique_loop resolve rps seen [] else rp # unique_loop resolve rps (resolve rp # seen) [])"
  using unique_loop_eq [of resolve rps "resolve rp # seen" "[rp]"] by simp

declare unique_loop.simps(2) [simp del]

lemma unique_loop_spec:
  "distinct (map resolve (unique_loop resolve rps seen [])) \<and>
   resolve ` set (unique_loop resolve rps seen []) = resolve ` set rps - set seen \<and>
   subseq (unique_loop resolve rps seen []) rps"
proof (induction rps arbitrary: seen)
  case (Cons rp rps)
  then show ?case by auto
qed simp

section \<open>Starting and stopping watchers\<close>

text \<open>
  \<open>moved F X d d'\<close>: from \<open>d\<close> to \<open>d'\<close> the watchers of \<open>X\<close> were stopped and those of \<open>F\<close> started.
\<close>

definition fresh :: "'w daemon \<Rightarrow> 'w daemon \<Rightarrow> string \<Rightarrow> bool" where
  "fresh d d' p \<longleftrightarrow> (\<exists>k. map_of (dm_watchers d') p = Some k \<and> length (dm_handles d) \<le> k \<and> k < length (dm_handles d') \<and>
     hd_envs (dm_handles d' ! k) = dm_envs d \<and> \<not> hd_cancelled (dm_handles d' ! k))"

definition moved :: "string set \<Rightarrow> string set \<Rightarrow> 'w daemon \<Rightarrow> 'w daemon \<Rightarrow> bool" where
  "moved F X d d' \<longleftrightarrow> daemon_inv d' \<and> dm_envs d' = dm_envs d \<and> length (dm_handles d) \<le> length (dm_handles d') \<and>
     (\<forall>p \<in> F. fresh d d' p) \<and> (\<forall>p \<in> X - F. map_of (dm_watchers d') p = None) \<and>
     (\<forall>p. p \<notin> F \<and> p \<notin> X \<longrightarrow> map_of (dm_watchers d') p = map_of (dm_watchers d) p) \<and>
     (\<forall>k < length (dm_handles d). hd_envs (dm_handles d' ! k) = hd_envs (dm_handles d ! k) \<and>
        (hd_cancelled (dm_handles d' ! k) \<longleftrightarrow>
          hd_cancelled (dm_handles d ! k) \<or> (\<exists>p \<in> X. map_of (dm_watchers d) p = Some k)))"

lemma movedD:
  assumes "moved F X d d'"
  shows "p \<in> F \<Longrightarrow> map_of (dm_watchers d') p \<noteq> None"
    and "p \<in> X \<Longrightarrow> p \<notin> F \<Longrightarrow> map_of (dm_watchers d') p = None"
    and "p \<notin> F \<Longrightarrow> p \<notin> X \<Longrightarrow> map_of (dm_watchers d') p = map_of (dm_watchers d) p"
  using assms by (auto simp: moved_def fresh_def simp del: map_of_eq_None_iff)

lemma moved_refl: "daemon_inv d \<Longrightarrow> moved {} {} d d"
  by (simp add: moved_def)

lemma names_inv_unique:
  "daemon_inv d \<Longrightarrow> map_of (dm_watchers d) p = Some k \<Longrightarrow> map_of (dm_watchers d) q = Some k \<Longrightarrow> p = q"
  unfolding daemon_inv_def names_inv_def by blast

lemma moved_trans:
  assumes a: "moved F X d d1" and b: "moved F' X' d1 d2" and inv: "daemon_inv d" and disj: "F \<inter> X' = {}"
  shows "moved (F \<union> F') (X \<union> X') d d2"
proof -
  let ?w = "\<lambda>d. map_of (dm_watchers d)" and ?h = dm_handles
  have l: "length (?h d) \<le> length (?h d1)" "length (?h d1) \<le> length (?h d2)" and inv1: "daemon_inv d1"
    and envs: "dm_envs d1 = dm_envs d" "dm_envs d2 = dm_envs d1"
    using a b by (simp_all add: moved_def)
  have fr: "fresh d d2 p" if p: "p \<in> F \<union> F'" for p
  proof (cases "p \<in> F'")
    case True
    then have "fresh d1 d2 p" using b by (simp add: moved_def)
    then show ?thesis using l envs unfolding fresh_def by auto
  next
    case False
    then have pF: "p \<in> F" "p \<notin> X'" using p disj by auto
    then obtain k where k: "?w d1 p = Some k" "length (?h d) \<le> k" "k < length (?h d1)" "hd_envs (?h d1 ! k) = dm_envs d"
      "\<not> hd_cancelled (?h d1 ! k)" using a unfolding moved_def fresh_def by blast
    have "?w d2 p = Some k" using b False pF k(1) by (simp add: moved_def)
    moreover have "\<not> (\<exists>q \<in> X'. ?w d1 q = Some k)" using names_inv_unique [OF inv1 k(1)] pF(2) by blast
    ultimately show ?thesis using b k l(2) unfolding moved_def fresh_def by (intro exI [of _ k]) auto
  qed
  have gone: "?w d2 p = None" if p: "p \<in> (X \<union> X') - (F \<union> F')" for p
    using a b p unfolding moved_def by (cases "p \<in> X'") auto
  have canc: "hd_cancelled (?h d2 ! k) \<longleftrightarrow> hd_cancelled (?h d ! k) \<or> (\<exists>p \<in> X \<union> X'. ?w d p = Some k)"
    if k: "k < length (?h d)" for k
  proof -
    have c2: "hd_cancelled (?h d2 ! k) \<longleftrightarrow> hd_cancelled (?h d1 ! k) \<or> (\<exists>p \<in> X'. ?w d1 p = Some k)"
      using b k l(1) by (simp add: moved_def)
    have c1: "hd_cancelled (?h d1 ! k) \<longleftrightarrow> hd_cancelled (?h d ! k) \<or> (\<exists>p \<in> X. ?w d p = Some k)"
      using a k by (simp add: moved_def)
    have w1: "p \<in> X' \<Longrightarrow> ?w d1 p = (if p \<in> X then None else ?w d p)" for p using a disj unfolding moved_def by auto
    show ?thesis unfolding c2 c1 using w1 by (auto split: if_splits)
  qed
  have env: "hd_envs (?h d2 ! k) = hd_envs (?h d ! k)" if "k < length (?h d)" for k
    using a b that l(1) by (simp add: moved_def)
  show ?thesis
    unfolding moved_def using a b l envs fr gone canc env
    by (intro conjI) (simp_all add: moved_def)
qed

lemma nth_update_at: "j < length xs \<Longrightarrow> xs[i := x] ! j = (if i = j then x else xs ! j)"
  by simp

lemma stop_handles:
  "length (dm_handles (snd (stopWatcherLocked p d))) = length (dm_handles d)"
  "dm_envs (snd (stopWatcherLocked p d)) = dm_envs d"
  "map_of (dm_watchers (snd (stopWatcherLocked p d))) = (map_of (dm_watchers d))(p := None)"
  "k < length (dm_handles d) \<Longrightarrow> hd_envs (dm_handles (snd (stopWatcherLocked p d)) ! k) = hd_envs (dm_handles d ! k) \<and>
     (hd_cancelled (dm_handles (snd (stopWatcherLocked p d)) ! k) \<longleftrightarrow>
       hd_cancelled (dm_handles d ! k) \<or> map_of (dm_watchers d) p = Some k)"
  by (auto simp: stopWatcherLocked_def upd_handle_def delete_conv' nth_update_at split: option.splits)

lemma moved_stop: "daemon_inv d \<Longrightarrow> moved {} {p} d (snd (stopWatcherLocked p d))"
  using daemon_inv_stop [of d p] by (simp add: moved_def stop_handles)

lemma moved_same: "moved F X d d1 \<Longrightarrow> same_watchers d1 d2 \<Longrightarrow> dm_envs d2 = dm_envs d1 \<Longrightarrow> moved F X d d2"
  using daemon_inv_same [of d1 d2] by (simp add: moved_def fresh_def same_watchers_def)

lemma moved_remove:
  assumes "daemon_inv d"
  shows "moved {} {p} d (removeWatcher p d)"
proof -
  have "same_watchers (snd (stopWatcherLocked p d)) (removeWatcher p d) \<and>
      dm_envs (removeWatcher p d) = dm_envs (snd (stopWatcherLocked p d))"
    by (auto simp: removeWatcher_def same_watchers_def requestPersist_def upd_store_def split: prod.split option.split)
  then show ?thesis using moved_same [OF moved_stop [OF assms]] by blast
qed

lemma moved_start:
  assumes "daemon_inv d" and "map_of (dm_watchers d) p = None"
  shows "moved {p} {} d (startWatcherLocked p t d)"
  using daemon_inv_start [OF assms, of t]
  by (simp add: moved_def fresh_def startWatcherLocked_def Let_def upd_store_def update_conv' nth_append)

lemma moved_restart: "daemon_inv d \<Longrightarrow> moved {p} {p} d (restart_locked p d)"
  unfolding restart_locked_def
  using moved_trans [OF moved_stop moved_start, of d p p 0] daemon_inv_stop [of d p] by simp

lemma moved_fold_remove: "daemon_inv d \<Longrightarrow> moved {} (set xs) d (fold removeWatcher xs d)"
proof (induction xs arbitrary: d)
  case (Cons x xs)
  have "daemon_inv (removeWatcher x d)" using Cons.prems by (rule daemon_inv_remove)
  then show ?case
    using moved_trans [OF moved_remove [OF Cons.prems, of x] Cons.IH] Cons.prems by simp
qed (simp add: moved_refl)

lemma moved_fold_restart: "daemon_inv d \<Longrightarrow> distinct ys \<Longrightarrow> moved (set ys) (set ys) d (fold restart_locked ys d)"
proof (induction ys arbitrary: d)
  case (Cons y ys)
  have "daemon_inv (restart_locked y d)" using Cons.prems(1) by (rule daemon_inv_restart)
  then show ?case
    using moved_trans [OF moved_restart [OF Cons.prems(1), of y] Cons.IH] Cons.prems by simp
qed (simp add: moved_refl)

abbreviation start_missing :: "string \<Rightarrow> 'w daemon \<Rightarrow> 'w daemon" where
  "start_missing rp d \<equiv> if map_of (dm_watchers d) rp = None then startWatcherLocked rp 0 d else d"

lemma moved_fold_start:
  "daemon_inv d \<Longrightarrow> moved {p \<in> set ps. map_of (dm_watchers d) p = None} {} d (fold start_missing ps d)"
proof (induction ps arbitrary: d)
  case (Cons p ps)
  show ?case
  proof (cases "map_of (dm_watchers d) p")
    case None
    let ?d = "startWatcherLocked p 0 d"
    have "daemon_inv ?d" using Cons.prems None by (rule daemon_inv_start)
    then have "moved ({p} \<union> {q \<in> set ps. map_of (dm_watchers ?d) q = None}) {} d (fold start_missing ps ?d)"
      using moved_trans [OF moved_start [OF Cons.prems None, of 0] Cons.IH] Cons.prems by simp
    moreover have "{p} \<union> {q \<in> set ps. map_of (dm_watchers ?d) q = None} = {q \<in> set (p # ps). map_of (dm_watchers d) q = None}"
      using None by (auto simp: startWatcherLocked_def Let_def upd_store_def update_conv')
    ultimately show ?thesis using None by simp
  next
    case (Some k)
    then have "{q \<in> set (p # ps). map_of (dm_watchers d) q = None} = {q \<in> set ps. map_of (dm_watchers d) q = None}" by auto
    then show ?thesis using Cons Some by simp
  qed
qed (simp add: moved_refl)


text \<open>What else a removal does.\<close>

lemma removeWatcher_effects:
  "Get (dm_store (removeWatcher p d)) q =
     (if q = p \<and> map_of (dm_watchers d) p \<noteq> None then None else Get (dm_store d) q)"
  "dm_persistCh (removeWatcher p d) \<longleftrightarrow> dm_persistCh d \<or> map_of (dm_watchers d) p \<noteq> None"
  "map_of (dm_watchers (removeWatcher p d)) q = (if q = p then None else map_of (dm_watchers d) q)"
  by (auto simp: removeWatcher_def stopWatcherLocked_def requestPersist_def upd_store_def upd_handle_def dm_store_def
      Get_Remove delete_conv' split: option.split)

lemma fold_remove_effects:
  "Get (dm_store (fold removeWatcher xs d)) q =
     (if q \<in> set xs \<and> map_of (dm_watchers d) q \<noteq> None then None else Get (dm_store d) q)"
  "dm_persistCh (fold removeWatcher xs d) \<longleftrightarrow> dm_persistCh d \<or> (\<exists>p \<in> set xs. map_of (dm_watchers d) p \<noteq> None)"
  by (induction xs arbitrary: d) (auto simp: removeWatcher_effects split: if_splits, metis option.distinct(1))

lemma start_effects:
  "q \<noteq> p \<Longrightarrow> Get (dm_store (startWatcherLocked p t d)) q = Get (dm_store d) q"
  "dm_persistCh (startWatcherLocked p t d) = dm_persistCh d"
  by (simp_all add: startWatcherLocked_def Let_def upd_store_def dm_store_def Get_Ensure)

lemma stop_store: "dm_store (snd (stopWatcherLocked p d)) = dm_store d"
  "dm_persistCh (snd (stopWatcherLocked p d)) = dm_persistCh d"
  by (auto simp: stopWatcherLocked_def upd_handle_def dm_store_def split: option.split)

lemma fold_restart_effects:
  "q \<notin> set ys \<Longrightarrow> Get (dm_store (fold restart_locked ys d)) q = Get (dm_store d) q"
  "dm_persistCh (fold restart_locked ys d) = dm_persistCh d"
  by (induction ys arbitrary: d) (auto simp: restart_locked_def start_effects stop_store)

lemma fold_start_effects:
  "q \<notin> set ps \<Longrightarrow> Get (dm_store (fold start_missing ps d)) q = Get (dm_store d) q"
  "dm_persistCh (fold start_missing ps d) = dm_persistCh d"
  by (induction ps arbitrary: d) (auto simp: start_effects)

lemma reconcile_moved:
  assumes inv: "daemon_inv d" and live: "\<not> dm_cancelled d" and dist: "distinct (map fst (dm_watchers d))"
    and repos: "repos = uniqueRepos de (dm_world d) (cfg_Repos config)"
  defines "keep \<equiv> if dm_envs d = cfg_Envs config then {p \<in> set repos. map_of (dm_watchers d) p \<noteq> None} else {}"
  shows "moved (set repos - keep) (fst ` set (dm_watchers d) - keep)
      (d\<lparr>dm_envs := cfg_Envs config\<rparr>) (reconcileWatchers de config d)"
proof -
  define d2 where "d2 = (ensureRestored de repos d)\<lparr>dm_envs := cfg_Envs config\<rparr>"
  let ?watched = "map fst (dm_watchers d)"
  let ?xs = "filter (\<lambda>rp. rp \<notin> set repos) ?watched"
  let ?ys = "if dm_envs d \<noteq> cfg_Envs config then filter (\<lambda>rp. rp \<in> set repos) ?watched else []"
  have same: "same_watchers d (ensureRestored de repos d)" "dm_envs (ensureRestored de repos d) = dm_envs d"
    by (simp, simp add: ensureRestored_def upd_store_def Let_def split: prod.split)
  have h2: "dm_watchers d2 = dm_watchers d" "dm_handles d2 = dm_handles d" using same(1) by (simp_all add: d2_def same_watchers_def)
  have inv2: "daemon_inv d2" using daemon_inv_ensureRestored [OF inv] by (simp add: d2_def daemon_inv_envs)
  define d3 where "d3 = fold removeWatcher ?xs d2"
  define d4 where "d4 = fold restart_locked ?ys d3"
  have r: "reconcileWatchers de config d = fold start_missing repos d4"
    using live same(2) h2(1) by (simp add: reconcileWatchers_def Let_def repos [symmetric] d2_def d3_def d4_def)
  have m3: "moved {} (set ?xs) d2 d3" unfolding d3_def by (rule moved_fold_remove [OF inv2])
  then have inv3: "daemon_inv d3" by (simp add: moved_def)
  have m4: "moved (set ?ys) (set ?ys) d3 d4" unfolding d4_def by (rule moved_fold_restart [OF inv3]) (simp add: dist)
  then have inv4: "daemon_inv d4" by (simp add: moved_def)
  have m24: "moved (set ?ys) (set ?xs \<union> set ?ys) d2 d4" using moved_trans [OF m3 m4 inv2] by simp
  have m: "moved (set ?ys \<union> {p \<in> set repos. map_of (dm_watchers d4) p = None}) (set ?xs \<union> set ?ys) d2
      (reconcileWatchers de config d)"
    using moved_trans [OF m24 moved_fold_start [OF inv4, of repos] inv2] unfolding r by simp
  have w4: "p \<in> set repos \<Longrightarrow> map_of (dm_watchers d4) p = None \<longleftrightarrow> map_of (dm_watchers d) p = None" for p
  proof -
    assume p: "p \<in> set repos"
    show ?thesis
    proof (cases "p \<in> set ?ys")
      case True
      then have "map_of (dm_watchers d) p \<noteq> None" by (auto simp: map_of_eq_None_iff split: if_splits)
      then show ?thesis using movedD(1) [OF m24 True] by auto
    next
      case False
      then have np: "p \<notin> set ?xs \<union> set ?ys" using p by (simp only: Un_iff set_filter mem_Collect_eq not_True_eq_False simp_thms)
      show ?thesis using movedD(3) [OF m24 False np] h2(1) by simp
    qed
  qed
  have F: "set ?ys \<union> {p \<in> set repos. map_of (dm_watchers d4) p = None} = set repos - keep"
    using w4 by (auto simp: keep_def map_of_eq_None_iff)
  have X: "set ?xs \<union> set ?ys = fst ` set (dm_watchers d) - keep"
    by (auto simp: keep_def map_of_eq_None_iff)
  have e: "moved F X d2 d' \<Longrightarrow> moved F X (d\<lparr>dm_envs := cfg_Envs config\<rparr>) d'" for F X d'
    using h2 by (simp add: moved_def fresh_def d2_def)
  show ?thesis using e [OF m] unfolding F X .
qed


text \<open>The map of the watchers has each key once.\<close>

lemma distinct_start: "distinct (map fst (dm_watchers d)) \<Longrightarrow> distinct (map fst (dm_watchers (startWatcherLocked p t d)))"
  by (simp add: startWatcherLocked_def Let_def upd_store_def distinct_update)

lemma distinct_stop: "distinct (map fst (dm_watchers d)) \<Longrightarrow> distinct (map fst (dm_watchers (snd (stopWatcherLocked p d))))"
  by (simp add: stopWatcherLocked_def distinct_delete split: option.split)

lemma distinct_restart: "distinct (map fst (dm_watchers d)) \<Longrightarrow> distinct (map fst (dm_watchers (restart_locked p d)))"
  by (simp add: restart_locked_def distinct_start distinct_stop)

lemma distinct_remove: "distinct (map fst (dm_watchers d)) \<Longrightarrow> distinct (map fst (dm_watchers (removeWatcher p d)))"
  using distinct_stop [of d p]
  by (auto simp: removeWatcher_def requestPersist_def upd_store_def split: prod.splits option.splits)

lemma distinct_fold:
  "(\<And>x d. distinct (map fst (dm_watchers d)) \<Longrightarrow> distinct (map fst (dm_watchers (f x d)))) \<Longrightarrow>
   distinct (map fst (dm_watchers d)) \<Longrightarrow> distinct (map fst (dm_watchers (fold f xs d)))"
  by (induction xs arbitrary: d) auto

lemma distinct_start_loop: "distinct (map fst (dm_watchers d)) \<Longrightarrow> distinct (map fst (dm_watchers (start_loop rps n d)))"
  by (induction rps n d rule: start_loop.induct) (simp_all add: distinct_start)

lemma watchers_ensureRestored [simp]: "dm_watchers (ensureRestored de repos d) = dm_watchers d"
  "dm_watchers (saveState de d) = dm_watchers d" "dm_watchers (forgetWhenStopped p d) = dm_watchers d"
  using same_watchers_ops(3) [of d de repos] same_watchers_ops(5) [of d de] same_watchers_ops(7) [of d p]
  by (simp_all add: same_watchers_def)

lemma distinct_step: "daemon_step de d d' \<Longrightarrow> distinct (map fst (dm_watchers d)) \<Longrightarrow> distinct (map fst (dm_watchers d'))"
  by (induction rule: daemon_step.induct)
    (auto simp: startWatchers_def reconcileWatchers_def Let_def restart_key_def upd_handle_def syncLock_def
      intro!: distinct_start_loop distinct_fold distinct_restart distinct_remove distinct_start)

interpretation keys: step_invariant "daemon_step de" "daemon_reachable de" "\<lambda>d. distinct (map fst (dm_watchers d))" for de
  by unfold_locales (rule distinct_step)

lemma distinct_reachable: "daemon_reachable de (init sys fs) d \<Longrightarrow> distinct (map fst (dm_watchers d))"
  by (erule keys.reach_inv) (simp add: init_def)

text \<open>The keys after a reconciliation, and the world, which it does not change.\<close>

lemma reconcile_keys:
  assumes "daemon_inv d" and "\<not> dm_cancelled d" and "distinct (map fst (dm_watchers d))"
  shows "map_of (dm_watchers (reconcileWatchers de config d)) p \<noteq> None \<longleftrightarrow>
    p \<in> set (uniqueRepos de (dm_world d) (cfg_Repos config))"
proof -
  let ?repos = "uniqueRepos de (dm_world d) (cfg_Repos config)" and ?w = "map_of (dm_watchers d)"
  define keep where "keep = (if dm_envs d = cfg_Envs config then {p \<in> set ?repos. ?w p \<noteq> None} else {})"
  have m: "moved (set ?repos - keep) (fst ` set (dm_watchers d) - keep) (d\<lparr>dm_envs := cfg_Envs config\<rparr>)
      (reconcileWatchers de config d)"
    using reconcile_moved [OF assms refl] unfolding keep_def .
  have k: "p \<in> keep \<Longrightarrow> p \<in> set ?repos \<and> ?w p \<noteq> None" by (auto simp: keep_def split: if_splits)
  have n: "p \<notin> fst ` set (dm_watchers d) \<Longrightarrow> ?w p = None" by (simp add: map_of_eq_None_iff)
  consider "p \<in> keep" | "p \<in> set ?repos - keep" | "p \<notin> set ?repos" "p \<in> fst ` set (dm_watchers d)"
    | "p \<notin> set ?repos" "p \<notin> fst ` set (dm_watchers d)" by blast
  then show ?thesis
  proof cases
    case 1
    then show ?thesis using movedD(3) [OF m, of p] k by simp
  next
    case 2
    then show ?thesis using movedD(1) [OF m, of p] by blast
  next
    case 3
    moreover have "p \<notin> keep" using 3 k by blast
    ultimately show ?thesis using movedD(2) [OF m, of p] by simp
  next
    case 4
    then show ?thesis using movedD(3) [OF m, of p] n by simp
  qed
qed

lemma world_ops [simp]:
  "dm_world (upd_store f d) = dm_world d" "dm_world (startWatcherLocked p t d) = dm_world d"
  "dm_world (restart_locked p d) = dm_world d" "dm_world (removeWatcher p d) = dm_world d"
  by (auto simp: dm_world_def upd_store_def startWatcherLocked_def stopWatcherLocked_def upd_handle_def restart_locked_def
      removeWatcher_def requestPersist_def Let_def split: option.split)

lemma world_fold: "(\<And>x d. dm_world (f x d) = dm_world d) \<Longrightarrow> dm_world (fold f xs d) = dm_world d"
  by (induction xs arbitrary: d) auto

lemma world_folds [simp]:
  "dm_world (fold removeWatcher xs d) = dm_world d" "dm_world (fold restart_locked xs d) = dm_world d"
  "dm_world (fold start_missing xs d) = dm_world d"
  by (rule world_fold, simp)+

lemma world_restored [simp]: "dm_world ((ensureRestored de repos d)\<lparr>dm_envs := es\<rparr>) = dm_world d"
  by (simp add: ensureRestored_def dm_world_def upd_store_def Let_def split: prod.split)

lemma world_reconcile [simp]: "dm_world (reconcileWatchers de config d) = dm_world d"
  by (simp add: reconcileWatchers_def Let_def)

section \<open>The saved state\<close>

definition state_file :: "'w daemon_env \<Rightarrow> 'w daemon \<Rightarrow> string option" where
  "state_file de d = map_option fst (dm_fs d (de_state_path de))"

definition file_inv :: "'w daemon_env \<Rightarrow> filesystem \<Rightarrow> 'w daemon \<Rightarrow> bool" where
  "file_inv de fs d \<longleftrightarrow> (\<not> dm_ready d \<longrightarrow> dm_fs d (de_state_path de) = fs (de_state_path de)) \<and>
     (dm_persisted d = None \<or> state_file de d = dm_persisted d)"

text \<open>The fields that \<open>file_inv\<close> is about; only \<open>saveState\<close> and the outside change them, and \<open>ensureRestored\<close> sets the flag.\<close>

definition file_fields :: "'w daemon \<Rightarrow> filesystem \<times> string option \<times> bool" where
  "file_fields d = (dm_fs d, dm_persisted d, dm_ready d)"

lemma file_fields_ops [simp]:
  "file_fields (upd_store f d) = file_fields d" "file_fields (upd_handle n g d) = file_fields d"
  "file_fields (startWatcherLocked p t d) = file_fields d" "file_fields (snd (stopWatcherLocked p d)) = file_fields d"
  "file_fields (restart_locked p d) = file_fields d" "file_fields (removeWatcher p d) = file_fields d"
  "file_fields (syncLock p d) = file_fields d" "file_fields (forgetWhenStopped p d) = file_fields d"
  by (auto simp: file_fields_def upd_store_def upd_handle_def startWatcherLocked_def stopWatcherLocked_def
      restart_locked_def removeWatcher_def requestPersist_def syncLock_def forgetWhenStopped_def Let_def split: option.split)

lemma file_fields_fold: "(\<And>x d. file_fields (f x d) = file_fields d) \<Longrightarrow> file_fields (fold f xs d) = file_fields d"
  by (induction xs arbitrary: d) auto

lemma file_fields_folds [simp]:
  "file_fields (fold removeWatcher xs d) = file_fields d" "file_fields (fold restart_locked xs d) = file_fields d"
  "file_fields (fold start_missing xs d) = file_fields d"
  by (rule file_fields_fold, simp)+

lemma file_fields_start_loop [simp]: "file_fields (start_loop rps n d) = file_fields d"
  by (induction rps n d rule: start_loop.induct) simp_all

lemma file_fields_restored [simp]:
  "file_fields ((ensureRestored de repos d)\<lparr>dm_envs := es\<rparr>) = (dm_fs d, dm_persisted d, True)"
  by (auto simp: file_fields_def ensureRestored_def upd_store_def Let_def split: prod.split)

lemma file_fields_reconcile:
  "file_fields (reconcileWatchers de config d) = (dm_fs d, dm_persisted d, if dm_cancelled d then dm_ready d else True)"
  by (simp add: reconcileWatchers_def Let_def) (simp add: file_fields_def)

text \<open>A temporary file never has the name of the state file.\<close>

definition temp_ok :: "'w daemon_env \<Rightarrow> bool" where
  "temp_ok de \<longleftrightarrow> (\<forall>w. ae_temp (de_atomic de w) \<noteq> Some (de_state_path de))"

lemma file_inv_fields: "file_fields d' = file_fields d \<Longrightarrow> file_inv de fs d \<Longrightarrow> file_inv de fs d'"
  by (simp add: file_inv_def file_fields_def state_file_def)

lemma file_inv_ready: "file_fields d' = (dm_fs d, dm_persisted d, True) \<Longrightarrow> file_inv de fs d \<Longrightarrow> file_inv de fs d'"
  by (simp add: file_inv_def file_fields_def state_file_def)

lemma file_inv_save:
  assumes "temp_ok de" and inv: "file_inv de fs d"
  shows "file_inv de fs (saveState de d)"
proof (cases "dm_ready d")
  case True
  obtain previous ok fs' where r: "SavePersisted (de_state_enc de) (de_mkdir de (dm_world d)) (de_atomic de (dm_world d))
      (dm_store d) (dm_fs d) (de_state_path de) (dm_persisted d) = (previous, ok, fs')" by (metis prod_cases3)
  have "dm_persisted d = None \<or> map_option fst (dm_fs d (de_state_path de)) = dm_persisted d"
    using inv by (simp add: file_inv_def state_file_def)
  moreover have "t \<noteq> de_state_path de" if "ae_temp (de_atomic de (dm_world d)) = Some t" for t
    using that assms(1) by (auto simp: temp_ok_def)
  ultimately have sync: "(previous = None \<or> map_option fst (fs' (de_state_path de)) = previous)"
    using save_in_sync [OF _ _ r] by blast
  have "\<not> ok \<Longrightarrow> previous = dm_persisted d"
    using r by (auto simp: SavePersisted_def Let_def split: option.splits if_splits)
  then show ?thesis using True r sync by (auto simp: saveState_def file_inv_def state_file_def)
qed (use inv in \<open>simp add: saveState_def\<close>)

lemma file_inv_step:
  assumes "temp_ok de" and "daemon_step de d d'" and inv: "file_inv de fs d"
  shows "file_inv de fs d'"
  using assms(2)
proof (cases rule: daemon_step.cases)
  case (step_start config)
  then show ?thesis using inv by (intro file_inv_ready [of d' d]) (simp_all add: startWatchers_def Let_def)
next
  case (step_reconcile config)
  then show ?thesis
  proof (cases "dm_cancelled d")
    case False
    then show ?thesis using step_reconcile inv by (intro file_inv_ready [of d' d]) (simp_all add: file_fields_reconcile)
  qed (use step_reconcile inv in \<open>simp add: reconcileWatchers_def\<close>)
next
  case (step_restart key)
  then show ?thesis using inv by (intro file_inv_fields [of d' d]) (simp_all add: restart_key_def)
next
  case (step_forget p n)
  then show ?thesis using inv by (intro file_inv_fields [of d' d]) (simp_all, simp add: file_fields_def)
next
  case step_save
  have "file_inv de fs (d\<lparr>dm_persistCh := False\<rparr>)" using inv by (simp add: file_inv_def state_file_def)
  then show ?thesis using step_save file_inv_save [OF assms(1)] by simp
next
  case (step_outside fs' sys b rs)
  then show ?thesis using inv by (simp add: file_inv_def state_file_def)
qed (use inv in \<open>auto intro!: file_inv_fields [of _ d] simp: file_fields_def upd_handle_def syncLock_def\<close>)

interpretation saved: step_invariant "daemon_step de" "daemon_reachable de" "\<lambda>d. temp_ok de \<longrightarrow> file_inv de fs d" for de fs
  by unfold_locales (blast intro: file_inv_step)

lemma file_inv_reachable: "temp_ok de \<Longrightarrow> daemon_reachable de (init sys fs) d \<Longrightarrow> file_inv de fs d"
  using saved.reach_inv [of de "init sys fs" d fs] by (simp add: file_inv_def init_def)

text \<open>What a new daemon reads back.\<close>

lemma load_repos_other: "q \<notin> pp_Path ` set ps \<Longrightarrow> Get (snd (load_repos keep ps s n)) q = Get s q"
  by (induction keep ps s n rule: load_repos.induct) (auto simp: Get_states_update)

lemma load_repos_kept:
  assumes "distinct (map pp_Path ps)" and "x \<in> set ps" and "pp_Path x \<noteq> []" and "keep (pp_Path x)"
    and "current s (pp_Path x) = idle_state (pp_Path x)"
  shows "Get (snd (load_repos keep ps s n)) (pp_Path x) = Some (load_state x (idle_state (pp_Path x)))"
  using assms
proof (induction ps arbitrary: s n)
  case (Cons p ps)
  show ?case
  proof (cases "p = x")
    case True
    then have "pp_Path x \<notin> pp_Path ` set ps" using Cons.prems(1) by simp
    then show ?thesis using Cons.prems(3-5) True by (simp add: load_repos_other Get_states_update)
  next
    case False
    then have x: "x \<in> set ps" "pp_Path p \<noteq> pp_Path x" using Cons.prems(1,2) by auto
    then show ?thesis using Cons.prems Cons.IH by (simp add: current_def Get_states_update)
  qed
qed simp

lemma Get_Ensures: "Get (foldl Ensure s ps) q = (if q \<in> set ps then Some (current s q) else Get s q)"
  by (induction ps arbitrary: s) (auto simp: Get_Ensure)

lemma current_Ensures: "current (foldl Ensure s ps) q = current s q"
  by (induction ps arbitrary: s) auto

lemma start_loop_keeps:
  assumes "map_of (dm_watchers d) p = Some k" and "k < length (dm_handles d)" and "Get (dm_store d) p = Some st"
    and "hd_paused (dm_handles d ! k) = st_Paused st" and "d' = start_loop rps n d"
  shows "map_of (dm_watchers d') p = Some k \<and> hd_paused (dm_handles d' ! k) = st_Paused st \<and> Get (dm_store d') p = Some st"
  using assms
proof (induction rps n d arbitrary: d' rule: start_loop.induct)
  case (2 rp rps n d)
  show ?case
  proof (cases "map_of (dm_watchers d) rp = None")
    case True
    let ?d = "startWatcherLocked rp (int n * initialSyncStagger) d"
    have "p \<noteq> rp" using 2(3) True by auto
    then have "map_of (dm_watchers ?d) p = Some k" "k < length (dm_handles ?d)" "Get (dm_store ?d) p = Some st"
      "hd_paused (dm_handles ?d ! k) = st_Paused st" "d' = start_loop rps (n + 1) ?d"
      using 2(3-7) True
      by (simp_all add: startWatcherLocked_def Let_def upd_store_def dm_store_def update_conv' nth_append Get_Ensure)
    then show ?thesis by (intro "2.IH"(2)) (simp_all add: True)
  next
    case False
    then show ?thesis using 2 by simp
  qed
qed simp

lemma start_loop_paused:
  assumes "p \<in> set rps" and "map_of (dm_watchers d) p = None" and "Get (dm_store d) p = Some st" and "d' = start_loop rps n d"
  shows "\<exists>k. map_of (dm_watchers d') p = Some k \<and> hd_paused (dm_handles d' ! k) = st_Paused st \<and> Get (dm_store d') p = Some st"
  using assms
proof (induction rps n d arbitrary: d' rule: start_loop.induct)
  case (2 rp rps n d)
  show ?case
  proof (cases "map_of (dm_watchers d) rp = None")
    case none: True
    let ?d = "startWatcherLocked rp (int n * initialSyncStagger) d"
    note start_simps = startWatcherLocked_def Let_def upd_store_def dm_store_def update_conv' nth_append Get_Ensure
    show ?thesis
    proof (cases "rp = p")
      case True
      have "map_of (dm_watchers ?d) p = Some (length (dm_handles d))" "length (dm_handles d) < length (dm_handles ?d)"
        "Get (dm_store ?d) p = Some st" "hd_paused (dm_handles ?d ! length (dm_handles d)) = st_Paused st"
        "d' = start_loop rps (n + 1) ?d"
        using 2(5,6) True none by (simp_all add: start_simps current_def)
      then show ?thesis by (intro exI) (rule start_loop_keeps)
    next
      case False
      have "map_of (dm_watchers ?d) p = None" "Get (dm_store ?d) p = Some st"
        using 2(4,5) False by (simp_all add: start_simps)
      then show ?thesis using "2.IH"(2) [of d'] none 2(3,6) False by simp
    qed
  next
    case False
    then show ?thesis using 2 by auto
  qed
qed simp

section \<open>Properties\<close>

text \<open>A daemon with one repository, whose watcher runs and has been restarted.\<close>

definition demo_daemon_env :: "unit daemon_env" where
  "demo_daemon_env =
     \<lparr>de_env = demo_env [], de_paths = demo_paths, de_cfg_path = Some ''c'', de_cfg_dec = \<lambda>_. None, de_cfg_enc = \<lambda>_. Some ''x'',
      de_cfg_error = \<lambda>_. ''e'', de_readable = \<lambda>_ _. True,
      de_atomic = \<lambda>_. \<lparr>ae_temp = Some ''t'', ae_write = None, ae_sync = True, ae_chmod = True, ae_close = True,
        ae_rename = True, ae_remove = True\<rparr>,
      de_mkdir = \<lambda>_. True, de_state_path = ''s'', de_state_dec = demo_dec, de_state_enc = \<lambda>_. Some ''j'',
      de_version = ''dev''\<rparr>"

definition demo_daemon1 :: "unit daemon" where
  "demo_daemon1 = startWatchers demo_daemon_env \<lparr>cfg_Repos = [''/r'', ''/r/''], cfg_Envs = []\<rparr> (init demo_sys Map.empty)"

definition demo_daemon :: "unit daemon" where
  "demo_daemon = restart_key ''/r'' (upd_handle 0 (\<lambda>h. h\<lparr>hd_phase := Watching\<rparr>) demo_daemon1)"

lemma demo_daemon1_eval:
  "length (dm_handles demo_daemon1) = 1" "hd_phase (dm_handles demo_daemon1 ! 0) = Blocked"
  "unblocked demo_daemon1 0" "\<not> watch_cancelled demo_daemon1 0"
  by code_simp+

lemma demo_daemon_reachable: "daemon_reachable demo_daemon_env (init demo_sys Map.empty) demo_daemon"
proof -
  have "daemon_reachable demo_daemon_env (init demo_sys Map.empty) demo_daemon1"
    unfolding demo_daemon1_def by (rule daemon_more [OF daemon_begin step_start])
  then have "daemon_reachable demo_daemon_env (init demo_sys Map.empty)
      (upd_handle 0 (\<lambda>h. h\<lparr>hd_phase := Watching\<rparr>) demo_daemon1)"
    by (rule daemon_more) (rule step_watch; simp add: demo_daemon1_eval)
  then show ?thesis unfolding demo_daemon_def by (rule daemon_more) (rule step_restart)
qed

text \<open>
  C3. No two watchers of a repository run at the same time. Whatever the sequence of starts, reloads
  and restarts, and however long old watchers take to stop, of all the goroutines ever started for
  a path at most one is in its watch function; so no two syncs of it are started side by side.
\<close>

theorem one_watcher_per_repo:
  assumes "daemon_reachable de (init sys fs) d" and "m < length (dm_handles d)" and "n < length (dm_handles d)"
    and "hd_repo (dm_handles d ! m) = hd_repo (dm_handles d ! n)"
    and "hd_phase (dm_handles d ! m) = Watching" and "hd_phase (dm_handles d ! n) = Watching"
  shows "m = n"
proof (rule ccontr)
  assume "m \<noteq> n"
  have "passed_inv (dm_handles d)" using daemon_inv_reachable [OF assms(1)] by (simp add: daemon_inv_def)
  note P = passed_invD [OF this]
  show False
    using \<open>m \<noteq> n\<close> P [OF assms(3) _ assms(4)] P [OF assms(2) _ assms(4) [symmetric]] assms(5,6)
    by (cases m n rule: linorder_cases) simp_all
qed

theorem one_watcher_per_repo_witness:
  "{n. n < 2 \<and> hd_repo (dm_handles demo_daemon ! n) = ''/r'' \<and> hd_phase (dm_handles demo_daemon ! n) = Watching} = {0}"
proof -
  have e: "length (dm_handles demo_daemon) = 2" "hd_repo (dm_handles demo_daemon ! 0) = ''/r''"
    "hd_phase (dm_handles demo_daemon ! 0) = Watching" by code_simp+
  then show ?thesis using one_watcher_per_repo [OF demo_daemon_reachable, of _ 0] by auto
qed



text \<open>
  The repositories that are watched for a configuration: some of the configured ones, in the same
  order; no two of them are the same folder, after resolving symbolic links; and every configured one
  is the same folder as one of them.
\<close>

theorem uniqueRepos_spec:
  "subseq (uniqueRepos de w repos) repos \<and> distinct (map (ResolvePath (de_paths de) w) (uniqueRepos de w repos)) \<and>
   ResolvePath (de_paths de) w ` set (uniqueRepos de w repos) = ResolvePath (de_paths de) w ` set repos"
  using unique_loop_spec [of "ResolvePath (de_paths de) w" repos "[]"] by (simp add: uniqueRepos_def)

text \<open>
  C32. The daemon does not overwrite the state file before it has read it, even if it is stopped or a
  save is requested in that time; and what it remembers as saved, and skips to write again, is in
  the file.
\<close>

theorem state_file_safe:
  assumes "temp_ok de" and "daemon_reachable de (init sys fs) d"
  shows "(\<not> dm_ready d \<longrightarrow> dm_fs (Stop_daemon de d) (de_state_path de) = fs (de_state_path de)) \<and>
    (dm_persisted d = None \<or> state_file de d = dm_persisted d)"
  using file_inv_reachable [OF assms] by (auto simp: file_inv_def Stop_daemon_def saveState_def)

theorem state_file_safe_witness:
  "dm_fs (Stop_daemon demo_daemon_env (init demo_sys [''s'' \<mapsto> (''old'', 384)])) ''s'' = Some (''old'', 384)"
proof -
  have "temp_ok demo_daemon_env" by (simp add: temp_ok_def demo_daemon_env_def)
  then show ?thesis
    using state_file_safe [OF _ daemon_begin, of demo_daemon_env demo_sys "[''s'' \<mapsto> (''old'', 384)]"]
    by (simp add: init_def demo_daemon_env_def)
qed

text \<open>
  C11. What a restart of the daemon keeps. If stopping it saves its state, and the decoder inverts the encoder on
  what is saved, then a new daemon that reads the file watches each repository that is still
  configured with the pause flag it had, and its state has the pause, the time stamps and the conflict that it had.
\<close>

theorem restart_keeps_state:
  assumes "daemon_reachable de (init sys fs) d" and "temp_ok de" and "dm_ready d" and "store_inv (dm_store d)"
    and "Get (dm_store d) p = Some st" and "p \<noteq> []"
    and "SavePersisted (de_state_enc de) (de_mkdir de (dm_world d)) (de_atomic de (dm_world d)) (dm_store d) (dm_fs d)
      (de_state_path de) (dm_persisted d) = (saved, True, fs')"
    and "MarshalPersisted (de_state_enc de) (dm_store d) = Some content"
    and "de_state_dec de content = Some (persisted_file (dm_store d))"
    and "de_readable de (sy_world sys') (de_state_path de)"
    and "p \<in> set (uniqueRepos de (sy_world sys') (cfg_Repos config))"
    and "d' = startWatchers de config (init sys' (dm_fs (Stop_daemon de d)))"
  shows "\<exists>k. map_of (dm_watchers d') p = Some k \<and> hd_paused (dm_handles d' ! k) = st_Paused st \<and>
    Get (dm_store d') p = Some (restored st)"
proof -
  let ?repos = "uniqueRepos de (sy_world sys') (cfg_Repos config)"
  let ?d0 = "init sys' (dm_fs (Stop_daemon de d))"
  let ?store = "foldl Ensure NewRepoStateStore ?repos" and ?keep = "\<lambda>p. p \<in> set ?repos"
  let ?ps = "pf_Repos (persisted_file (dm_store d))"
  have w: "dm_world ?d0 = sy_world sys'" "dm_store ?d0 = NewRepoStateStore" "dm_watchers ?d0 = []" "\<not> dm_ready ?d0"
    by (simp_all add: init_def dm_world_def dm_store_def)
  have stop: "dm_fs (Stop_daemon de d) = fs'"
    using assms(3,7) by (simp add: Stop_daemon_def saveState_def dm_world_def dm_store_def)
  have "dm_persisted d = None \<or> map_option fst (dm_fs d (de_state_path de)) = dm_persisted d"
    using file_inv_reachable [OF assms(2,1)] by (simp add: file_inv_def state_file_def)
  moreover have "t \<noteq> de_state_path de" if "ae_temp (de_atomic de (dm_world d)) = Some t" for t
    using that assms(2) by (auto simp: temp_ok_def)
  ultimately have "map_option fst (fs' (de_state_path de)) = Some content"
    using save_in_sync [OF _ _ assms(7)] assms(8) by metis
  then have "daemon_read de ?d0 (de_state_path de) = ReadData content"
    using assms(10) w(1) stop by (auto simp: daemon_read_def read_fs_def init_def split: option.split)
  then have r: "dm_store (ensureRestored de ?repos ?d0) = snd (load_repos ?keep ?ps ?store 0)"
    using assms(9) w by (simp add: ensureRestored_def LoadPersisted_def upd_store_def dm_store_def init_def split_beta Let_def)
  have dist: "distinct (map fst (rs_states (dm_store d)))" and path: "st_Path st = p"
    using assms(4,5) by (auto simp: store_inv_def)
  have "Get (dm_store d) k = Some s \<longleftrightarrow> (k, s) \<in> set (rs_states (dm_store d))" for k s
    using dist by (simp add: Get_def)
  then have "distinct (map pp_Path ?ps)" and "to_persisted st \<in> set ?ps"
    using distinct_sort_key_paths [OF dist] assms(4,5) by (force simp: persisted_file_def store_inv_def)+
  then have "Get (dm_store (ensureRestored de ?repos ?d0)) p = Some (load_state (to_persisted st) (idle_state p))"
    using load_repos_kept [of ?ps "to_persisted st" ?keep ?store 0] assms(6,11) path
    by (simp add: r current_Ensures) (simp add: current_def Get_def NewRepoStateStore_def)
  then have g: "Get (dm_store ((ensureRestored de ?repos ?d0)\<lparr>dm_envs := cfg_Envs config\<rparr>)) p = Some (restored st)"
    using load_state_restored [of st] path by (simp add: dm_store_def)
  have "d' = start_loop ?repos 0 ((ensureRestored de ?repos ?d0)\<lparr>dm_envs := cfg_Envs config\<rparr>)"
    using assms(12) w(1) by (simp add: startWatchers_def Let_def)
  then have "\<exists>k. map_of (dm_watchers d') p = Some k \<and> hd_paused (dm_handles d' ! k) = st_Paused (restored st) \<and>
      Get (dm_store d') p = Some (restored st)"
    by (intro start_loop_paused [OF assms(11) _ g]) (simp_all add: w(3))
  then show ?thesis by (simp add: restored_def)
qed

theorem restart_keeps_state_witness:
  "\<exists>k. map_of (dm_watchers (startWatchers demo_daemon_env \<lparr>cfg_Repos = [''/a''], cfg_Envs = []\<rparr>
       (init demo_sys (dm_fs (Stop_daemon demo_daemon_env (demo_daemon\<lparr>dm_sys := demo_sys\<lparr>sy_store := demo_store\<rparr>\<rparr>)))))) ''/a'' = Some k"
proof -
  let ?d = "demo_daemon\<lparr>dm_sys := demo_sys\<lparr>sy_store := demo_store\<rparr>\<rparr>"
  have "daemon_reachable demo_daemon_env (init demo_sys Map.empty) ?d"
    using daemon_more [OF demo_daemon_reachable step_outside [where fs' = "dm_fs demo_daemon" and sys = "dm_sys ?d"
        and b = "dm_persistCh demo_daemon" and rs = "dm_restarts demo_daemon"]] by simp
  moreover have "temp_ok demo_daemon_env" by (simp add: temp_ok_def demo_daemon_env_def)
  moreover have "dm_ready ?d" by code_simp
  moreover have "dm_store ?d = demo_store" by (simp add: dm_store_def)
  moreover have "store_inv demo_store" unfolding demo_store_def by (rule store_inv_run [OF store_inv_New])
  moreover obtain st where "Get demo_store ''/a'' = Some st" 
  proof -
    have "Get demo_store ''/a'' \<noteq> None" by code_simp
    then show ?thesis using that by blast
  qed
  moreover obtain saved ok fs' where r: "SavePersisted (de_state_enc demo_daemon_env) (de_mkdir demo_daemon_env (dm_world ?d))
      (de_atomic demo_daemon_env (dm_world ?d)) (dm_store ?d) (dm_fs ?d) (de_state_path demo_daemon_env) (dm_persisted ?d) = (saved, ok, fs')"
    by (metis prod_cases3)
  moreover have "fst (snd (SavePersisted (de_state_enc demo_daemon_env) (de_mkdir demo_daemon_env (dm_world ?d))
      (de_atomic demo_daemon_env (dm_world ?d)) (dm_store ?d) (dm_fs ?d) (de_state_path demo_daemon_env) (dm_persisted ?d)))"
    by code_simp
  moreover have "uniqueRepos demo_daemon_env () [''/a''] = [''/a'']" by code_simp
  ultimately show ?thesis
    using restart_keeps_state [of demo_daemon_env demo_sys Map.empty ?d "''/a''" st saved fs' "[CHR ''j'', CHR 0x0A]" demo_sys
        "\<lparr>cfg_Repos = [''/a''], cfg_Envs = []\<rparr>"]
    by (auto simp: MarshalPersisted_def demo_daemon_env_def demo_dec_def demo_sys_def)
qed

end
