(* ===== verification/SaveLoop.thy ===== *)
theory SaveLoop
  imports Daemon
begin

text \<open>
  The goroutine of \<open>startStatePersistence\<close> (\<open>daemon/state.go\<close>): a notice that the store has changed arms a timer, unless one
  runs already, and the state is saved when it fires.

  The channel \<open>persistCh\<close> holds one notice (\<open>dm_persistCh\<close>). A run is a relation on states with their time, whose
  steps are the three cases of the loop, the changes of the store with their notice, whatever else the
  daemon does, and time passing. \<open>sl_unsaved\<close> and \<open>sl_saves\<close>, which no code reads, record whether a change
  with a notice has happened since the state was last taken to be saved, and the times of the saves.
\<close>

section \<open>The loop\<close>

definition statePersistDebounce :: duration where "statePersistDebounce = 2000000000"

record 'w save_loop =
  sl_daemon :: "'w daemon"
  sl_timer :: "int option" \<comment> \<open>when it fires\<close>
  sl_returned :: bool
  sl_unsaved :: bool
  sl_saves :: "int list"

text \<open>\<open>OnChange\<close> registers the listener; the goroutine starts without a timer.\<close>

definition startStatePersistence :: "'w daemon \<Rightarrow> 'w save_loop" where
  "startStatePersistence d =
     \<lparr>sl_daemon = upd_store OnChange d, sl_timer = None, sl_returned = False, sl_unsaved = False, sl_saves = []\<rparr>"

text \<open>The store changes, and the listener asks for it to be saved.\<close>

definition store_changed :: "(repo_store \<Rightarrow> repo_store) \<Rightarrow> 'w save_loop \<Rightarrow> 'w save_loop" where
  "store_changed f s = s\<lparr>sl_daemon := requestPersist (upd_store f (sl_daemon s)), sl_unsaved := True\<rparr>"

definition loop_done :: "'w save_loop \<Rightarrow> 'w save_loop" where
  "loop_done s = s\<lparr>sl_timer := None, sl_returned := True\<rparr>"

definition loop_request :: "int \<Rightarrow> 'w save_loop \<Rightarrow> 'w save_loop" where
  "loop_request now s =
     s\<lparr>sl_daemon := (sl_daemon s)\<lparr>dm_persistCh := False\<rparr>,
       sl_timer := (if sl_timer s = None then Some (now + statePersistDebounce) else sl_timer s)\<rparr>"

definition loop_fire :: "'w daemon_env \<Rightarrow> int \<Rightarrow> 'w save_loop \<Rightarrow> 'w save_loop" where
  "loop_fire de now s =
     s\<lparr>sl_daemon := saveState de (sl_daemon s), sl_timer := None, sl_unsaved := False, sl_saves := now # sl_saves s\<rparr>"

inductive save_run :: "'w daemon_env \<Rightarrow> 'w save_loop \<Rightarrow> int \<Rightarrow> 'w save_loop \<Rightarrow> int \<Rightarrow> bool" for de s0 t0 where
  run_begin: "save_run de s0 t0 s0 t0"
| run_later: "save_run de s0 t0 s t \<Longrightarrow> t \<le> t' \<Longrightarrow> save_run de s0 t0 s t'"
| run_changed: "save_run de s0 t0 s t \<Longrightarrow> save_run de s0 t0 (store_changed f s) t"
| run_request: "save_run de s0 t0 s t \<Longrightarrow> \<not> sl_returned s \<Longrightarrow> dm_persistCh (sl_daemon s) \<Longrightarrow>
    save_run de s0 t0 (loop_request t s) t"
| run_fire: "save_run de s0 t0 s t \<Longrightarrow> \<not> sl_returned s \<Longrightarrow> sl_timer s = Some due \<Longrightarrow> due \<le> t \<Longrightarrow>
    save_run de s0 t0 (loop_fire de t s) t"
| run_done: "save_run de s0 t0 s t \<Longrightarrow> dm_cancelled (sl_daemon s) \<Longrightarrow> save_run de s0 t0 (loop_done s) t"
| run_daemon: "save_run de s0 t0 s t \<Longrightarrow> daemon_step de (sl_daemon s) d \<Longrightarrow> dm_persistCh (sl_daemon s) \<longrightarrow> dm_persistCh d \<Longrightarrow>
    save_run de s0 t0 (s\<lparr>sl_daemon := d\<rparr>) t"

section \<open>What it guarantees\<close>

text \<open>Saves are in order and at least the delay apart; the newest one is first.\<close>

fun spaced :: "int list \<Rightarrow> bool" where
  "spaced (t2 # t1 # ts) \<longleftrightarrow> t1 + statePersistDebounce \<le> t2 \<and> spaced (t1 # ts)"
| "spaced _ \<longleftrightarrow> True"

definition save_inv :: "'w save_loop \<Rightarrow> int \<Rightarrow> bool" where
  "save_inv s now \<longleftrightarrow>
     (sl_unsaved s \<and> \<not> sl_returned s \<longrightarrow> dm_persistCh (sl_daemon s) \<or> sl_timer s \<noteq> None) \<and>
     (\<forall>due. sl_timer s = Some due \<longrightarrow> due \<le> now + statePersistDebounce \<and>
        (sl_saves s = [] \<or> hd (sl_saves s) + statePersistDebounce \<le> due)) \<and>
     (sl_saves s = [] \<or> hd (sl_saves s) \<le> now) \<and> spaced (sl_saves s)"

lemma spaced_Cons: "spaced (t # ts) \<longleftrightarrow> (ts = [] \<or> hd ts + statePersistDebounce \<le> t) \<and> spaced ts"
  by (cases ts) auto

lemma debounce_pos: "0 \<le> statePersistDebounce"
  by (simp add: statePersistDebounce_def)

lemma save_inv_run: "save_run de s0 t0 s t \<Longrightarrow> save_inv s0 t0 \<Longrightarrow> save_inv s t"
proof (induction rule: save_run.induct)
  case (run_fire s t due)
  then show ?case by (auto simp: save_inv_def loop_fire_def spaced_Cons)
next
  case (run_request s t)
  then show ?case using debounce_pos by (auto simp: save_inv_def loop_request_def)
qed (auto simp: save_inv_def store_changed_def loop_done_def requestPersist_def)

text \<open>The steps of the loop are steps of the daemon, with or without a notice left in the channel.\<close>

lemma saveState_notice: "saveState de (d\<lparr>dm_persistCh := b\<rparr>) = (saveState de d)\<lparr>dm_persistCh := b\<rparr>"
  by (simp add: saveState_def dm_world_def dm_store_def split: prod.split)

lemma reach_notice:
  "daemon_reachable de d0 d \<Longrightarrow> daemon_reachable de d0 (d\<lparr>dm_sys := sys, dm_persistCh := b\<rparr>)"
  using daemon_more [OF _ step_outside [where fs' = "dm_fs d" and d = d and rs = "dm_restarts d" and sys = sys and b = b]] by simp

lemma reach_save: assumes "daemon_reachable de d0 d" shows "daemon_reachable de d0 (saveState de d)"
  using reach_notice [OF daemon_more [OF assms step_save], where sys = "dm_sys (saveState de d)" and b = "dm_persistCh (saveState de d)"]
  by (simp add: saveState_notice)

lemma save_run_reachable:
  "save_run de s0 t0 s t \<Longrightarrow> daemon_reachable de d0 (sl_daemon s0) \<Longrightarrow> daemon_reachable de d0 (sl_daemon s)"
proof (induction rule: save_run.induct)
  case (run_changed s t f)
  then show ?case
    using reach_notice [where d = "sl_daemon s" and sys = "(dm_sys (sl_daemon s))\<lparr>sy_store := f (dm_store (sl_daemon s))\<rparr>" and b = True]
    by (simp add: store_changed_def requestPersist_def upd_store_def)
next
  case (run_request s t)
  then show ?case using reach_notice [where d = "sl_daemon s" and sys = "dm_sys (sl_daemon s)" and b = False] by (simp add: loop_request_def)
next
  case (run_fire s t due)
  then show ?case using reach_save by (simp add: loop_fire_def)
next
  case (run_daemon s t d)
  then show ?case using daemon_more [OF _ run_daemon(2)] by simp
qed (simp_all add: loop_done_def)

text \<open>What a save that succeeds keeps in mind.\<close>

lemma saveState_ok:
  assumes "dm_ready d" and "SavePersisted (de_state_enc de) (de_mkdir de (dm_world d)) (de_atomic de (dm_world d)) (dm_store d)
      (dm_fs d) (de_state_path de) (dm_persisted d) = (previous, True, fs')"
  shows "dm_persisted (saveState de d) = MarshalPersisted (de_state_enc de) (dm_store d)"
  using assms by (auto simp: saveState_def SavePersisted_def Let_def split: option.splits if_splits)

section \<open>Properties\<close>


text \<open>A run: a change, its save two seconds later, and a change between the notice and the save.\<close>

definition demo_loop :: "unit save_loop" where
  "demo_loop = startStatePersistence demo_daemon"

definition demo_changes :: "unit save_loop" where
  "demo_changes =
     store_changed (\<lambda>st. SetPaused st ''/r'' False) (loop_fire demo_daemon_env 2000000000
       (loop_request 0 (store_changed (\<lambda>st. SetPaused st ''/r'' True) demo_loop)))"

lemma demo_changes_run: "save_run demo_daemon_env demo_loop 0 demo_changes 3000000000"
proof -
  let ?s = "loop_request 0 (store_changed (\<lambda>st. SetPaused st ''/r'' True) demo_loop)"
  have "save_run demo_daemon_env demo_loop 0 ?s 0"
    by (rule run_request [OF run_changed [OF run_begin]])
      (simp_all add: store_changed_def demo_loop_def startStatePersistence_def requestPersist_def)
  then have "save_run demo_daemon_env demo_loop 0 ?s 2000000000" by (rule run_later) simp
  then have "save_run demo_daemon_env demo_loop 0 (loop_fire demo_daemon_env 2000000000 ?s) 2000000000"
    by (rule run_fire [where due = 2000000000])
      (simp_all add: loop_request_def store_changed_def demo_loop_def startStatePersistence_def statePersistDebounce_def)
  from run_later [OF run_changed [OF this]] show ?thesis unfolding demo_changes_def by simp
qed


end
