(* ===== verification/Service.thy ===== *)
theory Service
  imports Git Config
begin

text \<open>
  \<open>common/service.go\<close>, and the places of files in \<open>common/protocol.go\<close> and \<open>common/socket.go\<close>: the
  description of the daemon as a service of the operating system, and installing, starting, stopping and
  removing it.

  The package \<open>github.com/kardianos/service\<close> is a parameter, the record \<open>service_api\<close>: what each of
  its calls answers and does to the world. What its documentation promises of them is \<open>service_laws\<close>. A command of the
  program active on a \<open>console\<close>: the world of git, the files, what was printed, and the calls made of the
  package.
\<close>

section \<open>Places of files\<close>

text \<open>The home directory is empty when \<open>os.UserHomeDir\<close> fails, \<open>pl_cache\<close> is \<open>None\<close> when \<open>os.UserCacheDir\<close> does.\<close>

record places =
  pl_goos :: string
  pl_home :: string
  pl_cache :: "string option"
  pl_xdg :: string \<comment> \<open>\<open>XDG_STATE_HOME\<close>\<close>
  pl_socket :: string \<comment> \<open>\<open>GIT_AUTO_SYNC_SOCKET\<close>\<close>

definition StateDir :: "places \<Rightarrow> string" where
  "StateDir pl = Join [pl_home pl, ''.local'', ''share'', ''git-auto-sync'']"

definition EventsPath :: "places \<Rightarrow> string" where
  "EventsPath pl = Join [StateDir pl, ''events.jsonl'']"

definition LogPath :: "places \<Rightarrow> string" where
  "LogPath pl =
     (if pl_goos pl = ''darwin'' then Join [pl_home pl, ''Library'', ''Logs'', ''git-auto-sync'', ''daemon.log'']
      else if pl_goos pl = ''windows''
      then Join [case pl_cache pl of Some dir \<Rightarrow> dir | None \<Rightarrow> pl_home pl, ''git-auto-sync'', ''daemon.log'']
      else
        let state = (if pl_xdg pl = [] then Join [pl_home pl, ''.local'', ''state''] else pl_xdg pl)
        in Join [state, ''git-auto-sync'', ''daemon.log''])"

definition DefaultSocketPath :: "places \<Rightarrow> string" where
  "DefaultSocketPath pl = (if pl_socket pl \<noteq> [] then pl_socket pl else Join [StateDir pl, ''daemon.sock''])"

section \<open>What a command works on\<close>

datatype service_call = SvcStart | SvcStop | SvcInstall | SvcUninstall

datatype service_status = StatusUnknown | StatusRunning | StatusStopped

text \<open>
  What is printed: a line on the standard output or on the standard error, text without a final newline, lines given to a
  \<open>tabwriter\<close>, and values printed as JSON.
\<close>

datatype printed =
    Out string
  | ErrOut string
  | OutText string
  | OutTable "string list"
  | JsonRaw string
  | JsonRepos "repo_state list"
  | JsonDown string string string "repo_state list" "string option"
  | JsonEvent event

record 'w console =
  co_sys :: "'w sys"
  co_fs :: filesystem
  co_out :: "printed list"
  co_calls :: "service_call list"

definition print_out :: "printed \<Rightarrow> ('w console, unit) state" where
  "print_out x = upd (\<lambda>s. s\<lparr>co_out := co_out s @ [x]\<rparr>)"

abbreviation co_world :: "'w console \<Rightarrow> 'w" where
  "co_world s \<equiv> sy_world (co_sys s)"

definition set_world :: "'w \<Rightarrow> 'w console \<Rightarrow> 'w console" where
  "set_world w s = s\<lparr>co_sys := (co_sys s)\<lparr>sy_world := w\<rparr>\<rparr>"

lemma set_world_simps [simp]:
  "co_world (set_world w s) = w" "co_fs (set_world w s) = co_fs s" "co_out (set_world w s) = co_out s"
  "co_calls (set_world w s) = co_calls s"
  by (simp_all add: set_world_def)

section \<open>The service\<close>

datatype option_value = OptString string | OptBool bool

record service_config =
  sc_Name :: string
  sc_DisplayName :: string
  sc_Description :: string
  sc_Executable :: string
  sc_Dependencies :: "string list"
  sc_EnvVars :: "(string \<times> string) list"
  sc_Option :: "(string \<times> option_value) list"

record 'w service_api =
  sa_executable :: "goerror + string" \<comment> \<open>\<open>os.Executable\<close>\<close>
  sa_mkdir :: "'w \<Rightarrow> goerror option \<times> 'w" \<comment> \<open>\<open>os.MkdirAll\<close> of the log's directory\<close>
  sa_new :: "service_config \<Rightarrow> goerror option"
  sa_status :: "'w \<Rightarrow> service_status \<times> goerror option"
  sa_call :: "service_call \<Rightarrow> 'w \<Rightarrow> goerror option \<times> 'w"

definition launchdPath :: string where
  "launchdPath = ''/opt/homebrew/bin:/usr/local/bin:/usr/bin:/bin:/usr/sbin:/sbin''"

definition serviceConfig :: "places \<Rightarrow> string \<Rightarrow> string \<Rightarrow> service_config" where
  "serviceConfig pl goos executable =
     (let options = [(''Restart'', OptString ''on-success''), (''UserService'', OptBool True), (''RunAtLoad'', OptBool True)]
      in \<lparr>sc_Name = ''git-auto-sync-daemon'', sc_DisplayName = ''Git Auto Sync Daemon'',
          sc_Description = ''Background Process for Auto Syncing Git Repos'',
          sc_Executable = Join [Dir executable, ''git-auto-sync-daemon''],
          sc_Dependencies = (if goos = ''linux'' then [''After=network-online.target syslog.target''] else []),
          sc_EnvVars = (if goos = ''darwin'' then [(''PATH'', launchdPath)] else []),
          sc_Option = (if goos = ''darwin''
            then options @ [(''LogDirectory'', OptString (Dir (LogPath pl))), (''KeepAlive'', OptBool True)] else options)\<rparr>)"

definition NewService :: "places \<Rightarrow> 'w service_api \<Rightarrow> goerror + service_config" where
  "NewService pl api =
     (case sa_executable api of
        Inl e \<Rightarrow> Inl (Traced e)
      | Inr ex \<Rightarrow>
          let c = serviceConfig pl (pl_goos pl) ex
          in (case sa_new api c of Some e \<Rightarrow> Inl (Traced e) | None \<Rightarrow> Inr c))"

definition svc :: "'w service_api \<Rightarrow> service_call \<Rightarrow> ('w console, goerror option) state" where
  "svc api c = State (\<lambda>s.
     case sa_call api c (co_world s) of (e, w) \<Rightarrow> (e, (set_world w s)\<lparr>co_calls := co_calls s @ [c]\<rparr>))"

definition make_log_dir :: "places \<Rightarrow> 'w service_api \<Rightarrow> ('w console, goerror option) state" where
  "make_log_dir pl api =
     (if pl_goos pl = ''darwin'' then State (\<lambda>s. case sa_mkdir api (co_world s) of (e, w) \<Rightarrow> (e, set_world w s))
      else State_Monad.return None)"

definition not_installed :: string where "not_installed = ''the service is not installed''"
definition init_exists :: string where "init_exists = ''Init already exists''"

definition enable_start :: "'w service_api \<Rightarrow> bool \<Rightarrow> ('w console, goerror option) state" where
  "enable_start api stopped =
     do {
       print_out (Out ((if stopped then ''Restarting'' else ''Starting'') @ '' git-auto-sync-daemon''));
       e \<leftarrow> svc api SvcStart;
       State_Monad.return (map_option Traced e)
     }"

definition enable_install :: "'w service_api \<Rightarrow> bool \<Rightarrow> ('w console, goerror option) state" where
  "enable_install api stopped =
     do {
       installed \<leftarrow> svc api SvcInstall;
       case installed of
         None \<Rightarrow>
           do {
             print_out (Out ''Installing git-auto-sync as a daemon'');
             enable_start api stopped
           }
       | Some e \<Rightarrow>
           if contains (error_text e) init_exists
           then do { svc api SvcUninstall; svc api SvcInstall; enable_start api stopped }
           else State_Monad.return (Some (Traced e))
     }"

definition Enable :: "places \<Rightarrow> 'w service_api \<Rightarrow> ('w console, goerror option) state" where
  "Enable pl api =
     do {
       made \<leftarrow> make_log_dir pl api;
       case made of
         Some e \<Rightarrow> State_Monad.return (Some (Traced e))
       | None \<Rightarrow>
           do {
             (status, err) \<leftarrow> ask (\<lambda>s. sa_status api (co_world s));
             if (case err of None \<Rightarrow> False | Some e \<Rightarrow> \<not> contains (error_text e) not_installed)
             then State_Monad.return (map_option Traced err)
             else if status = StatusRunning
             then do {
               stop \<leftarrow> svc api SvcStop;
               case stop of
                 Some e \<Rightarrow> State_Monad.return (Some (Traced e))
               | None \<Rightarrow> enable_install api True
             }
             else enable_install api False
           }
     }"

definition Disable :: "'w service_api \<Rightarrow> ('w console, goerror option) state" where
  "Disable api =
     do {
       print_out (Out ''Stopping git-auto-sync-daemon'');
       stop \<leftarrow> svc api SvcStop;
       case stop of
         Some e \<Rightarrow> State_Monad.return (Some (Traced e))
       | None \<Rightarrow>
           do {
             print_out (Out ''Uninstalling git-auto-sync as a daemon'');
             e \<leftarrow> svc api SvcUninstall;
             State_Monad.return (map_option Traced e)
           }
     }"

text \<open>The last branch is Go's \<open>default\<close>; the branch of \<open>StatusUnknown\<close> prints nothing.\<close>

definition Service_Status :: "'w service_api \<Rightarrow> ('w console, goerror option) state" where
  "Service_Status api =
     do {
       (status, err) \<leftarrow> ask (\<lambda>s. sa_status api (co_world s));
       case err of
         Some e \<Rightarrow> State_Monad.return (Some (Traced e))
       | None \<Rightarrow>
           do {
             (case status of
                StatusRunning \<Rightarrow> print_out (Out ''git-auto-sync-daemon is Running!'')
              | StatusStopped \<Rightarrow> print_out (Out ''git-auto-sync-daemon is NOT Running!'')
              | StatusUnknown \<Rightarrow> State_Monad.return ());
             State_Monad.return None
           }
     }"

section \<open>What the package promises\<close>

text \<open>
  The documented behaviour of the package, for a manager whose state is given by \<open>inst\<close> and \<open>active\<close>:
  the status of a service that is not installed is an error that says so; installing one that is there fails with
  \<open>Init already exists\<close>; a call that returns nil has done what it is for; making a directory changes neither.
\<close>

definition service_laws :: "'w service_api \<Rightarrow> ('w \<Rightarrow> bool) \<Rightarrow> ('w \<Rightarrow> bool) \<Rightarrow> bool" where
  "service_laws api inst active \<longleftrightarrow>
     (\<forall>w. inst (snd (sa_mkdir api w)) = inst w \<and> active (snd (sa_mkdir api w)) = active w) \<and>
     (\<forall>w. \<not> inst w \<longrightarrow> (\<exists>e. snd (sa_status api w) = Some e \<and> contains (error_text e) not_installed) \<and>
        fst (sa_status api w) \<noteq> StatusRunning) \<and>
     (\<forall>w. inst w \<and> snd (sa_status api w) = None \<longrightarrow> (fst (sa_status api w) = StatusRunning) = active w) \<and>
     (\<forall>w e. inst w \<and> snd (sa_status api w) = Some e \<longrightarrow> \<not> contains (error_text e) not_installed) \<and>
     (\<forall>w w'. sa_call api SvcStop w = (None, w') \<longrightarrow> \<not> active w' \<and> inst w' = inst w) \<and>
     (\<forall>w w'. sa_call api SvcStart w = (None, w') \<longrightarrow> inst w \<and> inst w' \<and> active w') \<and>
     (\<forall>w w'. sa_call api SvcInstall w = (None, w') \<longrightarrow> inst w' \<and> active w' = active w \<and> \<not> inst w) \<and>
     (\<forall>w. inst w \<longrightarrow> (\<exists>e. fst (sa_call api SvcInstall w) = Some e \<and> contains (error_text e) init_exists)) \<and>
     (\<forall>w w' e. sa_call api SvcInstall w = (Some e, w') \<and> contains (error_text e) init_exists \<longrightarrow> inst w) \<and>
     (\<forall>w w'. sa_call api SvcUninstall w = (None, w') \<longrightarrow> \<not> inst w' \<and> active w' = active w)"

lemma run_svc:
  "run_state (svc api c) s =
     (fst (sa_call api c (co_world s)), (set_world (snd (sa_call api c (co_world s))) s)\<lparr>co_calls := co_calls s @ [c]\<rparr>)"
  by (simp add: svc_def split_beta)

lemma run_print [simp]: "run_state (print_out x) s = ((), s\<lparr>co_out := co_out s @ [x]\<rparr>)"
  by (simp add: print_out_def)

text \<open>The calls made by the second half of \<open>Enable\<close>, when it succeeds.\<close>

lemma enable_install_nil:
  assumes laws: "service_laws api inst active" and "run_state (enable_install api stopped) s = (None, s')"
  shows "inst (co_world s') \<and> active (co_world s') \<and>
    co_calls s' = co_calls s @
      (if inst (co_world s) then [SvcInstall, SvcUninstall, SvcInstall] else [SvcInstall]) @ [SvcStart]"
proof -
  have start: "sa_call api SvcStart w = (None, w') \<Longrightarrow> inst w' \<and> active w'" for w w'
    using laws unfolding service_laws_def by blast
  obtain e w1 where i: "sa_call api SvcInstall (co_world s) = (e, w1)" by (cases "sa_call api SvcInstall (co_world s)")
  show ?thesis
  proof (cases e)
    case None
    then have "\<not> inst (co_world s)" using laws i unfolding service_laws_def by blast
    then show ?thesis
      using assms(2) i None start [of w1]
      by (auto simp: enable_install_def enable_start_def run_svc split_beta prod_eq_iff)
  next
    case (Some x)
    show ?thesis
    proof (cases "contains (error_text x) init_exists")
      case True
      then have "inst (co_world s)" using laws i Some unfolding service_laws_def by blast
      then show ?thesis
        using assms(2) i Some True start
        by (auto simp: enable_install_def enable_start_def run_svc split_beta prod_eq_iff)
    next
      case False
      then show ?thesis using assms(2) i Some by (simp add: enable_install_def run_svc)
    qed
  qed
qed

text \<open>
  If \<open>Enable\<close> returns nil, the service is installed and active, and the calls it made are: stop if it was
  running, install, and again after removing the one that was there, and start last.
\<close>

lemma Enable_installs:
  assumes "service_laws api inst active" and "run_state (Enable pl api) s = (None, s')"
  shows "inst (co_world s') \<and> active (co_world s') \<and>
    co_calls s' = co_calls s @
      (if inst (co_world s) \<and> active (co_world s) then [SvcStop] else []) @
      (if inst (co_world s) then [SvcInstall, SvcUninstall, SvcInstall] else [SvcInstall]) @ [SvcStart]"
proof -
  note laws = assms(1)[unfolded service_laws_def]
  obtain m s1 where m: "run_state (make_log_dir pl api) s = (m, s1)" by (cases "run_state (make_log_dir pl api) s")
  then have s1: "inst (co_world s1) = inst (co_world s)" "active (co_world s1) = active (co_world s)" "co_calls s1 = co_calls s"
    using laws by (auto simp: make_log_dir_def split_beta split: if_splits)
  obtain status err where st: "sa_status api (co_world s1) = (status, err)" by (cases "sa_status api (co_world s1)")
  have "m = None" using assms(2) m by (cases m) (simp_all add: Enable_def)
  then have run: "run_state (if (case err of None \<Rightarrow> False | Some e \<Rightarrow> \<not> contains (error_text e) not_installed)
      then State_Monad.return (map_option Traced err)
      else if status = StatusRunning
      then do {
        stop \<leftarrow> svc api SvcStop;
        case stop of Some e \<Rightarrow> State_Monad.return (Some (Traced e)) | None \<Rightarrow> enable_install api True
      }
      else enable_install api False) s1 = (None, s')"
    using assms(2) m st by (simp add: Enable_def)
  have known: "\<not> (case err of None \<Rightarrow> False | Some e \<Rightarrow> \<not> contains (error_text e) not_installed)"
    using run by (auto split: option.splits if_splits)
  have up: "status = StatusRunning \<longleftrightarrow> inst (co_world s) \<and> active (co_world s)"
  proof (cases "inst (co_world s1)")
    case True
    then have "err = None" using known laws st by (cases err) (auto, metis snd_conv)
    then show ?thesis using True laws st s1 by (metis fst_conv snd_conv)
  next
    case False
    then show ?thesis using laws st s1 by (metis fst_conv)
  qed
  show ?thesis
  proof (cases "status = StatusRunning")
    case True
    obtain e w where stop: "sa_call api SvcStop (co_world s1) = (e, w)" by (cases "sa_call api SvcStop (co_world s1)")
    have "e = None" using run known True stop by (cases e) (simp_all add: run_svc)
    then have "inst w = inst (co_world s1)" using laws stop by blast
    moreover have "run_state (enable_install api True) ((set_world w s1)\<lparr>co_calls := co_calls s1 @ [SvcStop]\<rparr>) = (None, s')"
      using run known True stop \<open>e = None\<close> by (simp add: run_svc)
    ultimately show ?thesis
      using enable_install_nil [OF assms(1), of True "(set_world w s1)\<lparr>co_calls := co_calls s1 @ [SvcStop]\<rparr>" s'] s1 True up
      by simp
  next
    case False
    then have r: "run_state (enable_install api False) s1 = (None, s')" using run known by simp
    have "\<not> (inst (co_world s) \<and> active (co_world s))" using False up by simp
    then show ?thesis using enable_install_nil [OF assms(1) r] s1 by simp
  qed
qed

text \<open>A manager with one flag for each.\<close>

definition flag_api :: "(bool \<times> bool) service_api" where
  "flag_api =
     \<lparr>sa_executable = Inr ''/usr/bin/git-auto-sync'', sa_mkdir = \<lambda>w. (None, w), sa_new = \<lambda>_. None,
      sa_status = \<lambda>(i, r). if i then (if r then StatusRunning else StatusStopped, None)
        else (StatusUnknown, Some (Plain not_installed)),
      sa_call = \<lambda>c (i, r). (case c of
          SvcStart \<Rightarrow> if i then (None, (i, True)) else (Some (Plain ''failed''), (i, r))
        | SvcStop \<Rightarrow> if i \<and> r then (None, (i, False)) else (Some (Plain ''failed''), (i, r))
        | SvcInstall \<Rightarrow> if i then (Some (Plain init_exists), (i, r)) else (None, (True, r))
        | SvcUninstall \<Rightarrow> (None, (False, r)))\<rparr>"

lemma flag_api_laws: "service_laws flag_api fst snd"
  unfolding service_laws_def flag_api_def not_installed_def init_exists_def
  by (auto split: if_splits simp: contains_iff)

definition demo_places :: places where
  "demo_places = \<lparr>pl_goos = ''linux'', pl_home = ''/h'', pl_cache = None, pl_xdg = [], pl_socket = []\<rparr>"

definition flag_sys :: "'w \<Rightarrow> 'w sys" where
  "flag_sys w = \<lparr>sy_world = w, sy_store = NewRepoStateStore, sy_events = [], sy_trace = [], sy_facts = [],
     sy_warned = [], sy_alerts = []\<rparr>"

definition flag_console :: "'w \<Rightarrow> 'w console" where
  "flag_console w = \<lparr>co_sys = flag_sys w, co_fs = (\<lambda>_. None), co_out = [], co_calls = []\<rparr>"

lemma Enable_flag_api:
  "co_world (snd (run_state (Enable demo_places flag_api) (flag_console (True, True)))) = (True, True) \<and>
   co_calls (snd (run_state (Enable demo_places flag_api) (flag_console (True, True)))) =
     [SvcStop, SvcInstall, SvcUninstall, SvcInstall, SvcStart]"
proof -
  let ?r = "run_state (Enable demo_places flag_api) (flag_console (True, True))"
  have "fst ?r = None" by code_simp
  then have "?r = (None, snd ?r)" by (simp add: prod_eq_iff)
  from Enable_installs [OF flag_api_laws this] show ?thesis
    by (simp add: flag_console_def flag_sys_def prod_eq_iff)
qed

text \<open>After \<open>Disable\<close> has returned nil the service is neither running nor installed.\<close>

theorem Disable_removes:
  assumes "service_laws api inst active" and "run_state (Disable api) s = (None, s')"
  shows "\<not> inst (co_world s') \<and> \<not> active (co_world s') \<and> co_calls s' = co_calls s @ [SvcStop, SvcUninstall]"
proof -
  note laws = assms(1)[unfolded service_laws_def]
  obtain e w where e: "sa_call api SvcStop (co_world s) = (e, w)" by (cases "sa_call api SvcStop (co_world s)")
  obtain f v where f: "sa_call api SvcUninstall w = (f, v)" by (cases "sa_call api SvcUninstall w")
  have n: "e = None" "f = None" and s': "co_world s' = v" "co_calls s' = co_calls s @ [SvcStop, SvcUninstall]"
    using assms(2) e f by (cases e; cases f; auto simp: Disable_def run_svc)+
  have "\<not> active w" using laws e n by blast
  then show ?thesis using laws f n s' by blast
qed

end
