(* ===== verification/Socket.thy ===== *)
theory Socket
  imports RepoState Errors GoPath
begin

text \<open>
  \<open>common/protocol.go\<close>, \<open>common/socket.go\<close> and \<open>common/socket_client.go\<close>: the daemon's socket.

  A connection has a queue of bounded length between the goroutines that send and the one that
  writes. The server is a state machine: accepting, reading a line, writing a queued message,
  emitting an event, broadcasting a state and closing are its steps, in any order. Sending on a
  closed channel panics in Go: \<open>sv_panic\<close> records it. \<open>sc_frames\<close>, \<open>sc_sent\<close> and \<open>sv_emitted\<close>, which
  no code reads, record what was queued and written, and the events emitted.

  The JSON encoding, the command handler and the hello provider are parameters, the record
  \<open>server_env\<close>; so are the outcomes of the system calls.
\<close>

section \<open>The protocol\<close>

definition ProtocolVersion :: int where "ProtocolVersion = 2"

definition CmdStatus :: string where "CmdStatus = ''status''"
definition CmdList :: string where "CmdList = ''list''"
definition CmdAdd :: string where "CmdAdd = ''add''"
definition CmdRemove :: string where "CmdRemove = ''remove''"
definition CmdSyncNow :: string where "CmdSyncNow = ''sync_now''"
definition CmdSyncAll :: string where "CmdSyncAll = ''sync_all''"
definition CmdPause :: string where "CmdPause = ''pause''"
definition CmdResume :: string where "CmdResume = ''resume''"
definition CmdPauseAll :: string where "CmdPauseAll = ''pause_all''"
definition CmdResumeAll :: string where "CmdResumeAll = ''resume_all''"
definition CmdGetSettings :: string where "CmdGetSettings = ''get_settings''"
definition CmdSetSettings :: string where "CmdSetSettings = ''set_settings''"
definition CmdAbortRebase :: string where "CmdAbortRebase = ''abort_rebase''"
definition CmdEvents :: string where "CmdEvents = ''events''"
definition CmdSubscribe :: string where "CmdSubscribe = ''subscribe''"
definition CmdVersion :: string where "CmdVersion = ''version''"

definition FrameHello :: string where "FrameHello = ''hello''"
definition FrameState :: string where "FrameState = ''state''"

record socket_request =
  rq_ID :: string
  rq_Cmd :: string
  rq_Repo :: string
  rq_Settings :: "(string \<times> string) list"
  rq_Force :: bool
  rq_Since :: u64
  rq_Limit :: int

record hello =
  hl_Type :: string
  hl_Protocol :: int
  hl_Version :: string
  hl_Repos :: "repo_state list"
  hl_LastEventID :: u64

record state_frame =
  sf_Type :: string
  sf_Repo :: string
  sf_Ts :: int
  sf_Data :: repo_state

record status_result =
  sr_Protocol :: int
  sr_Version :: string
  sr_Daemon :: string
  sr_Repos :: "repo_state list"
  sr_LastEventID :: u64

datatype setting_value = Null | Number int | Text string

text \<open>The values that the handlers put in the field \<open>Result\<close>.\<close>

datatype result =
  StatusResult status_result
| VersionResult int string
| EventsResult "event list" u64
| CommandResult string string
| SettingsResult "(string \<times> setting_value) list"

record response =
  rp_ID :: string
  rp_OK :: bool
  rp_Result :: "result option"
  rp_Error :: string
  rp_Code :: string

definition OKResponse :: "result \<Rightarrow> response" where
  "OKResponse r = \<lparr>rp_ID = [], rp_OK = True, rp_Result = Some r, rp_Error = [], rp_Code = []\<rparr>"

definition ErrResponse :: "string \<Rightarrow> string \<Rightarrow> response" where
  "ErrResponse code msg = \<lparr>rp_ID = [], rp_OK = False, rp_Result = None, rp_Error = msg, rp_Code = code\<rparr>"

section \<open>Reading a line\<close>

text \<open>
  \<open>bufio.Reader.ReadSlice\<close> on the bytes \<open>s\<close> still to come, with a buffer of \<open>n\<close> bytes: up to the
  newline, or a full buffer without one, or the rest, which ends in \<open>io.EOF\<close> if \<open>eof\<close> and in
  another error of the connection otherwise.
\<close>

datatype slice_end = SliceOk | BufferFull | SliceEOF | SliceError

definition ReadSlice :: "nat \<Rightarrow> bool \<Rightarrow> string \<Rightarrow> string \<times> slice_end \<times> string" where
  "ReadSlice n eof s =
     (let k = length (takeWhile (\<lambda>c. c \<noteq> CHR 0x0A) s) in
      if k < length s \<and> k < n then (take (Suc k) s, SliceOk, drop (Suc k) s)
      else if n \<le> length s then (take n s, BufferFull, drop n s)
      else (s, if eof then SliceEOF else SliceError, []))"

datatype read_line = Line string | TooLarge | ReadError

function read_line_loop ::
  "nat \<Rightarrow> bool \<Rightarrow> nat \<Rightarrow> string \<Rightarrow> bool \<Rightarrow> string \<Rightarrow> read_line \<times> string" where
  "read_line_loop n eof limit line tooLong s =
     (case ReadSlice n eof s of
        (chunk, err, rest) \<Rightarrow>
          let content = length line + length chunk - (if err = SliceOk then 1 else 0);
              tooLong' = (tooLong \<or> limit < content);
              line' = (if tooLong then line else if limit < content then [] else line @ chunk)
          in if err = BufferFull \<and> 0 < n then read_line_loop n eof limit line' tooLong' rest
             else if err \<noteq> SliceOk \<and> (err \<noteq> SliceEOF \<or> (line' = [] \<and> \<not> tooLong')) then (ReadError, rest)
             else if tooLong' then (TooLarge, rest)
             else (Line (trim_suffix (trim_suffix line' [CHR 0x0A]) [CHR 0x0D]), rest))"
  by pat_completeness auto
termination
  by (relation "measure (\<lambda>(_, _, _, _, _, s). length s)") (auto simp: ReadSlice_def Let_def split: if_splits)

declare read_line_loop.simps [simp del]

definition ReadLine :: "nat \<Rightarrow> bool \<Rightarrow> nat \<Rightarrow> string \<Rightarrow> read_line \<times> string" where
  "ReadLine n eof limit s = read_line_loop n eof limit [] False s"

section \<open>Connections\<close>

definition ClientQueueSize :: nat where "ClientQueueSize = 256"

datatype frame = FResponse response | is_FHello: FHello hello | FEvent event | FState state_frame

record socket_conn =
  sc_queue :: "string list"
  sc_closed :: bool \<comment> \<open>the channel \<open>done\<close> is closed\<close>
  sc_finished :: bool \<comment> \<open>the channel \<open>queue\<close> is closed\<close>
  sc_frames :: "frame list"
  sc_sent :: "string list"

definition newSocketConn :: socket_conn where
  "newSocketConn = \<lparr>sc_queue = [], sc_closed = False, sc_finished = False, sc_frames = [], sc_sent = []\<rparr>"

definition close_conn :: "socket_conn \<Rightarrow> socket_conn" where
  "close_conn c = c\<lparr>sc_closed := True\<rparr>"

definition send_conn :: "socket_conn \<Rightarrow> frame \<Rightarrow> string \<Rightarrow> bool \<times> socket_conn" where
  "send_conn c fr data =
     (if sc_closed c then (False, c)
      else if length (sc_queue c) < ClientQueueSize
      then (True, c\<lparr>sc_queue := sc_queue c @ [data], sc_frames := sc_frames c @ [fr]\<rparr>)
      else (False, close_conn c))"

definition finish_conn :: "socket_conn \<Rightarrow> socket_conn" where
  "finish_conn c = c\<lparr>sc_finished := True\<rparr>"

text \<open>One round of \<open>writeLoop\<close>; \<open>ok\<close> says whether the write succeeds.\<close>

definition write_step :: "bool \<Rightarrow> socket_conn \<Rightarrow> socket_conn" where
  "write_step ok c =
     (if sc_closed c then c
      else (case sc_queue c of
              [] \<Rightarrow> if sc_finished c then close_conn c else c
            | data # rest \<Rightarrow>
                if ok then c\<lparr>sc_queue := rest, sc_sent := sc_sent c @ [data]\<rparr>
                else close_conn (c\<lparr>sc_queue := rest\<rparr>)))"

section \<open>The server\<close>

record 'd server_env =
  se_response :: "response \<Rightarrow> string option" \<comment> \<open>\<open>json.Marshal\<close>, \<open>None\<close> for an error\<close>
  se_hello_frame :: "hello \<Rightarrow> string option"
  se_event :: "event \<Rightarrow> string option"
  se_state :: "state_frame \<Rightarrow> string option"
  se_request :: "string \<Rightarrow> socket_request \<times> string option" \<comment> \<open>\<open>json.Unmarshal\<close>, with the text of its error\<close>
  se_handler :: "('d \<Rightarrow> socket_request \<Rightarrow> (string + response) \<times> 'd) option" \<comment> \<open>\<open>Inl\<close>: the handler panicked\<close>
  se_hello :: "('d \<Rightarrow> hello) option"
  se_line :: "event \<Rightarrow> string" \<comment> \<open>the line of an event in the log file\<close>

record 'd server =
  sv_daemon :: 'd
  sv_log :: event_log
  sv_disk :: "string list"
  sv_table :: "(nat \<times> socket_conn) list"
  sv_conns :: "nat list"
  sv_subs :: "nat list"
  sv_done :: bool
  sv_panic :: bool
  sv_emitted :: "event list"

definition MaxSocketPathLen :: nat where "MaxSocketPathLen = 103"

definition CheckSocketPath :: "string \<Rightarrow> string option" where
  "CheckSocketPath p =
     (if MaxSocketPathLen < length p
      then Some (''socket path is '' @ itoa (int (length p)) @ '' bytes, the limit is '' @
             itoa (int MaxSocketPathLen) @ '': '' @ p)
      else None)"

text \<open>What the system answers while the server is made: \<open>ls_stat\<close> is \<open>None\<close> if nothing is at the
  path, and otherwise whether it is a socket.\<close>

record listen_env =
  ls_mkdir :: bool
  ls_dial :: bool
  ls_stat :: "bool option"
  ls_remove :: bool
  ls_listen :: bool
  ls_chmod :: bool

datatype listen_error = BadPath string | CallFailed | SocketInUse | NotASocket

definition NewSocketServer ::
  "listen_env \<Rightarrow> string \<Rightarrow> 'd \<Rightarrow> listen_error + 'd server" where
  "NewSocketServer le socketPath d =
     (case CheckSocketPath socketPath of
        Some e \<Rightarrow> Inl (BadPath e)
      | None \<Rightarrow>
          if \<not> ls_mkdir le then Inl CallFailed
          else if ls_dial le then Inl SocketInUse
          else if ls_stat le = Some False then Inl NotASocket
          else if ls_stat le = Some True \<and> \<not> ls_remove le then Inl CallFailed
          else if \<not> ls_listen le then Inl CallFailed
          else if \<not> ls_chmod le then Inl CallFailed
          else Inr \<lparr>sv_daemon = d, sv_log = NewMemoryEventLog (int EventLogCapacity), sv_disk = [], sv_table = [],
                 sv_conns = [], sv_subs = [], sv_done = False, sv_panic = False, sv_emitted = []\<rparr>)"

definition SetEventLog :: "(event_log \<times> string list) option \<Rightarrow> 'd server \<Rightarrow> 'd server" where
  "SetEventLog log sv =
     (case log of None \<Rightarrow> sv | Some (l, disk) \<Rightarrow> sv\<lparr>sv_log := l, sv_disk := disk\<rparr>)"

definition conn_of :: "'d server \<Rightarrow> nat \<Rightarrow> socket_conn option" where
  "conn_of sv i = map_of (sv_table sv) i"

definition set_conn :: "nat \<Rightarrow> socket_conn \<Rightarrow> 'd server \<Rightarrow> 'd server" where
  "set_conn i c sv = sv\<lparr>sv_table := AList.update i c (sv_table sv)\<rparr>"

definition send_to :: "nat \<Rightarrow> frame \<Rightarrow> string \<Rightarrow> 'd server \<Rightarrow> bool \<times> 'd server" where
  "send_to i fr data sv =
     (case conn_of sv i of
        None \<Rightarrow> (False, sv)
      | Some c \<Rightarrow>
          (case send_conn c fr data of
             (ok, c') \<Rightarrow>
               (ok, (set_conn i c' sv)\<lparr>sv_panic := sv_panic sv \<or> (\<not> sc_closed c \<and> sc_finished c)\<rparr>)))"

definition sendJSON :: "nat \<Rightarrow> frame \<Rightarrow> string option \<Rightarrow> 'd server \<Rightarrow> bool \<times> 'd server" where
  "sendJSON i fr data sv =
     (case data of None \<Rightarrow> (True, sv) | Some x \<Rightarrow> send_to i fr (x @ [CHR 0x0A]) sv)"

fun push_to :: "nat list \<Rightarrow> frame \<Rightarrow> string \<Rightarrow> 'd server \<Rightarrow> 'd server" where
  "push_to [] fr data sv = sv"
| "push_to (i # is) fr data sv =
     (case send_to i fr data sv of
        (ok, sv') \<Rightarrow> push_to is fr data (if ok then sv' else sv'\<lparr>sv_subs := removeAll i (sv_subs sv')\<rparr>))"

definition pushLocked :: "frame \<Rightarrow> string \<Rightarrow> 'd server \<Rightarrow> 'd server" where
  "pushLocked fr data sv = push_to (sv_subs sv) fr data sv"

definition Emit :: "'d server_env \<Rightarrow> append_io \<Rightarrow> event \<Rightarrow> 'd server \<Rightarrow> 'd server" where
  "Emit se io ev0 sv =
     (case Append io (se_line se) (sv_log sv, sv_disk sv) ev0 of
        (ev, l, d) \<Rightarrow>
          let sv1 = sv\<lparr>sv_log := l, sv_disk := d, sv_emitted := sv_emitted sv @ [ev]\<rparr>
          in (case se_event se ev of
                None \<Rightarrow> sv1
              | Some data \<Rightarrow> pushLocked (FEvent ev) (data @ [CHR 0x0A]) sv1))"

definition BroadcastState :: "'d server_env \<Rightarrow> int \<Rightarrow> repo_state \<Rightarrow> 'd server \<Rightarrow> 'd server" where
  "BroadcastState se now rs sv =
     (let f = \<lparr>sf_Type = FrameState, sf_Repo = st_Path rs, sf_Ts = now, sf_Data = rs\<rparr>
      in (case se_state se f of
            None \<Rightarrow> sv
          | Some data \<Rightarrow> pushLocked (FState f) (data @ [CHR 0x0A]) sv))"

definition HasClients :: "'d server \<Rightarrow> bool" where
  "HasClients sv \<longleftrightarrow> sv_subs sv \<noteq> []"

definition dispatch :: "'d server_env \<Rightarrow> socket_request \<Rightarrow> 'd \<Rightarrow> response \<times> 'd" where
  "dispatch se req d =
     (if rq_Cmd req = [] then (ErrResponse CodeBadRequest ''missing cmd'', d)
      else (case se_handler se of
              None \<Rightarrow> (ErrResponse CodeUnknownCmd (''unknown command: '' @ rq_Cmd req), d)
            | Some h \<Rightarrow>
                (case h d req of
                   (Inl p, d') \<Rightarrow> (ErrResponse CodeUnknown (''internal error: '' @ p), d')
                 | (Inr resp, d') \<Rightarrow> (resp, d'))))"

text \<open>The hello that \<open>subscribe\<close> makes under the lock, and its answer to the request.\<close>

definition server_hello :: "'d server_env \<Rightarrow> 'd server \<Rightarrow> hello" where
  "server_hello se sv =
     (case se_hello se of
        None \<Rightarrow> \<lparr>hl_Type = [], hl_Protocol = 0, hl_Version = [], hl_Repos = [], hl_LastEventID = 0\<rparr>
      | Some f \<Rightarrow> f (sv_daemon sv))
     \<lparr>hl_Type := FrameHello, hl_Protocol := ProtocolVersion, hl_LastEventID := LastID (sv_log sv)\<rparr>"

definition subscribed :: "socket_request \<Rightarrow> hello \<Rightarrow> response" where
  "subscribed req h = (OKResponse (VersionResult ProtocolVersion (hl_Version h)))\<lparr>rp_ID := rq_ID req\<rparr>"

definition subscribe :: "'d server_env \<Rightarrow> nat \<Rightarrow> socket_request \<Rightarrow> 'd server \<Rightarrow> bool \<times> 'd server" where
  "subscribe se i req sv =
     (let h = server_hello se sv; resp = subscribed req h
      in (case sendJSON i (FResponse resp) (se_response se resp) sv of
            (False, sv1) \<Rightarrow> (False, sv1)
          | (True, sv1) \<Rightarrow>
              (case sendJSON i (FHello h) (se_hello_frame se h) sv1 of
                 (False, sv2) \<Rightarrow> (False, sv2)
               | (True, sv2) \<Rightarrow> (True, sv2\<lparr>sv_subs := List.insert i (sv_subs sv2)\<rparr>))))"

definition leave :: "nat \<Rightarrow> 'd server \<Rightarrow> 'd server" where
  "leave i sv =
     (let sv1 = sv\<lparr>sv_conns := removeAll i (sv_conns sv), sv_subs := removeAll i (sv_subs sv)\<rparr>
      in (case conn_of sv1 i of None \<Rightarrow> sv1 | Some c \<Rightarrow> set_conn i (finish_conn c) sv1))"

text \<open>One round of the loop of \<open>handleClient\<close> on what \<open>ReadLine\<close> gave; the result says whether it goes on.\<close>

definition handle_read :: "'d server_env \<Rightarrow> nat \<Rightarrow> read_line \<Rightarrow> 'd server \<Rightarrow> bool \<times> 'd server" where
  "handle_read se i r sv =
     (case r of
        ReadError \<Rightarrow> (False, sv)
      | TooLarge \<Rightarrow>
          let resp = ErrResponse CodeBadRequest
                (''request too large (limit '' @ itoa (int MaxRequestSize) @ '' bytes)'')
          in sendJSON i (FResponse resp) (se_response se resp) sv
      | Line line \<Rightarrow>
          if trim_space line = [] then (True, sv)
          else
            (case se_request se line of
               (req, Some e) \<Rightarrow>
                 let resp = (ErrResponse CodeBadRequest (''invalid request: '' @ e))\<lparr>rp_ID := rq_ID req\<rparr>
                 in sendJSON i (FResponse resp) (se_response se resp) sv
             | (req, None) \<Rightarrow>
                 if rq_Cmd req = CmdSubscribe then subscribe se i req sv
                 else
                   (case dispatch se req (sv_daemon sv) of
                      (resp0, d) \<Rightarrow>
                        let resp = resp0\<lparr>rp_ID := rq_ID req\<rparr>
                        in sendJSON i (FResponse resp) (se_response se resp) (sv\<lparr>sv_daemon := d\<rparr>))))"

definition handle_client :: "'d server_env \<Rightarrow> nat \<Rightarrow> read_line \<Rightarrow> 'd server \<Rightarrow> 'd server" where
  "handle_client se i r sv =
     (case handle_read se i r sv of (go_on, sv') \<Rightarrow> if go_on then sv' else leave i sv')"

definition accept :: "nat \<Rightarrow> 'd server \<Rightarrow> 'd server" where
  "accept i sv =
     (if sv_done sv then sv
      else (set_conn i newSocketConn sv)\<lparr>sv_conns := i # sv_conns sv\<rparr>)"

definition Close_server :: "'d server \<Rightarrow> 'd server" where
  "Close_server sv =
     (if sv_done sv then sv
      else sv\<lparr>sv_done := True, sv_conns := [], sv_subs := [], sv_log := Close_log (sv_log sv),
        sv_table := map (\<lambda>(i, c). (i, if i \<in> set (sv_conns sv) then close_conn c else c)) (sv_table sv)\<rparr>)"

inductive server_step :: "'d server_env \<Rightarrow> 'd server \<Rightarrow> 'd server \<Rightarrow> bool" for se where
  step_accept: "conn_of sv i = None \<Longrightarrow> server_step se sv (accept i sv)"
| step_read: "conn_of sv i = Some c \<Longrightarrow> \<not> sc_finished c \<Longrightarrow> server_step se sv (handle_client se i r sv)"
| step_write: "conn_of sv i = Some c \<Longrightarrow> server_step se sv (set_conn i (write_step ok c) sv)"
| step_emit: "server_step se sv (Emit se io ev sv)"
| step_state: "server_step se sv (BroadcastState se now rs sv)"
| step_close: "server_step se sv (Close_server sv)"
| step_daemon: "server_step se sv (sv\<lparr>sv_daemon := d\<rparr>)"

inductive server_reachable :: "'d server_env \<Rightarrow> 'd server \<Rightarrow> 'd server \<Rightarrow> bool" for se sv0 where
  server_begin: "server_reachable se sv0 sv0"
| server_more: "server_reachable se sv0 sv \<Longrightarrow> server_step se sv sv' \<Longrightarrow> server_reachable se sv0 sv'"

inductive_cases server_stepE: "server_step se sv sv'"

section \<open>Reading a line, without a buffer\<close>

abbreviation upto_newline :: "string \<Rightarrow> string" where
  "upto_newline s \<equiv> takeWhile (\<lambda>c. c \<noteq> CHR 0x0A) s"

definition line_result :: "bool \<Rightarrow> nat \<Rightarrow> string \<Rightarrow> bool \<Rightarrow> string \<Rightarrow> read_line \<times> string" where
  "line_result eof limit line tooLong s =
     (if CHR 0x0A \<notin> set s \<and> (\<not> eof \<or> s = [] \<and> line = [] \<and> \<not> tooLong) then (ReadError, [])
      else (if tooLong \<or> limit < length (line @ upto_newline s) then TooLarge
            else Line (trim_suffix (line @ upto_newline s) [CHR 0x0D]),
            drop (Suc (length (upto_newline s))) s))"

lemma trim_suffix_snoc: "trim_suffix (xs @ [c]) [c] = xs"
  by (simp add: trim_suffix_def)

lemma trim_suffix_none: "c \<notin> set xs \<Longrightarrow> trim_suffix xs [c] = xs"
  by (auto simp: trim_suffix_def suffix_def)

lemma take_upto:
  assumes "length (upto_newline s) < length s"
  shows "take (Suc (length (upto_newline s))) s = upto_newline s @ [CHR 0x0A]"
proof -
  have "s ! length (upto_newline s) = CHR 0x0A" using nth_length_takeWhile [OF assms] by simp
  moreover have "take (length (upto_newline s)) s = upto_newline s" by (rule takeWhile_eq_take [symmetric])
  ultimately show ?thesis using take_Suc_conv_app_nth [OF assms] by simp
qed

lemma upto_all: "length (upto_newline s) = length s \<Longrightarrow> upto_newline s = s"
proof -
  assume "length (upto_newline s) = length s"
  moreover have "length (upto_newline s) + length (dropWhile (\<lambda>c. c \<noteq> CHR 0x0A) s) = length s"
    by (metis length_append takeWhile_dropWhile_id)
  ultimately have "dropWhile (\<lambda>c. c \<noteq> CHR 0x0A) s = []" by simp
  then show ?thesis by (metis append_Nil2 takeWhile_dropWhile_id)
qed

lemma upto_take:
  assumes "n \<le> length (upto_newline s)"
  shows "upto_newline s = take n s @ upto_newline (drop n s)"
proof -
  have "take n s = take n (upto_newline s)"
    using assms by (metis min.absorb1 take_take takeWhile_eq_take)
  then have "\<forall>c \<in> set (take n s). c \<noteq> CHR 0x0A" by (metis set_takeWhileD in_set_takeD)
  then show ?thesis
    using takeWhile_append2 [of "take n s" "\<lambda>c. c \<noteq> CHR 0x0A" "drop n s"] by simp
qed

lemma newline_in: "CHR 0x0A \<in> set s \<longleftrightarrow> length (upto_newline s) < length s"
proof -
  have "length (upto_newline s) < length s \<longleftrightarrow> upto_newline s \<noteq> s"
    using length_takeWhile_le [of _ s] upto_all [of s] by (metis le_neq_implies_less less_irrefl)
  then show ?thesis by (auto simp: takeWhile_eq_all_conv)
qed

lemma read_line_loop_spec:
  "0 < n \<Longrightarrow> CHR 0x0A \<notin> set line \<Longrightarrow> read_line_loop n eof limit line tooLong s = line_result eof limit line tooLong s"
proof (induction n eof limit line tooLong s rule: read_line_loop.induct)
  case (1 n eof limit line tooLong s)
  let ?l = "upto_newline s"
  let ?k = "length ?l"
  have kl: "?k \<le> length s" by (rule length_takeWhile_le)
  show ?case
  proof (cases "?k < length s \<and> ?k < n")
    case True
    then have sl: "ReadSlice n eof s = (?l @ [CHR 0x0A], SliceOk, drop (Suc ?k) s)"
      using take_upto by (simp add: ReadSlice_def Let_def)
    have "CHR 0x0A \<in> set s" using newline_in [of s] True by simp
    then show ?thesis
      by (subst read_line_loop.simps)
        (simp add: sl line_result_def trim_suffix_snoc [of "line @ ?l", simplified])
  next
    case no: False
    show ?thesis
    proof (cases "n \<le> length s")
      case True
      then have nk: "n \<le> ?k" using no kl by linarith
      have sl: "ReadSlice n eof s = (take n s, BufferFull, drop n s)" using no True by (simp add: ReadSlice_def Let_def)
      define tl' where "tl' = (tooLong \<or> limit < length line + n)"
      define line' where "line' = (if tooLong then line else if limit < length line + n then [] else line @ take n s)"
      have ut: "?l = take n s @ upto_newline (drop n s)" using upto_take [OF nk] .
      have nl: "CHR 0x0A \<notin> set (take n s)"
      proof -
        have "set (take n s) \<subseteq> set ?l" by (subst ut) simp
        then show ?thesis using set_takeWhileD by fastforce
      qed
      have ns: "CHR 0x0A \<in> set s \<longleftrightarrow> CHR 0x0A \<in> set (drop n s)"
        using nl by (metis Un_iff append_take_drop_id set_append)
      have "read_line_loop n eof limit line tooLong s = read_line_loop n eof limit line' tl' (drop n s)"
        by (subst read_line_loop.simps) (use "1.prems" True in \<open>simp add: sl line'_def tl'_def\<close>)
      also have "\<dots> = line_result eof limit line' tl' (drop n s)"
        by (rule "1.IH" [of "take n s" "(BufferFull, drop n s)" BufferFull "drop n s" "length line + n"])
          (use sl "1.prems" True nl in \<open>simp_all add: line'_def tl'_def\<close>)
      also have "\<dots> = line_result eof limit line tooLong s"
        using ut ns "1.prems" True by (auto simp: line_result_def line'_def tl'_def add.commute)
      finally show ?thesis .
    next
      case False
      then have sl: "ReadSlice n eof s = (s, if eof then SliceEOF else SliceError, [])" and k: "?l = s"
        using no kl upto_all by (auto simp: ReadSlice_def Let_def)
      have nl: "CHR 0x0A \<notin> set (line @ s)" using "1.prems" k by (metis Un_iff set_append set_takeWhileD)
      have r: "line_result eof limit line tooLong s =
          (if \<not> eof \<or> s = [] \<and> line = [] \<and> \<not> tooLong then (ReadError, [])
           else (if tooLong \<or> limit < length (line @ s) then TooLarge else Line (trim_suffix (line @ s) [CHR 0x0D]), []))"
        using nl unfolding line_result_def k by simp
      show ?thesis
        unfolding r by (subst read_line_loop.simps) (simp add: sl trim_suffix_none [OF nl] del: set_append)
    qed
  qed
qed

section \<open>What a subscriber receives\<close>

definition frame_bytes :: "'d server_env \<Rightarrow> frame \<Rightarrow> string" where
  "frame_bytes se fr =
     (case (case fr of FResponse r \<Rightarrow> se_response se r | FHello h \<Rightarrow> se_hello_frame se h
              | FEvent e \<Rightarrow> se_event se e | FState f \<Rightarrow> se_state se f) of
        None \<Rightarrow> [] | Some x \<Rightarrow> x @ [CHR 0x0A])"

fun frame_event :: "frame \<Rightarrow> event list" where
  "frame_event (FEvent e) = [e]"
| "frame_event _ = []"

definition events_of :: "frame list \<Rightarrow> event list" where
  "events_of fs = concat (map frame_event fs)"

text \<open>
  The frames of a subscriber: after its last hello it got exactly the events emitted since then, in
  order. \<open>base\<close> is the last identifier before the first event.
\<close>

definition stream_ok :: "u64 \<Rightarrow> event list \<Rightarrow> frame list \<Rightarrow> bool" where
  "stream_ok base es fs \<longleftrightarrow>
     (\<exists>before h after n. fs = before @ FHello h # after \<and> (\<forall>f \<in> set after. \<not> is_FHello f) \<and>
        hl_LastEventID h = base + of_nat n \<and> n \<le> length es \<and> events_of after = drop n es)"

definition ids_from :: "u64 \<Rightarrow> event list \<Rightarrow> bool" where
  "ids_from base es \<longleftrightarrow> (\<forall>k < length es. ev_ID (es ! k) = base + of_nat (Suc k))"

definition server_inv :: "'d server_env \<Rightarrow> u64 \<Rightarrow> 'd server \<Rightarrow> bool" where
  "server_inv se base sv \<longleftrightarrow>
     \<not> sv_panic sv \<and> distinct (sv_subs sv) \<and>
     (\<forall>i \<in> set (sv_subs sv). \<exists>c. conn_of sv i = Some c \<and> \<not> sc_finished c \<and>
        (sc_closed c \<or> stream_ok base (sv_emitted sv) (sc_frames c))) \<and>
     (\<forall>i c. conn_of sv i = Some c \<longrightarrow> length (sc_queue c) \<le> ClientQueueSize \<and>
        (sc_closed c \<or> sc_sent c @ sc_queue c = map (frame_bytes se) (sc_frames c))) \<and>
     LastID (sv_log sv) = base + of_nat (length (sv_emitted sv)) \<and> ids_from base (sv_emitted sv)"

lemma events_of_simps [simp]: "events_of [] = []" "events_of (fs @ gs) = events_of fs @ events_of gs"
  "events_of (f # fs) = frame_event f @ events_of fs"
  by (simp_all add: events_of_def)

lemma stream_ok_append:
  assumes "stream_ok base es fs" and "\<not> is_FHello fr" and "frame_event fr = ds"
  shows "stream_ok base (es @ ds) (fs @ [fr])"
proof -
  obtain a h b n where s: "fs = a @ FHello h # b" "\<forall>f \<in> set b. \<not> is_FHello f"
    "hl_LastEventID h = base + of_nat n" "n \<le> length es" "events_of b = drop n es"
    using assms(1) unfolding stream_ok_def by blast
  then show ?thesis
    using assms(2,3) unfolding stream_ok_def
    by (intro exI [of _ a] exI [of _ h] exI [of _ "b @ [fr]"] exI [of _ n]) simp
qed

lemma stream_ok_hello:
  assumes "hl_LastEventID h = base + of_nat (length es)"
  shows "stream_ok base es (fs @ [FHello h])"
  unfolding stream_ok_def
  by (rule exI [of _ fs], rule exI [of _ h], rule exI [of _ "[]"], rule exI [of _ "length es"]) (simp add: assms)

lemma conn_of_set [simp]: "conn_of (set_conn i c sv) j = (if j = i then Some c else conn_of sv j)"
  by (simp add: conn_of_def set_conn_def)

lemma conn_of_fields [simp]:
  "conn_of (sv\<lparr>sv_panic := b\<rparr>) j = conn_of sv j" "conn_of (sv\<lparr>sv_subs := is\<rparr>) j = conn_of sv j"
  "conn_of (sv\<lparr>sv_conns := ks\<rparr>) j = conn_of sv j" "conn_of (sv\<lparr>sv_daemon := d\<rparr>) j = conn_of sv j"
  "conn_of (sv\<lparr>sv_log := l, sv_disk := k, sv_emitted := es\<rparr>) j = conn_of sv j"
  by (simp_all add: conn_of_def)

lemma set_conn_fields [simp]:
  "sv_panic (set_conn i c sv) = sv_panic sv" "sv_subs (set_conn i c sv) = sv_subs sv"
  "sv_emitted (set_conn i c sv) = sv_emitted sv" "sv_log (set_conn i c sv) = sv_log sv"
  "sv_conns (set_conn i c sv) = sv_conns sv" "sv_done (set_conn i c sv) = sv_done sv"
  by (simp_all add: set_conn_def)

text \<open>Sending to a connection that reads keeps the invariant, if the frame fits the subscriber's stream.\<close>

lemma server_inv_send:
  assumes inv: "server_inv se base sv" and c: "conn_of sv i = Some c" "\<not> sc_finished c"
    and data: "data = frame_bytes se fr"
    and fits: "i \<in> set (sv_subs sv) \<Longrightarrow> stream_ok base (sv_emitted sv) (sc_frames c) \<Longrightarrow>
      stream_ok base (sv_emitted sv) (sc_frames c @ [fr])"
    and r: "send_to i fr data sv = (ok, sv')"
  shows "server_inv se base sv' \<and> sv_subs sv' = sv_subs sv \<and> sv_emitted sv' = sv_emitted sv \<and> sv_log sv' = sv_log sv \<and>
    (\<exists>c'. conn_of sv' i = Some c' \<and> \<not> sc_finished c' \<and>
      (ok \<longrightarrow> \<not> sc_closed c' \<and> sc_frames c' = sc_frames c @ [fr]))"
proof -
  obtain c' where sc: "send_conn c fr data = (ok, c')" "sv' = (set_conn i c' sv)\<lparr>sv_panic := sv_panic sv\<rparr>"
    using r c by (auto simp: send_to_def split: prod.splits)
  have q: "length (sc_queue c) \<le> ClientQueueSize"
    "sc_closed c \<or> sc_sent c @ sc_queue c = map (frame_bytes se) (sc_frames c)"
    using inv c(1) unfolding server_inv_def by blast+
  have new: "length (sc_queue c') \<le> ClientQueueSize" "sc_finished c' = sc_finished c"
    "sc_closed c' \<or> sc_sent c' @ sc_queue c' = map (frame_bytes se) (sc_frames c')"
    "ok \<longrightarrow> \<not> sc_closed c' \<and> sc_frames c' = sc_frames c @ [fr]" "\<not> ok \<longrightarrow> sc_closed c'"
    "\<not> sc_closed c' \<longrightarrow> \<not> sc_closed c"
    using sc(1) q data by (auto simp: send_conn_def close_conn_def split: if_splits)
  have "\<exists>d. conn_of sv' j = Some d \<and> \<not> sc_finished d \<and> (sc_closed d \<or> stream_ok base (sv_emitted sv) (sc_frames d))"
    if j: "j \<in> set (sv_subs sv)" for j
  proof (cases "j = i")
    case True
    have "sc_closed c \<or> stream_ok base (sv_emitted sv) (sc_frames c)"
      using inv j True c(1) unfolding server_inv_def by auto
    then show ?thesis using True sc(2) new c(2) fits j by auto
  next
    case False
    then show ?thesis using inv j sc(2) unfolding server_inv_def by auto
  qed
  moreover have "length (sc_queue d) \<le> ClientQueueSize \<and>
      (sc_closed d \<or> sc_sent d @ sc_queue d = map (frame_bytes se) (sc_frames d))"
    if "conn_of sv' j = Some d" for j d
    using that inv sc(2) new unfolding server_inv_def by (auto split: if_splits)
  ultimately have "server_inv se base sv'"
    using inv sc(2) unfolding server_inv_def by simp
  then show ?thesis using sc(2) new c(2) by simp
qed

lemma send_to_simps:
  assumes "send_to i fr data sv = (ok, sv')"
  shows "conn_of sv' j = (if j = i then map_option (\<lambda>c. snd (send_conn c fr data)) (conn_of sv i) else conn_of sv j)"
    and "sv_subs sv' = sv_subs sv" and "sv_emitted sv' = sv_emitted sv" and "sv_log sv' = sv_log sv"
    and "ok \<longleftrightarrow> (\<exists>c. conn_of sv i = Some c \<and> fst (send_conn c fr data))"
    and "sv_panic sv' \<longleftrightarrow> sv_panic sv \<or> (\<exists>c. conn_of sv i = Some c \<and> \<not> sc_closed c \<and> sc_finished c)"
  using assms by (auto simp: send_to_def split: option.splits prod.splits)

lemma push_to_spec:
  assumes "distinct is" and "sv' = push_to is fr data sv"
  shows "conn_of sv' j =
      (if j \<in> set is then map_option (\<lambda>c. snd (send_conn c fr data)) (conn_of sv j) else conn_of sv j)"
    and "sv_subs sv' =
      filter (\<lambda>j. j \<in> set is \<longrightarrow> (\<exists>c. conn_of sv j = Some c \<and> fst (send_conn c fr data))) (sv_subs sv)"
    and "sv_panic sv' \<longleftrightarrow>
      sv_panic sv \<or> (\<exists>j \<in> set is. \<exists>c. conn_of sv j = Some c \<and> \<not> sc_closed c \<and> sc_finished c)"
    and "sv_emitted sv' = sv_emitted sv" and "sv_log sv' = sv_log sv"
proof -
  have "conn_of sv' j =
      (if j \<in> set is then map_option (\<lambda>c. snd (send_conn c fr data)) (conn_of sv j) else conn_of sv j) \<and>
    sv_subs sv' =
      filter (\<lambda>j. j \<in> set is \<longrightarrow> (\<exists>c. conn_of sv j = Some c \<and> fst (send_conn c fr data))) (sv_subs sv) \<and>
    (sv_panic sv' \<longleftrightarrow>
      sv_panic sv \<or> (\<exists>j \<in> set is. \<exists>c. conn_of sv j = Some c \<and> \<not> sc_closed c \<and> sc_finished c)) \<and>
    sv_emitted sv' = sv_emitted sv \<and> sv_log sv' = sv_log sv"
    using assms
  proof (induction "is" arbitrary: sv)
    case (Cons i "is")
    obtain ok sv1 where r: "send_to i fr data sv = (ok, sv1)" by (metis surj_pair)
    let ?sv = "if ok then sv1 else sv1\<lparr>sv_subs := removeAll i (sv_subs sv1)\<rparr>"
    note f = send_to_simps [OF r]
    have e: "sv' = push_to is fr data ?sv" using Cons.prems(2) r by simp
    have d: "distinct is" "i \<notin> set is" using Cons.prems(1) by simp_all
    have c: "conn_of ?sv j = conn_of sv1 j" for j by simp
    have other: "j \<in> set is \<Longrightarrow> conn_of sv1 j = conn_of sv j" for j using f(1) [of j] d(2) by auto
    have subs: "sv_subs ?sv = filter (\<lambda>j. j = i \<longrightarrow> ok) (sv_subs sv)"
      using f(2) by (auto simp: removeAll_filter_not_eq intro: filter_cong)
    show ?case
      using Cons.IH [OF d(1) e] f d(2) other unfolding c subs
      by (auto simp: filter_filter intro!: filter_cong)
  qed simp
  then show "conn_of sv' j =
      (if j \<in> set is then map_option (\<lambda>c. snd (send_conn c fr data)) (conn_of sv j) else conn_of sv j)"
    "sv_subs sv' =
      filter (\<lambda>j. j \<in> set is \<longrightarrow> (\<exists>c. conn_of sv j = Some c \<and> fst (send_conn c fr data))) (sv_subs sv)"
    "sv_panic sv' \<longleftrightarrow>
      sv_panic sv \<or> (\<exists>j \<in> set is. \<exists>c. conn_of sv j = Some c \<and> \<not> sc_closed c \<and> sc_finished c)"
    "sv_emitted sv' = sv_emitted sv" "sv_log sv' = sv_log sv" by blast+
qed

lemma server_inv_push:
  assumes inv: "server_inv se base sv" and fr: "\<not> is_FHello fr" and data: "data = frame_bytes se fr"
    and same: "sv_subs sv1 = sv_subs sv" "\<And>j. conn_of sv1 j = conn_of sv j" "sv_panic sv1 = sv_panic sv"
    and em: "sv_emitted sv1 = sv_emitted sv @ frame_event fr"
    and ids: "LastID (sv_log sv1) = base + of_nat (length (sv_emitted sv1))" "ids_from base (sv_emitted sv1)"
  shows "server_inv se base (pushLocked fr data sv1)"
proof -
  let ?is = "sv_subs sv1" and ?sv = "pushLocked fr data sv1"
  have d: "distinct ?is" using inv same(1) by (simp add: server_inv_def)
  note f = push_to_spec [OF d pushLocked_def [of fr data sv1]]
  have sub: "\<exists>c. conn_of sv j = Some c \<and> \<not> sc_finished c \<and> (sc_closed c \<or> stream_ok base (sv_emitted sv) (sc_frames c))"
    if "j \<in> set ?is" for j using that inv same(1) unfolding server_inv_def by simp
  have q: "conn_of sv j = Some c \<Longrightarrow> length (sc_queue c) \<le> ClientQueueSize \<and>
      (sc_closed c \<or> sc_sent c @ sc_queue c = map (frame_bytes se) (sc_frames c))" for j c
    using inv unfolding server_inv_def by blast
  have "\<exists>d. conn_of ?sv j = Some d \<and> \<not> sc_finished d \<and> (sc_closed d \<or> stream_ok base (sv_emitted ?sv) (sc_frames d))"
    if j: "j \<in> set (sv_subs ?sv)" for j
  proof -
    have ji: "j \<in> set ?is" using j f(2) by simp
    obtain c where c: "conn_of sv j = Some c" "\<not> sc_finished c" "sc_closed c \<or> stream_ok base (sv_emitted sv) (sc_frames c)"
      using sub [OF ji] by blast
    have "fst (send_conn c fr data)" using j f(2) ji c(1) same(2) by auto
    then show ?thesis
      using c f(1) [of j] f(4) ji same(2) em stream_ok_append [OF _ fr refl]
      by (auto simp: send_conn_def close_conn_def split: if_splits)
  qed
  moreover have "length (sc_queue d) \<le> ClientQueueSize \<and>
      (sc_closed d \<or> sc_sent d @ sc_queue d = map (frame_bytes se) (sc_frames d))"
    if cd: "conn_of ?sv j = Some d" for j d
  proof -
    obtain c where "conn_of sv j = Some c" and dc: "d = (if j \<in> set ?is then snd (send_conn c fr data) else c)"
      using cd f(1) [of j] same(2) by (auto split: if_splits)
    then show ?thesis using q [of j c] data by (auto simp: send_conn_def close_conn_def split: if_splits)
  qed
  moreover have "\<not> sv_panic ?sv"
    using f(3) sub same inv unfolding server_inv_def by auto
  moreover have "distinct (sv_subs ?sv)" using d f(2) by simp
  ultimately show ?thesis
    using ids f(4,5) unfolding server_inv_def by simp
qed

lemma Append_id:
  assumes "Append io enc (l, d) ev0 = (ev, l', d')"
  shows "ev_ID ev = LastID l + 1 \<and> LastID l' = LastID l + 1"
  using assms by (auto simp: Append_def Let_def LastID_def rewrite_def split: if_splits rewrite_io.splits)

section \<open>Every step keeps the invariant\<close>

lemma server_inv_Emit:
  assumes inv: "server_inv se base sv" and enc: "\<And>e. se_event se e \<noteq> None"
  shows "server_inv se base (Emit se io ev0 sv)"
proof -
  obtain ev l d where ap: "Append io (se_line se) (sv_log sv, sv_disk sv) ev0 = (ev, l, d)" by (metis surj_pair)
  obtain data where e: "se_event se ev = Some data" using enc [of ev] by blast
  let ?sv = "sv\<lparr>sv_log := l, sv_disk := d, sv_emitted := sv_emitted sv @ [ev]\<rparr>"
  have id: "ev_ID ev = base + of_nat (Suc (length (sv_emitted sv)))" "LastID l = ev_ID ev"
    using Append_id [OF ap] inv by (simp_all add: server_inv_def add.assoc)
  have "Emit se io ev0 sv = pushLocked (FEvent ev) (data @ [CHR 0x0A]) ?sv" using ap e by (simp add: Emit_def)
  moreover have "server_inv se base \<dots>"
    by (rule server_inv_push [OF inv])
      (use id e inv in \<open>auto simp: frame_bytes_def server_inv_def ids_from_def nth_append less_Suc_eq\<close>)
  ultimately show ?thesis by simp
qed

lemma server_inv_BroadcastState:
  assumes "server_inv se base sv"
  shows "server_inv se base (BroadcastState se now rs sv)"
proof -
  let ?f = "\<lparr>sf_Type = FrameState, sf_Repo = st_Path rs, sf_Ts = now, sf_Data = rs\<rparr>"
  show ?thesis
  proof (cases "se_state se ?f")
    case (Some data)
    have "server_inv se base (pushLocked (FState ?f) (data @ [CHR 0x0A]) sv)"
      by (rule server_inv_push [OF assms])
        (use Some assms in \<open>auto simp: frame_bytes_def server_inv_def\<close>)
    then show ?thesis using Some by (simp add: BroadcastState_def)
  qed (simp add: BroadcastState_def assms)
qed

text \<open>What sending a frame of one's own leaves; \<open>reads i\<close>: the goroutine of the connection still runs.\<close>

definition reads :: "nat \<Rightarrow> 'd server \<Rightarrow> bool" where
  "reads i sv \<longleftrightarrow> (\<exists>c. conn_of sv i = Some c \<and> \<not> sc_finished c)"

lemma server_inv_response:
  assumes "server_inv se base sv" and "reads i sv" and "sendJSON i (FResponse resp) (se_response se resp) sv = (ok, sv')"
  shows "server_inv se base sv' \<and> reads i sv' \<and> sv_emitted sv' = sv_emitted sv \<and> sv_log sv' = sv_log sv"
proof (cases "se_response se resp")
  case (Some x)
  obtain c where c: "conn_of sv i = Some c" "\<not> sc_finished c" using assms(2) by (auto simp: reads_def)
  have "stream_ok base (sv_emitted sv) (sc_frames c) \<Longrightarrow>
      stream_ok base (sv_emitted sv) (sc_frames c @ [FResponse resp])"
    using stream_ok_append [of base "sv_emitted sv" "sc_frames c" "FResponse resp" "[]"] by simp
  then show ?thesis
    using server_inv_send [OF assms(1) c, of "x @ [CHR 0x0A]" "FResponse resp" ok sv'] assms(3) Some
    by (auto simp: sendJSON_def frame_bytes_def reads_def)
qed (use assms in \<open>simp add: sendJSON_def\<close>)

lemma server_inv_subscribe:
  assumes inv: "server_inv se base sv" and i: "reads i sv" and enc: "\<And>h. se_hello_frame se h \<noteq> None"
    and r: "subscribe se i req sv = (ok, sv')"
  shows "server_inv se base sv' \<and> reads i sv'"
proof -
  define h where "h = server_hello se sv"
  define resp where "resp = subscribed req h"
  obtain ok1 sv1 where s1: "sendJSON i (FResponse resp) (se_response se resp) sv = (ok1, sv1)" by (metis surj_pair)
  note f1 = server_inv_response [OF inv i s1]
  obtain x where x: "se_hello_frame se h = Some x" using enc [of h] by blast
  obtain ok2 sv2 where s2: "sendJSON i (FHello h) (se_hello_frame se h) sv1 = (ok2, sv2)" by (metis surj_pair)
  have sub: "subscribe se i req sv = (if ok1 then (ok2, if ok2 then sv2\<lparr>sv_subs := List.insert i (sv_subs sv2)\<rparr> else sv2) else (False, sv1))"
    unfolding subscribe_def Let_def h_def [symmetric] resp_def [symmetric] s1
    using s2 by (cases ok1; cases ok2) simp_all
  obtain c1 where c1: "conn_of sv1 i = Some c1" "\<not> sc_finished c1" using f1 by (auto simp: reads_def)
  have hid: "hl_LastEventID h = base + of_nat (length (sv_emitted sv1))"
    using f1 inv by (simp add: h_def server_hello_def server_inv_def)
  have f2: "server_inv se base sv2" "sv_emitted sv2 = sv_emitted sv1"
    "\<exists>c. conn_of sv2 i = Some c \<and> \<not> sc_finished c \<and> (ok2 \<longrightarrow> \<not> sc_closed c \<and> sc_frames c = sc_frames c1 @ [FHello h])"
    using server_inv_send [OF conjunct1 [OF f1] c1, of "x @ [CHR 0x0A]" "FHello h" ok2 sv2] s2 x
      stream_ok_hello [OF hid] by (auto simp: sendJSON_def frame_bytes_def)
  show ?thesis
  proof (cases "ok1 \<and> ok2")
    case True
    then have e: "sv' = sv2\<lparr>sv_subs := List.insert i (sv_subs sv2)\<rparr>" using r sub by simp
    have "server_inv se base sv'"
      using f2 True stream_ok_hello [OF hid, of "sc_frames c1"] unfolding e server_inv_def
      by (auto simp: distinct_insert)
    then show ?thesis using e f2(3) by (auto simp: reads_def)
  next
    case False
    then show ?thesis using r sub f1 f2 by (auto simp: reads_def split: if_splits)
  qed
qed

lemma server_inv_daemon: "server_inv se base (sv\<lparr>sv_daemon := d\<rparr>) = server_inv se base sv"
  "reads i (sv\<lparr>sv_daemon := d\<rparr>) = reads i sv"
  by (simp_all add: server_inv_def reads_def)

lemma server_inv_handle_read:
  assumes "server_inv se base sv" and "reads i sv" and "\<And>h. se_hello_frame se h \<noteq> None"
    and "handle_read se i r sv = (ok, sv')"
  shows "server_inv se base sv' \<and> reads i sv'"
proof (cases r)
  case (Line line)
  obtain req err where rq: "se_request se line = (req, err)" by force
  obtain resp d where dp: "dispatch se req (sv_daemon sv) = (resp, d)" by force
  show ?thesis
    using assms Line rq dp server_inv_response [of se base sv i _ ok sv'] server_inv_subscribe [of se base sv i req ok sv']
      server_inv_response [of se base "sv\<lparr>sv_daemon := d\<rparr>" i _ ok sv']
    by (auto simp: handle_read_def Let_def server_inv_daemon split: if_splits option.splits)
qed (use assms server_inv_response [of se base sv i _ ok sv'] in \<open>auto simp: handle_read_def Let_def\<close>)

lemma server_inv_leave:
  assumes "server_inv se base sv"
  shows "server_inv se base (leave i sv)"
  using assms unfolding server_inv_def leave_def
  by (cases "conn_of sv i") (auto simp: Let_def finish_conn_def distinct_removeAll)

lemma close_conn_simps [simp]:
  "sc_closed (close_conn c)" "sc_queue (close_conn c) = sc_queue c" "sc_sent (close_conn c) = sc_sent c"
  "sc_frames (close_conn c) = sc_frames c" "sc_finished (close_conn c) = sc_finished c"
  by (simp_all add: close_conn_def)

lemma map_of_map_values: "map_of (map (\<lambda>(i, c). (i, f i c)) xs) j = map_option (f j) (map_of xs j)"
  by (induction xs) auto

lemma conn_of_Close:
  "conn_of (Close_server sv) j =
     (if sv_done sv then conn_of sv j
      else map_option (\<lambda>c. if j \<in> set (sv_conns sv) then close_conn c else c) (conn_of sv j))"
  by (simp add: Close_server_def conn_of_def map_of_map_values)

lemma server_inv_step:
  assumes "server_step se sv sv'" and inv: "server_inv se base sv"
    and enc: "\<And>e. se_event se e \<noteq> None" "\<And>h. se_hello_frame se h \<noteq> None"
  shows "server_inv se base sv'"
  using assms(1)
proof (cases rule: server_step.cases)
  case (step_accept i)
  have "i \<notin> set (sv_subs sv)" using step_accept inv unfolding server_inv_def by force
  then show ?thesis
    using inv step_accept unfolding server_inv_def
    by (auto simp: accept_def newSocketConn_def)
next
  case (step_read i c r)
  obtain ok sv1 where h: "handle_read se i r sv = (ok, sv1)" by force
  have "server_inv se base sv1"
    using server_inv_handle_read [OF inv _ enc(2) h] step_read by (auto simp: reads_def)
  then show ?thesis using step_read h server_inv_leave by (auto simp: handle_client_def)
next
  case (step_write i c ok)
  then show ?thesis
    using inv unfolding server_inv_def
    by (auto simp: write_step_def close_conn_def split: list.split) fastforce+
next
  case (step_emit io ev)
  then show ?thesis using server_inv_Emit [OF inv enc(1)] by simp
next
  case (step_state now rs)
  then show ?thesis using server_inv_BroadcastState [OF inv] by simp
next
  case step_close
  then show ?thesis
    using inv conn_of_Close [of sv] unfolding server_inv_def
    by (cases "sv_done sv") (auto simp: step_close(1) Close_server_def Close_log_def LastID_def split: if_splits, metis close_conn_simps(1))
next
  case (step_daemon d)
  then show ?thesis using inv by (simp add: server_inv_daemon)
qed

lemma server_inv_begin:
  assumes "NewSocketServer le socketPath d = Inr sv0"
  shows "server_inv se (LastID (sv_log (SetEventLog log sv0))) (SetEventLog log sv0)"
  using assms
  by (auto simp: NewSocketServer_def SetEventLog_def server_inv_def conn_of_def ids_from_def
      split: option.splits if_splits)

interpretation server_sys: step_system "server_step se" "server_reachable se" for se
proof
  show "server_reachable se s s" for s by (rule server_begin)
  show "server_reachable se s t \<Longrightarrow> server_step se t u \<Longrightarrow> server_reachable se s u" for s t u by (rule server_more)
  show "server_reachable se s t \<Longrightarrow> P s \<Longrightarrow> (\<And>t u. P t \<Longrightarrow> server_step se t u \<Longrightarrow> P u) \<Longrightarrow> P t" for s t P
    by (induction rule: server_reachable.induct) auto
qed

text \<open>The encoders of events and of the hello do not fail; they are structures of strings and numbers.\<close>

definition encodes :: "'d server_env \<Rightarrow> bool" where
  "encodes se \<longleftrightarrow> (\<forall>e. se_event se e \<noteq> None) \<and> (\<forall>h. se_hello_frame se h \<noteq> None)"

interpretation streams: step_invariant "server_step se" "server_reachable se" "\<lambda>sv. encodes se \<longrightarrow> server_inv se base sv" for se base
  by unfold_locales (auto simp: encodes_def intro: server_inv_step)

lemma server_inv_reachable:
  assumes "NewSocketServer le socketPath d = Inr sv0" and "server_reachable se (SetEventLog log sv0) sv" and "encodes se"
  shows "server_inv se (LastID (sv_log (SetEventLog log sv0))) sv"
  using streams.reach_inv [OF assms(2)] server_inv_begin [OF assms(1)] assms(3) by blast

section \<open>Properties\<close>

text \<open>
  \<open>ReadLine\<close>, which collects a line from the chunks of a buffer of any size, returns what one
  gets by looking at the whole input: the text up to the first newline without a carriage return at
  its end, or that it is longer than the limit, or an error if the input ends in one before a
  newline or is empty; and in each case reading goes on after that newline.
\<close>

theorem ReadLine_spec:
  assumes "0 < n"
  shows "ReadLine n eof limit s = line_result eof limit [] False s"
  using assms by (simp add: ReadLine_def read_line_loop_spec)

theorem ReadLine_spec_witness:
  "ReadLine 4 True 9 (''status'' @ [CHR 0x0D, CHR 0x0A] @ ''x'') = (Line ''status'', ''x'') \<and>
   ReadLine 4 True 5 (''status'' @ [CHR 0x0A] @ ''x'') = (TooLarge, ''x'') \<and>
   ReadLine 4 False 5 ''x'' = (ReadError, [])"
  using ReadLine_spec [of 4] by code_simp

text \<open>
  C14. Whatever the order in which clients connect, send lines and leave, events are emitted, states
  are broadcast, queued messages are written and the server is closed, it never sends on a closed
  channel, which would panic and end the daemon, and no connection has more than \<open>ClientQueueSize\<close>
  messages waiting.
\<close>

theorem server_never_panics:
  assumes "NewSocketServer le socketPath d = Inr sv0" and "server_reachable se (SetEventLog log sv0) sv"
    and "encodes se"
  shows "\<not> sv_panic sv \<and> (\<forall>i c. conn_of sv i = Some c \<longrightarrow> length (sc_queue c) \<le> ClientQueueSize)"
  using server_inv_reachable [OF assms] unfolding server_inv_def by blast

definition demo_server_env :: "unit server_env" where
  "demo_server_env =
     \<lparr>se_response = \<lambda>r. Some (rp_ID r), se_hello_frame = \<lambda>h. Some ''hello'', se_event = \<lambda>e. Some (ev_Type e),
      se_state = \<lambda>f. None,
      se_request = \<lambda>l. (\<lparr>rq_ID = l, rq_Cmd = CmdSubscribe, rq_Repo = [], rq_Settings = [], rq_Force = False,
         rq_Since = 0, rq_Limit = 0\<rparr>, None),
      se_handler = None, se_hello = None, se_line = ev_Type\<rparr>"

definition demo_listen :: listen_env where
  "demo_listen = \<lparr>ls_mkdir = True, ls_dial = False, ls_stat = None, ls_remove = True, ls_listen = True, ls_chmod = True\<rparr>"

definition demo_server0 :: "unit server" where
  "demo_server0 =
     \<lparr>sv_daemon = (), sv_log = NewMemoryEventLog (int EventLogCapacity), sv_disk = [], sv_table = [],
      sv_conns = [], sv_subs = [], sv_done = False, sv_panic = False, sv_emitted = []\<rparr>"

definition demo_server :: "append_io \<Rightarrow> unit server" where
  "demo_server io = Emit demo_server_env io (zero_event\<lparr>ev_Type := EventPush\<rparr>)
     (handle_client demo_server_env 7 (Line ''a'') (accept 7 demo_server0))"

lemma demo_server_runs:
  "NewSocketServer demo_listen ''/s'' () = Inr demo_server0"
  "server_reachable demo_server_env (SetEventLog None demo_server0) (demo_server io)"
  "encodes demo_server_env"
proof -
  have a: "conn_of demo_server0 7 = None" "\<not> sv_done demo_server0" by (simp_all add: demo_server0_def conn_of_def)
  have "server_reachable demo_server_env demo_server0 (demo_server io)"
    unfolding demo_server_def
    by (rule server_more [OF server_more [OF server_more [OF server_begin step_accept] step_read [where c = newSocketConn]] step_emit])
      (simp_all add: a accept_def newSocketConn_def)
  then show "server_reachable demo_server_env (SetEventLog None demo_server0) (demo_server io)"
    by (simp add: SetEventLog_def)
qed (simp_all add: NewSocketServer_def CheckSocketPath_def MaxSocketPathLen_def demo_listen_def demo_server0_def
    demo_server_env_def encodes_def)

theorem server_never_panics_witness:
  "\<not> sv_panic (demo_server demo_io) \<and>
   (\<exists>c. conn_of (demo_server demo_io) 7 = Some c \<and> sc_queue c \<noteq> [] \<and> length (sc_queue c) \<le> 256)"
proof -
  have "map_option (\<lambda>c. sc_queue c \<noteq> []) (conn_of (demo_server demo_io) 7) = Some True" by code_simp
  then show ?thesis using server_never_panics [OF demo_server_runs] by (auto simp: ClientQueueSize_def)
qed

text \<open>
  C7. What a subscriber is sent. As long as its connection is open, what was written to it and what
  waits in its queue is the encoding of the frames sent to it, in order; after its last hello, these
  hold every event emitted since then, once and in order and no other; the hello carries the
  identifier of the last event before them, and the events are numbered on from there, without a gap.
\<close>

theorem subscriber_stream:
  assumes "NewSocketServer le socketPath d = Inr sv0" and "server_reachable se (SetEventLog log sv0) sv"
    and "encodes se" and "i \<in> set (sv_subs sv)"
  shows "\<exists>c. conn_of sv i = Some c \<and>
    (sc_closed c \<or>
     sc_sent c @ sc_queue c = map (frame_bytes se) (sc_frames c) \<and>
     (\<exists>before h after. sc_frames c = before @ FHello h # after \<and> (\<forall>f \<in> set after. \<not> is_FHello f) \<and>
        (\<exists>n. events_of after = drop n (sv_emitted sv)) \<and>
        map ev_ID (events_of after) =
          map (\<lambda>k. hl_LastEventID h + of_nat (Suc k)) [0..<length (events_of after)] \<and>
        LastID (sv_log sv) = hl_LastEventID h + of_nat (length (events_of after))))"
proof -
  let ?base = "LastID (sv_log (SetEventLog log sv0))"
  note inv = server_inv_reachable [OF assms(1-3), unfolded server_inv_def]
  obtain c where c: "conn_of sv i = Some c" "sc_closed c \<or> stream_ok ?base (sv_emitted sv) (sc_frames c)"
    "sc_closed c \<or> sc_sent c @ sc_queue c = map (frame_bytes se) (sc_frames c)"
    using inv assms(4) by blast
  show ?thesis
  proof (cases "sc_closed c")
    case False
    then obtain a h b n where s: "sc_frames c = a @ FHello h # b" "\<forall>f \<in> set b. \<not> is_FHello f"
      "hl_LastEventID h = ?base + of_nat n" "n \<le> length (sv_emitted sv)" "events_of b = drop n (sv_emitted sv)"
      using c(2) unfolding stream_ok_def by blast
    have "map ev_ID (events_of b) = map (\<lambda>k. hl_LastEventID h + of_nat (Suc k)) [0..<length (events_of b)]"
      using inv s(3-5) by (auto simp: ids_from_def intro!: nth_equalityI)
    moreover have "LastID (sv_log sv) = hl_LastEventID h + of_nat (length (events_of b))"
      using inv s(3-5) by (simp add: of_nat_diff)
    ultimately have "\<exists>before h after. sc_frames c = before @ FHello h # after \<and> (\<forall>f \<in> set after. \<not> is_FHello f) \<and>
        (\<exists>n. events_of after = drop n (sv_emitted sv)) \<and>
        map ev_ID (events_of after) =
          map (\<lambda>k. hl_LastEventID h + of_nat (Suc k)) [0..<length (events_of after)] \<and>
        LastID (sv_log sv) = hl_LastEventID h + of_nat (length (events_of after))"
      using s(1,2,5) by blast
    then show ?thesis using c(1,3) False by blast
  qed (use c in blast)
qed

theorem subscriber_stream_witness:
  "\<exists>c. conn_of (demo_server demo_io) 7 = Some c \<and> \<not> sc_closed c \<and>
     sc_queue c = map (\<lambda>t. t @ [CHR 0x0A]) [''a'', ''hello'', ''push''] \<and>
     map ev_ID (events_of (sc_frames c)) = [1]"
proof -
  have "7 \<in> set (sv_subs (demo_server demo_io))" by code_simp
  note subscriber_stream [OF demo_server_runs this]
  moreover have "map_option (\<lambda>c. (sc_closed c, sc_queue c, map ev_ID (events_of (sc_frames c))))
      (conn_of (demo_server demo_io) 7) =
    Some (False, map (\<lambda>t. t @ [CHR 0x0A]) [''a'', ''hello'', ''push''], [1])" by code_simp
  ultimately show ?thesis by auto
qed

end
