(* ===== verification/SocketClient.thy ===== *)
theory SocketClient
  imports Socket
begin

text \<open>
  \<open>common/socket_client.go\<close>: the client side of the daemon's socket, and what it gets from the server
  of \<open>Socket\<close>.

  A client is the bytes it has still to read, how its input ends, the bytes it wrote and its
  sequence number. The JSON encoding and the outcomes of dialling, of setting a deadline and of
  writing are parameters, the record \<open>client_env\<close>. \<open>bufio.Scanner\<close> is \<open>readLine_client\<close>: it hands out the rest of
  the input as a last line however the input ends.
\<close>

section \<open>The client\<close>

record client_response =
  cr_ID :: string
  cr_OK :: bool
  cr_Result :: string
  cr_Error :: string
  cr_Code :: string

datatype client_error =
    ErrIncompatibleDaemon
  | IDMismatch string string
  | NotHello string
  | Coded string string
  | EmptyResult
  | ClientEOF
  | LineTooLong
  | ClientIO string
  | DecodeFailed string

definition Err_response :: "client_response \<Rightarrow> client_error option" where
  "Err_response r = (if cr_OK r then None else Some (Coded (cr_Code r) (cr_Error r)))"

definition Decode_response :: "(string \<Rightarrow> client_error + 'v) \<Rightarrow> client_response \<Rightarrow> client_error + 'v" where
  "Decode_response unmarshal r = (if cr_Result r = [] then Inl EmptyResult else unmarshal (cr_Result r))"

record client_env =
  ce_dial :: "client_error option" \<comment> \<open>\<open>None\<close>: it succeeds\<close>
  ce_write_deadline :: "client_error option"
  ce_read_deadline :: "client_error option"
  ce_clear_deadline :: "client_error option"
  ce_write :: "client_error option"
  ce_request :: "socket_request \<Rightarrow> client_error + string"
  ce_probe :: "string \<Rightarrow> string" \<comment> \<open>the field \<open>type\<close>, empty if there is none\<close>
  ce_response :: "string \<Rightarrow> client_error + client_response"
  ce_hello :: "string \<Rightarrow> client_error + hello"

record client =
  cl_in :: string
  cl_end :: "string option" \<comment> \<open>how the input ends: \<open>None\<close> for \<open>io.EOF\<close>, or an error\<close>
  cl_out :: string
  cl_seq :: int

definition MaxTokenSize :: nat where "MaxTokenSize = 16 * 1024 * 1024"

definition NewSocketClient :: "client_env \<Rightarrow> string \<Rightarrow> string option \<Rightarrow> client_error + client" where
  "NewSocketClient ce input ends =
     (case ce_dial ce of
        Some e \<Rightarrow> Inl e
      | None \<Rightarrow> Inr \<lparr>cl_in = input, cl_end = ends, cl_out = [], cl_seq = 0\<rparr>)"

definition write_client :: "client_env \<Rightarrow> socket_request \<Rightarrow> client \<Rightarrow> client_error option \<times> client" where
  "write_client ce req c =
     (case ce_request ce req of
        Inl e \<Rightarrow> (Some e, c)
      | Inr data \<Rightarrow>
          (case ce_write_deadline ce of
             Some e \<Rightarrow> (Some e, c)
           | None \<Rightarrow>
               (case ce_write ce of
                  Some e \<Rightarrow> (Some e, c)
                | None \<Rightarrow> (None, c\<lparr>cl_out := cl_out c @ data @ [CHR 0x0A]\<rparr>))))"

definition readLine_client :: "client \<Rightarrow> (client_error + string) \<times> client" where
  "readLine_client c =
     (let s = cl_in c; l = upto_newline s
      in if s = [] then (Inl (case cl_end c of None \<Rightarrow> ClientEOF | Some e \<Rightarrow> ClientIO e), c)
         else if MaxTokenSize \<le> length l then (Inl LineTooLong, c)
         else (Inr (trim_suffix l [CHR 0x0D]), c\<lparr>cl_in := drop (Suc (length l)) s\<rparr>))"

definition readResponse :: "client_env \<Rightarrow> string \<Rightarrow> client \<Rightarrow> (client_error + client_response) \<times> client" where
  "readResponse ce rid c =
     (case ce_read_deadline ce of
        Some e \<Rightarrow> (Inl e, c)
      | None \<Rightarrow>
          (case readLine_client c of
             (Inl e, c') \<Rightarrow> (Inl e, c')
           | (Inr line, c') \<Rightarrow>
               if ce_probe ce line = FrameHello then (Inl ErrIncompatibleDaemon, c')
               else
                 (case ce_response ce line of
                    Inl e \<Rightarrow> (Inl e, c')
                  | Inr resp \<Rightarrow>
                      if cr_ID resp = [] \<and> rid \<noteq> [] \<and> cr_Code resp = [] then (Inl ErrIncompatibleDaemon, c')
                      else if cr_ID resp \<noteq> rid \<and> (cr_ID resp \<noteq> [] \<or> cr_OK resp) then (Inl (IDMismatch rid (cr_ID resp)), c')
                      else (Inr resp, c'))))"

definition nextID :: "socket_request \<Rightarrow> client \<Rightarrow> socket_request \<times> client" where
  "nextID req c =
     (if rq_ID req = []
      then (req\<lparr>rq_ID := ''cli-'' @ itoa (cl_seq c + 1)\<rparr>, c\<lparr>cl_seq := cl_seq c + 1\<rparr>)
      else (req, c))"

definition SendCommand :: "client_env \<Rightarrow> socket_request \<Rightarrow> client \<Rightarrow> (client_error + client_response) \<times> client" where
  "SendCommand ce req0 c0 =
     (case nextID req0 c0 of
        (req, c) \<Rightarrow>
          (case write_client ce req c of
             (Some e, c1) \<Rightarrow> (Inl e, c1)
           | (None, c1) \<Rightarrow> readResponse ce (rq_ID req) c1))"

definition subscribe_request :: socket_request where
  "subscribe_request =
     \<lparr>rq_ID = [], rq_Cmd = CmdSubscribe, rq_Repo = [], rq_Settings = [], rq_Force = False, rq_Since = 0, rq_Limit = 0\<rparr>"

definition Subscribe_client :: "client_env \<Rightarrow> client \<Rightarrow> (client_error + hello) \<times> client" where
  "Subscribe_client ce c0 =
     (case nextID subscribe_request c0 of
        (req, c) \<Rightarrow>
          (case write_client ce req c of
             (Some e, c1) \<Rightarrow> (Inl e, c1)
           | (None, c1) \<Rightarrow>
               (case readResponse ce (rq_ID req) c1 of
                  (Inl e, c2) \<Rightarrow> (Inl e, c2)
                | (Inr resp, c2) \<Rightarrow>
                    (case Err_response resp of
                       Some e \<Rightarrow> (Inl e, c2)
                     | None \<Rightarrow>
                         (case readLine_client c2 of
                            (Inl e, c3) \<Rightarrow> (Inl e, c3)
                          | (Inr line, c3) \<Rightarrow>
                              (case ce_hello ce line of
                                 Inl e \<Rightarrow> (Inl e, c3)
                               | Inr h \<Rightarrow>
                                   if hl_Type h \<noteq> FrameHello then (Inl (NotHello (hl_Type h)), c3)
                                   else (case ce_clear_deadline ce of
                                           Some e \<Rightarrow> (Inl e, c3)
                                         | None \<Rightarrow> (Inr h, c3))))))))"

definition ReadFrame :: "client \<Rightarrow> (client_error + string) \<times> client" where
  "ReadFrame c = readLine_client c"

definition CallDaemon ::
  "client_env \<Rightarrow> string \<Rightarrow> string option \<Rightarrow> socket_request \<Rightarrow> client_error + client_response" where
  "CallDaemon ce input ends req =
     (case NewSocketClient ce input ends of
        Inl e \<Rightarrow> Inl e
      | Inr c \<Rightarrow> fst (SendCommand ce req c))"

section \<open>Lines\<close>

text \<open>A line that both sides read back as it was sent; JSON objects are such lines.\<close>

definition clean_line :: "string \<Rightarrow> bool" where
  "clean_line l \<longleftrightarrow> CHR 0x0A \<notin> set l \<and> \<not> suffix [CHR 0x0D] l \<and> trim_space l \<noteq> []"

lemma upto_newline_line: "CHR 0x0A \<notin> set l \<Longrightarrow> upto_newline (l @ CHR 0x0A # rest) = l"
  by (subst takeWhile_append2) auto

lemma readLine_client_line:
  assumes "clean_line l" and "length l < MaxTokenSize" and "cl_in c = l @ CHR 0x0A # rest"
  shows "readLine_client c = (Inr l, c\<lparr>cl_in := rest\<rparr>)"
proof -
  have u: "upto_newline (l @ CHR 0x0A # rest) = l" using assms(1) by (simp add: clean_line_def upto_newline_line)
  have "trim_suffix l [CHR 0x0D] = l" using assms(1) by (simp add: clean_line_def trim_suffix_def)
  then show ?thesis using assms(2,3) by (simp add: readLine_client_def u)
qed

lemma ReadLine_line:
  assumes "clean_line l" and "length l \<le> limit" and "0 < n"
  shows "ReadLine n eof limit (l @ CHR 0x0A # rest) = (Line l, rest)"
proof -
  have u: "upto_newline (l @ CHR 0x0A # rest) = l" using assms(1) by (simp add: clean_line_def upto_newline_line)
  have "trim_suffix l [CHR 0x0D] = l" using assms(1) by (simp add: clean_line_def trim_suffix_def)
  then show ?thesis using assms(2,3) by (simp add: ReadLine_def read_line_loop_spec line_result_def u)
qed

lemma nextID_in:
  assumes "nextID req0 c = (req, c1)"
  shows "nextID req0 (c\<lparr>cl_in := s\<rparr>) = (req, c1\<lparr>cl_in := s\<rparr>)" and "cl_out c1 = cl_out c" and "rq_ID req \<noteq> []"
  using assms by (auto simp: nextID_def split: if_splits)

text \<open>Writing a request and reading the answer that is in the input.\<close>

lemma write_client_ok:
  assumes "ce_write_deadline ce = None" and "ce_write ce = None" and "ce_request ce req = Inr line"
  shows "write_client ce req c = (None, c\<lparr>cl_out := cl_out c @ line @ [CHR 0x0A]\<rparr>)"
  using assms by (simp add: write_client_def)

lemma readResponse_ok:
  assumes "ce_read_deadline ce = None" and "clean_line data" and "length data < MaxTokenSize"
    and "ce_probe ce data \<noteq> FrameHello" and "ce_response ce data = Inr r" and "cr_ID r = rid" and "rid \<noteq> []"
    and "cl_in c = data @ CHR 0x0A # rest"
  shows "readResponse ce rid c = (Inr r, c\<lparr>cl_in := rest\<rparr>)"
  using assms readLine_client_line [OF assms(2,3,8)] by (simp add: readResponse_def)

text \<open>An open connection with room takes a message.\<close>

lemma sendJSON_open:
  assumes "conn_of sv i = Some c" and "\<not> sc_closed c" and "length (sc_queue c) < ClientQueueSize"
  shows "\<exists>sv'. sendJSON i fr (Some x) sv = (True, sv') \<and> sv_subs sv' = sv_subs sv \<and> sv_log sv' = sv_log sv \<and>
    conn_of sv' i = Some (c\<lparr>sc_queue := sc_queue c @ [x @ [CHR 0x0A]], sc_frames := sc_frames c @ [fr]\<rparr>)"
  using assms by (simp add: sendJSON_def send_to_def send_conn_def)

section \<open>Properties\<close>

text \<open>
  A command sent with the client is answered: the server reads the line the client wrote,
  whatever the size of its read buffer, handles the command, and queues one message; a client that
  receives it gets the server's answer to this very request, with the identifier it sent, and
  nothing of the input that follows. The hypotheses: writing and setting deadlines succeed, the encoding of this
  request and of its answer can be decoded on the other side and is within the limits on the length of a
  line, and the connection is open and its queue not full.
\<close>

theorem SendCommand_answered:
  assumes io: "ce_write_deadline ce = None" "ce_write ce = None" "ce_read_deadline ce = None"
    and nid: "nextID req0 cl = (req, cl1)"
    and enc: "ce_request ce req = Inr line" "se_request se line = (req, None)" "clean_line line"
      "length line \<le> MaxRequestSize" "0 < n"
    and cmd: "rq_Cmd req \<noteq> CmdSubscribe"
    and conn: "conn_of sv i = Some c" "\<not> sc_closed c" "length (sc_queue c) < ClientQueueSize"
    and resp: "resp = (fst (dispatch se req (sv_daemon sv)))\<lparr>rp_ID := rq_ID req\<rparr>"
    and dec: "se_response se resp = Some data" "clean_line data" "length data < MaxTokenSize"
      "ce_probe ce data \<noteq> FrameHello" "ce_response ce data = Inr r" "cr_ID r = rp_ID resp"
  shows "(\<exists>c'. conn_of (handle_client se i (fst (ReadLine n eof MaxRequestSize (line @ [CHR 0x0A]))) sv) i = Some c' \<and>
      sc_queue c' = sc_queue c @ [data @ [CHR 0x0A]] \<and> sc_frames c' = sc_frames c @ [FResponse resp]) \<and>
    SendCommand ce req0 (cl\<lparr>cl_in := data @ [CHR 0x0A] @ rest\<rparr>) =
      (Inr r, cl1\<lparr>cl_in := rest, cl_out := cl_out cl @ line @ [CHR 0x0A]\<rparr>) \<and> cr_ID r = rq_ID req"
proof -
  obtain resp0 d where dp: "dispatch se req (sv_daemon sv) = (resp0, d)" by (metis surj_pair)
  have "handle_read se i (Line line) sv = sendJSON i (FResponse resp) (Some data) (sv\<lparr>sv_daemon := d\<rparr>)"
    using enc(2,3) cmd dp resp dec(1) by (simp add: handle_read_def clean_line_def)
  moreover obtain sv' where "sendJSON i (FResponse resp) (Some data) (sv\<lparr>sv_daemon := d\<rparr>) = (True, sv')"
    "conn_of sv' i = Some (c\<lparr>sc_queue := sc_queue c @ [data @ [CHR 0x0A]], sc_frames := sc_frames c @ [FResponse resp]\<rparr>)"
    using sendJSON_open [of "sv\<lparr>sv_daemon := d\<rparr>" i c "FResponse resp" data] conn by auto
  ultimately have "\<exists>c'. conn_of (handle_client se i (fst (ReadLine n eof MaxRequestSize (line @ [CHR 0x0A]))) sv) i = Some c' \<and>
      sc_queue c' = sc_queue c @ [data @ [CHR 0x0A]] \<and> sc_frames c' = sc_frames c @ [FResponse resp]"
    using ReadLine_line [OF enc(3-5), of eof "[]"] by (simp add: handle_client_def)
  moreover have "rq_ID req \<noteq> []" "cr_ID r = rq_ID req" using nextID_in [OF nid] dec(6) resp by simp_all
  ultimately show ?thesis
    using nextID_in [OF nid] write_client_ok [OF io(1,2) enc(1)]
      readResponse_ok [OF io(3) dec(2-5), where rid = "rq_ID req" and rest = rest
        and c = "cl1\<lparr>cl_in := data @ [CHR 0x0A] @ rest, cl_out := cl_out cl @ line @ [CHR 0x0A]\<rparr>"]
    by (simp add: SendCommand_def)
qed

definition demo_client_env :: client_env where
  "demo_client_env =
     \<lparr>ce_dial = None, ce_write_deadline = None, ce_read_deadline = None, ce_clear_deadline = None, ce_write = None,
      ce_request = \<lambda>req. Inr (rq_ID req), ce_probe = \<lambda>l. if l = ''hello'' then l else [],
      ce_response = \<lambda>l. Inr \<lparr>cr_ID = l, cr_OK = False, cr_Result = [], cr_Error = [], cr_Code = CodeUnknownCmd\<rparr>,
      ce_hello = \<lambda>l. Inr \<lparr>hl_Type = l, hl_Protocol = 2, hl_Version = [], hl_Repos = [], hl_LastEventID = 0\<rparr>\<rparr>"

definition demo_list_env :: "unit server_env" where
  "demo_list_env = demo_server_env\<lparr>se_request := \<lambda>l. (subscribe_request\<lparr>rq_ID := l, rq_Cmd := CmdList\<rparr>, None)\<rparr>"

definition demo_client :: client where
  "demo_client = \<lparr>cl_in = [], cl_end = None, cl_out = [], cl_seq = 4\<rparr>"

theorem SendCommand_answered_witness:
  "fst (SendCommand demo_client_env (subscribe_request\<lparr>rq_Cmd := CmdList\<rparr>)
     (demo_client\<lparr>cl_in := ''cli-5'' @ [CHR 0x0A] @ []\<rparr>)) =
   Inr \<lparr>cr_ID = ''cli-5'', cr_OK = False, cr_Result = [], cr_Error = [], cr_Code = CodeUnknownCmd\<rparr>"
proof -
  let ?req = "subscribe_request\<lparr>rq_ID := ''cli-5'', rq_Cmd := CmdList\<rparr>"
  have "nextID (subscribe_request\<lparr>rq_Cmd := CmdList\<rparr>) demo_client = (?req, demo_client\<lparr>cl_seq := 5\<rparr>)" by code_simp
  moreover have "clean_line ''cli-5''" by code_simp
  ultimately show ?thesis
    using SendCommand_answered [of demo_client_env "subscribe_request\<lparr>rq_Cmd := CmdList\<rparr>" demo_client ?req
        "demo_client\<lparr>cl_seq := 5\<rparr>" "''cli-5''" demo_list_env 16 "accept 7 demo_server0" 7 newSocketConn
        "(ErrResponse CodeUnknownCmd (''unknown command: '' @ CmdList))\<lparr>rp_ID := ''cli-5''\<rparr>" "''cli-5''" _ True "[]"]
    by (simp add: demo_client_env_def demo_list_env_def demo_server_env_def subscribe_request_def CmdList_def CmdSubscribe_def
        demo_server0_def accept_def newSocketConn_def ClientQueueSize_def dispatch_def ErrResponse_def FrameHello_def
        MaxRequestSize_def MaxTokenSize_def)
qed

end
