(* ===== verification/Commands.thy ===== *)
theory Commands
  imports Daemon SocketClient
begin

text \<open>
  \<open>daemon/commands.go\<close>, \<open>daemon/socket.go\<close> and \<open>daemon/netwatch.go\<close>: the commands of the socket, and
  the watcher of the network.

  A command is a program on the state of \<open>Daemon\<close>. \<open>d.sock.Events()\<close> is an argument, \<open>None\<close> when there is no
  socket. The goroutine of \<open>restartWatcher\<close> that \<open>set_settings\<close> starts is recorded in \<open>dm_restarts\<close>. Iterating over a Go map is
  iterating over the list that stands for it. The interfaces of the network are an argument.
\<close>

named_theorems stays_rules "programs that are sequences of the daemon's steps"
named_theorems gives_rules "what every result of a program satisfies"

section \<open>Looking up a watcher\<close>

definition errNotWatching :: goerror where
  "errNotWatching = CodedError CodeNotWatching ''repo is not being watched''"

definition cleanAbs :: "'w path_env \<Rightarrow> 'w \<Rightarrow> string \<Rightarrow> string" where
  "cleanAbs pe w path = (case Abs pe w path of Inr a \<Rightarrow> Clean a | Inl _ \<Rightarrow> Clean path)"

definition watchedPaths :: "'w daemon \<Rightarrow> string list" where
  "watchedPaths d = map fst (dm_watchers d)"

fun first_handle :: "(string \<Rightarrow> nat option) \<Rightarrow> string list \<Rightarrow> (string \<times> nat) option" where
  "first_handle w [] = None"
| "first_handle w (c # cs) = (case w c of Some n \<Rightarrow> Some (c, n) | None \<Rightarrow> first_handle w cs)"

definition path_candidates :: "'w path_env \<Rightarrow> 'w \<Rightarrow> string \<Rightarrow> string list" where
  "path_candidates pe w path = [path, cleanAbs pe w path, ResolvePath pe w path]"

definition lookupWatcher :: "'w daemon_env \<Rightarrow> string \<Rightarrow> ('w daemon, (string \<times> nat) option) state" where
  "lookupWatcher de path =
     (if path = [] then State_Monad.return None
      else do {
        found \<leftarrow> ask (\<lambda>d.
          let pe = de_paths de; w = dm_world d; resolved = ResolvePath pe w path in
          first_handle (map_of (dm_watchers d))
            (path_candidates pe w path @ filter (\<lambda>k. ResolvePath pe w k = resolved) (watchedPaths d)));
        case found of
          Some h \<Rightarrow> State_Monad.return (Some h)
        | None \<Rightarrow>
            do {
              root \<leftarrow> on_daemon (RepoRoot (de_env de) (de_paths de) path);
              case root of
                Inl _ \<Rightarrow> State_Monad.return None
              | Inr r \<Rightarrow> ask (\<lambda>d. first_handle (map_of (dm_watchers d)) [r])
            }
      })"

definition restartWatcher :: "'w daemon_env \<Rightarrow> string \<Rightarrow> ('w daemon, unit) state" where
  "restartWatcher de repoPath =
     do {
       found \<leftarrow> lookupWatcher de repoPath;
       case found of
         None \<Rightarrow> State_Monad.return ()
       | Some (key, _) \<Rightarrow> upd (restart_key key)
     }"

section \<open>Adding and removing repositories\<close>

definition cfg_Write :: "'w daemon_env \<Rightarrow> config_v1 \<Rightarrow> ('w daemon, bool) state" where
  "cfg_Write de config = State (\<lambda>d.
     case WriteV1 (de_cfg_enc de) (de_cfg_path de) (de_atomic de (dm_world d)) (dm_fs d) config of
       (ok, fs) \<Rightarrow> (ok, d\<lparr>dm_fs := fs\<rparr>))"

definition cannot_read :: "'w daemon_env \<Rightarrow> 'w daemon \<Rightarrow> goerror" where
  "cannot_read de d = CodedError CodeConfig (''cannot read config: '' @ de_cfg_error de (dm_world d))"

definition cannot_write :: "'w daemon_env \<Rightarrow> 'w daemon \<Rightarrow> goerror" where
  "cannot_write de d = CodedError CodeConfig (''cannot write config: '' @ de_cfg_error de (dm_world d))"

definition AddRepo :: "'w daemon_env \<Rightarrow> string \<Rightarrow> ('w daemon, string \<times> goerror option) state" where
  "AddRepo de path =
     do {
       found \<leftarrow> on_daemon (RepoRoot (de_env de) (de_paths de) path);
       case found of
         Inl e \<Rightarrow>
           State_Monad.return ([], Some (if ErrorCode (Some e) = []
             then CodedError CodeNotARepo (''not a git repository: '' @ path) else e))
       | Inr root \<Rightarrow>
           do {
             config \<leftarrow> ask (cfg_Read de);
             case config of
               None \<Rightarrow> do { e \<leftarrow> ask (cannot_read de); State_Monad.return ([], Some e) }
             | Some c \<Rightarrow>
                 do {
                   old \<leftarrow> ask (\<lambda>d. find (\<lambda>rp. rp = root \<or> ResolvePath (de_paths de) (dm_world d) rp = root) (cfg_Repos c));
                   case old of
                     Some rp \<Rightarrow>
                       do {
                         upd (reconcileWatchers de c);
                         State_Monad.return (rp, Some (CodedError CodeAlreadyExists (''already monitoring '' @ rp)))
                       }
                   | None \<Rightarrow>
                       let c' = c\<lparr>cfg_Repos := cfg_Repos c @ [root]\<rparr> in
                       do {
                         ok \<leftarrow> cfg_Write de c';
                         if \<not> ok then do { e \<leftarrow> ask (cannot_write de); State_Monad.return ([], Some e) }
                         else do {
                           upd (upd_store (\<lambda>st. Ensure st root));
                           upd (reconcileWatchers de c');
                           State_Monad.return (root, None)
                         }
                       }
                 }
           }
     }"

definition matchConfiguredRepo :: "'w daemon_env \<Rightarrow> string list \<Rightarrow> string \<Rightarrow> ('w daemon, string option) state" where
  "matchConfiguredRepo de repos path =
     (if path = [] then State_Monad.return None
      else do {
        found \<leftarrow> ask (\<lambda>d.
          let pe = de_paths de; w = dm_world d; resolved = ResolvePath pe w path in
          case find (\<lambda>c. c \<in> set repos) (path_candidates pe w path) of
            Some c \<Rightarrow> Some c
          | None \<Rightarrow> find (\<lambda>rp. ResolvePath pe w rp = resolved) repos);
        case found of
          Some rp \<Rightarrow> State_Monad.return (Some rp)
        | None \<Rightarrow>
            do {
              root \<leftarrow> on_daemon (RepoRoot (de_env de) (de_paths de) path);
              case root of
                Inl _ \<Rightarrow> State_Monad.return None
              | Inr r \<Rightarrow> ask (\<lambda>d. find (\<lambda>rp. rp = r \<or> ResolvePath (de_paths de) (dm_world d) rp = r) repos)
            }
      })"

definition RemoveRepo :: "'w daemon_env \<Rightarrow> string \<Rightarrow> ('w daemon, goerror option) state" where
  "RemoveRepo de path =
     do {
       config \<leftarrow> ask (cfg_Read de);
       case config of
         None \<Rightarrow> do { e \<leftarrow> ask (cannot_read de); State_Monad.return (Some e) }
       | Some c \<Rightarrow>
           do {
             target \<leftarrow> matchConfiguredRepo de (cfg_Repos c) path;
             case target of
               None \<Rightarrow> State_Monad.return (Some (CodedError CodeNotFound (''not monitoring '' @ path)))
             | Some t \<Rightarrow>
                 do {
                   repos \<leftarrow> ask (\<lambda>d. let resolve = ResolvePath (de_paths de) (dm_world d) in
                     filter (\<lambda>rp. rp \<noteq> t \<and> resolve rp \<noteq> resolve t) (cfg_Repos c));
                   let c' = c\<lparr>cfg_Repos := repos\<rparr>;
                   ok \<leftarrow> cfg_Write de c';
                   if \<not> ok then do { e \<leftarrow> ask (cannot_write de); State_Monad.return (Some e) }
                   else do { upd (reconcileWatchers de c'); State_Monad.return None }
                 }
           }
     }"

section \<open>Syncing and pausing\<close>

definition repoMissingError :: "'w daemon_env \<Rightarrow> string \<Rightarrow> 'w daemon \<Rightarrow> goerror option" where
  "repoMissingError de key d =
     (if RepoDirMissing (de_env de) key (dm_sys d) then Some (CodedError CodeRepoMissing (RepoMissingMessage key)) else None)"

definition kick :: "nat \<Rightarrow> 'w daemon \<Rightarrow> 'w daemon" where
  "kick n d = upd_handle n (\<lambda>h. h\<lparr>hd_immediate := True\<rparr>) d"

definition SyncNow :: "'w daemon_env \<Rightarrow> string \<Rightarrow> bool \<Rightarrow> ('w daemon, goerror option) state" where
  "SyncNow de path force =
     do {
       found \<leftarrow> lookupWatcher de path;
       case found of
         None \<Rightarrow> State_Monad.return (Some errNotWatching)
       | Some (key, n) \<Rightarrow>
           do {
             paused \<leftarrow> ask (\<lambda>d. hd_paused (dm_handles d ! n));
             if paused then State_Monad.return (Some (CodedError CodeBadRequest (''sync skipped: '' @ key @ '' is paused'')))
             else do {
               missing \<leftarrow> ask (repoMissingError de key);
               case missing of
                 Some e \<Rightarrow> State_Monad.return (Some e)
               | None \<Rightarrow>
                   do {
                     upd (\<lambda>d. if force then upd_handle n (\<lambda>h. h\<lparr>hd_force := True\<rparr>) d else d);
                     upd (kick n);
                     State_Monad.return None
                   }
             }
           }
     }"

fun for_each :: "('a \<Rightarrow> ('s, 'b) state) \<Rightarrow> 'a list \<Rightarrow> ('s, unit) state" where
  "for_each f [] = State_Monad.return ()"
| "for_each f (x # xs) = do { _ \<leftarrow> f x; for_each f xs }"

definition SyncAll :: "'w daemon_env \<Rightarrow> ('w daemon, unit) state" where
  "SyncAll de = do { ps \<leftarrow> ask watchedPaths; for_each (\<lambda>p. SyncNow de p False) ps }"

definition emit_daemon :: "'w daemon_env \<Rightarrow> (int \<Rightarrow> event) \<Rightarrow> ('w daemon, unit) state" where
  "emit_daemon de ev = on_daemon (do {
     now \<leftarrow> ask (now_unix (de_env de));
     upd (\<lambda>s. s\<lparr>sy_events := sy_events s @ [ev now]\<rparr>)
   })"

text \<open>\<open>SetPaused\<close> from where it has its watcher; no lock is held from the lookup to here.\<close>

definition set_paused_at :: "'w daemon_env \<Rightarrow> string \<Rightarrow> nat \<Rightarrow> bool \<Rightarrow> ('w daemon, goerror option) state" where
  "set_paused_at de key n paused =
     do {
       was \<leftarrow> ask (\<lambda>d. hd_paused (dm_handles d ! n));
       upd (upd_handle n (\<lambda>h. h\<lparr>hd_paused := paused\<rparr>));
       upd (upd_store (\<lambda>st. SetPaused st key paused));
       if was = paused then State_Monad.return None
       else if paused then
         do {
           emit_daemon de (\<lambda>now. NewEvent now EventPaused key [] StatusPaused);
           State_Monad.return None
         }
       else
         do {
           emit_daemon de (\<lambda>now. NewEvent now EventResumed key [] []);
           upd (kick n);
           State_Monad.return None
         }
     }"

definition SetPaused_daemon :: "'w daemon_env \<Rightarrow> string \<Rightarrow> bool \<Rightarrow> ('w daemon, goerror option) state" where
  "SetPaused_daemon de path paused =
     do {
       found \<leftarrow> lookupWatcher de path;
       case found of
         None \<Rightarrow> State_Monad.return (Some errNotWatching)
       | Some (key, n) \<Rightarrow> set_paused_at de key n paused
     }"

definition SetAllPaused :: "'w daemon_env \<Rightarrow> bool \<Rightarrow> ('w daemon, unit) state" where
  "SetAllPaused de paused = do { ps \<leftarrow> ask watchedPaths; for_each (\<lambda>p. SetPaused_daemon de p paused) ps }"

section \<open>Aborting a rebase\<close>

fun rebase_paths :: "'w daemon_env \<Rightarrow> repo_config \<Rightarrow> string list \<Rightarrow> ('w sys, goerror + bool) state" where
  "rebase_paths de cfg [] = State_Monad.return (Inr False)"
| "rebase_paths de cfg (name # names) =
     do {
       (out, err) \<leftarrow> GitCommandCtx (de_env de) WithoutCancel cfg [''rev-parse'', ''--git-path'', name];
       case err of
         Some e \<Rightarrow> State_Monad.return (Inl e)
       | None \<Rightarrow>
           let p0 = trim_space out; p = (if is_abs p0 then p0 else Join [cf_RepoPath cfg, p0]) in
           if p0 = [] then rebase_paths de cfg names
           else do {
             found \<leftarrow> ask (\<lambda>s. case en_stat (de_env de) (sy_world s) p of Inl _ \<Rightarrow> False | Inr _ \<Rightarrow> True);
             if found then State_Monad.return (Inr True) else rebase_paths de cfg names
           }
     }"

definition rebaseInProgress :: "'w daemon_env \<Rightarrow> repo_config \<Rightarrow> ('w sys, goerror + bool) state" where
  "rebaseInProgress de cfg = rebase_paths de cfg [''rebase-merge'', ''rebase-apply'']"

text \<open>\<open>AbortRebase\<close> from where it holds the lock of the repository.\<close>

definition abort_locked :: "'w daemon_env \<Rightarrow> string \<Rightarrow> nat \<Rightarrow> repo_config \<Rightarrow> ('w daemon, goerror option) state" where
  "abort_locked de key n cfg =
     do {
       rebasing \<leftarrow> on_daemon (rebaseInProgress de cfg);
       case rebasing of
         Inl e \<Rightarrow> State_Monad.return (Some (CodedError CodeUnknown (''cannot inspect repository: '' @ ErrorMessage (Some e))))
       | Inr False \<Rightarrow> State_Monad.return (Some (CodedError CodeBadRequest (''no rebase in progress in '' @ key)))
       | Inr True \<Rightarrow>
           do {
             (_, err) \<leftarrow> on_daemon (GitCommandCtx (de_env de) WithoutCancel cfg [''rebase'', ''--abort'']);
             case err of
               Some e \<Rightarrow>
                 State_Monad.return (Some (CodedError CodeUnknown (''git rebase --abort failed: '' @ ErrorMessage (Some e))))
             | None \<Rightarrow>
                 do {
                   (_, perr) \<leftarrow> on_daemon (preflight (de_env de) WithoutCancel cfg);
                   case perr of
                     Some e \<Rightarrow>
                       let code = (case as_preflight e of
                             Some pe \<Rightarrow> if pe_Code pe \<noteq> [] then pe_Code pe else CodeUnknown
                           | None \<Rightarrow> CodeUnknown) in
                       do {
                         upd (upd_store (\<lambda>st. MarkPreflightCode st key code (ErrorMessage (Some e))));
                         State_Monad.return None
                       }
                   | None \<Rightarrow>
                       do {
                         upd (upd_store (\<lambda>st. ClearPreflight st key));
                         upd (\<lambda>d. if hd_paused (dm_handles d ! n) then d else kick n d);
                         State_Monad.return None
                       }
                 }
           }
     }"

definition AbortRebase :: "'w daemon_env \<Rightarrow> string \<Rightarrow> ('w daemon, goerror option) state" where
  "AbortRebase de path =
     do {
       found \<leftarrow> lookupWatcher de path;
       case found of
         None \<Rightarrow> State_Monad.return (Some errNotWatching)
       | Some (key, n) \<Rightarrow>
           do {
             missing \<leftarrow> ask (repoMissingError de key);
             case missing of
               Some e \<Rightarrow> State_Monad.return (Some e)
             | None \<Rightarrow>
                 do {
                   config \<leftarrow> on_daemon (new_repo_config (de_env de) key);
                   case config of
                     Inl e \<Rightarrow> State_Monad.return (Some (CodedError CodeConfig (''cannot load repo config: '' @ error_text e)))
                   | Inr c \<Rightarrow>
                       do {
                         envs \<leftarrow> ask dm_envs;
                         upd (syncLock key);
                         abort_locked de key n (c\<lparr>cf_Env := cf_Env c @ envs\<rparr>)
                       }
                 }
           }
     }"

section \<open>Settings\<close>

text \<open>The error of \<open>runGitConfig\<close>: its text and exit code.\<close>

definition git_config_error :: "run_result \<Rightarrow> (string \<times> int) option" where
  "git_config_error r =
     (case rr_fail r of
        None \<Rightarrow> None
      | Some e \<Rightarrow>
          Some (if trim_space (rr_err r) = [] then error_text e else trim_space (rr_err r),
                case as_exit e of Some (ExitError code _) \<Rightarrow> code | _ \<Rightarrow> - 1))"

definition runGitConfig :: "'w daemon_env \<Rightarrow> string \<Rightarrow> string list \<Rightarrow> ('w daemon, (string \<times> int) option) state" where
  "runGitConfig de repoPath args =
     do {
       r \<leftarrow> on_daemon (exec_git_config (de_env de) repoPath args);
       State_Monad.return (git_config_error r)
     }"

definition setting_of :: "(string \<times> string) list \<Rightarrow> string \<Rightarrow> setting_value" where
  "setting_of raw name =
     (let gitKey = (case SettingGitKey name of Some k \<Rightarrow> k | None \<Rightarrow> []);
          val = trim_space (case map_of raw (to_lower gitKey) of Some v \<Rightarrow> v | None \<Rightarrow> [])
      in if val = [] then Null
         else if name = SettingPollInterval \<or> name = SettingBatchWindow then
           (case atoi val of (n, ok) \<Rightarrow> if ok then Number n else Text val)
         else Text val)"

definition readRepoSettings ::
  "'w daemon_env \<Rightarrow> string \<Rightarrow> ('w daemon, goerror + (string \<times> setting_value) list) state" where
  "readRepoSettings de repoPath =
     do {
       found \<leftarrow> lookupWatcher de repoPath;
       let key = (case found of Some (k, _) \<Rightarrow> k | None \<Rightarrow> repoPath);
       missing \<leftarrow> ask (repoMissingError de key);
       case missing of
         Some e \<Rightarrow> State_Monad.return (Inl e)
       | None \<Rightarrow>
           do {
             raw \<leftarrow> on_daemon (read_settings (de_env de) key);
             case raw of
               Inl e \<Rightarrow> State_Monad.return (Inl (CodedError CodeConfig (''cannot read settings: '' @ error_text e)))
             | Inr m \<Rightarrow> State_Monad.return (Inr ((''repo'', Text key) # map (\<lambda>name. (name, setting_of m name)) SettingNames))
           }
     }"

fun validate_all ::
  "(string \<Rightarrow> string) \<Rightarrow> (string \<Rightarrow> stat_result) \<Rightarrow> (string \<times> string) list \<Rightarrow> goerror + (string \<times> string) list" where
  "validate_all quote stat [] = Inr []"
| "validate_all quote stat ((name, v) # rest) =
     (case ValidateSetting quote stat name v of
        Inl e \<Rightarrow> Inl e
      | Inr v' \<Rightarrow> (case validate_all quote stat rest of Inl e \<Rightarrow> Inl e | Inr vs \<Rightarrow> Inr ((name, v') # vs)))"

fun write_settings ::
  "'w daemon_env \<Rightarrow> string \<Rightarrow> (string \<times> string) list \<Rightarrow> string list \<Rightarrow> ('w daemon, goerror option) state" where
  "write_settings de key validated [] = State_Monad.return None"
| "write_settings de key validated (name # names) =
     (case map_of validated name of
        None \<Rightarrow> write_settings de key validated names
      | Some v \<Rightarrow>
          let fullKey = ''auto-sync.'' @ (case SettingGitKey name of Some k \<Rightarrow> k | None \<Rightarrow> []) in
          if v = [] then
            do {
              err \<leftarrow> runGitConfig de key [''--unset-all'', fullKey];
              case err of
                None \<Rightarrow> write_settings de key validated names
              | Some (msg, code) \<Rightarrow>
                  if code = 5 then write_settings de key validated names
                  else State_Monad.return (Some (CodedError CodeConfig (''cannot unset '' @ fullKey @ '': '' @ msg)))
            }
          else
            do {
              err \<leftarrow> runGitConfig de key [''--replace-all'', fullKey, v];
              case err of
                None \<Rightarrow> write_settings de key validated names
              | Some (msg, _) \<Rightarrow> State_Monad.return (Some (CodedError CodeConfig (''cannot set '' @ fullKey @ '': '' @ msg)))
            })"

definition writeRepoSettings ::
  "'w daemon_env \<Rightarrow> string \<Rightarrow> (string \<times> string) list \<Rightarrow> ('w daemon, goerror option) state" where
  "writeRepoSettings de repoPath settings =
     do {
       found \<leftarrow> lookupWatcher de repoPath;
       case found of
         None \<Rightarrow> State_Monad.return (Some errNotWatching)
       | Some (key, _) \<Rightarrow>
           if settings = [] then State_Monad.return (Some (CodedError CodeBadRequest ''no settings given''))
           else do {
             missing \<leftarrow> ask (repoMissingError de key);
             case missing of
               Some e \<Rightarrow> State_Monad.return (Some e)
             | None \<Rightarrow>
                 do {
                   validated \<leftarrow> ask (\<lambda>d. validate_all (en_quote (de_env de)) (en_stat (de_env de) (dm_world d)) settings);
                   case validated of
                     Inl e \<Rightarrow> State_Monad.return (Some e)
                   | Inr vs \<Rightarrow> write_settings de key vs SettingNames
                 }
           }
     }"

section \<open>Handling a command\<close>

definition repoSnapshot :: "'w daemon \<Rightarrow> repo_state list" where
  "repoSnapshot d = sort_key st_Path (Snapshot (dm_store d))"

definition lastEventID :: "event_log option \<Rightarrow> u64" where
  "lastEventID log = (case log of None \<Rightarrow> 0 | Some l \<Rightarrow> LastID l)"

definition canonicalRepo :: "'w daemon_env \<Rightarrow> string \<Rightarrow> ('w daemon, string) state" where
  "canonicalRepo de repo =
     do {
       found \<leftarrow> lookupWatcher de repo;
       case found of
         Some (key, _) \<Rightarrow> State_Monad.return key
       | None \<Rightarrow> ask (\<lambda>d. ResolvePath (de_paths de) (dm_world d) repo)
     }"

definition errResponse :: "goerror \<Rightarrow> response" where
  "errResponse e =
     ErrResponse (if ErrorCode (Some e) = [] then CodeUnknown else ErrorCode (Some e)) (error_text e)"

definition commandOK :: "string \<Rightarrow> string \<Rightarrow> response" where
  "commandOK status repo = OKResponse (CommandResult status repo)"

definition daemon_hello :: "'w daemon_env \<Rightarrow> 'w daemon \<Rightarrow> hello" where
  "daemon_hello de d = \<lparr>hl_Type = [], hl_Protocol = 0, hl_Version = de_version de, hl_Repos = repoSnapshot d, hl_LastEventID = 0\<rparr>"

definition repo_commands :: "string list" where
  "repo_commands = [CmdAdd, CmdRemove, CmdSyncNow, CmdPause, CmdResume, CmdGetSettings, CmdSetSettings, CmdAbortRebase]"

text \<open>A command whose error is the answer, and whose answer otherwise is \<open>status\<close> for the repository it found.\<close>

definition answer_command ::
  "'w daemon_env \<Rightarrow> string \<Rightarrow> string \<Rightarrow> ('w daemon, goerror option) state \<Rightarrow> ('w daemon, response) state" where
  "answer_command de repo status m =
     do {
       err \<leftarrow> m;
       case err of
         Some e \<Rightarrow> State_Monad.return (errResponse e)
       | None \<Rightarrow> do { key \<leftarrow> canonicalRepo de repo; State_Monad.return (commandOK status key) }
     }"

text \<open>The second \<open>switch\<close> of \<open>HandleCommand\<close>.\<close>

definition handle_repo :: "'w daemon_env \<Rightarrow> socket_request \<Rightarrow> string \<Rightarrow> ('w daemon, response) state" where
  "handle_repo de req repo =
     (if rq_Cmd req = CmdAdd then
        do {
          (root, err) \<leftarrow> AddRepo de repo;
          State_Monad.return
            (if ErrorCode err = CodeAlreadyExists then commandOK CodeAlreadyExists (if root = [] then repo else root)
             else (case err of Some e \<Rightarrow> errResponse e | None \<Rightarrow> commandOK ''added'' root))
        }
      else if rq_Cmd req = CmdRemove then
        do {
          err \<leftarrow> RemoveRepo de repo;
          State_Monad.return (case err of Some e \<Rightarrow> errResponse e | None \<Rightarrow> commandOK ''removed'' repo)
        }
      else if rq_Cmd req = CmdSyncNow then answer_command de repo ''triggered'' (SyncNow de repo (rq_Force req))
      else if rq_Cmd req = CmdPause then answer_command de repo ''paused'' (SetPaused_daemon de repo True)
      else if rq_Cmd req = CmdResume then answer_command de repo ''resumed'' (SetPaused_daemon de repo False)
      else if rq_Cmd req = CmdAbortRebase then answer_command de repo ''aborted'' (AbortRebase de repo)
      else if rq_Cmd req = CmdGetSettings then
        do {
          settings \<leftarrow> readRepoSettings de repo;
          State_Monad.return (case settings of Inl e \<Rightarrow> errResponse e | Inr m \<Rightarrow> OKResponse (SettingsResult m))
        }
      else if rq_Settings req = [] then State_Monad.return (ErrResponse CodeBadRequest ''missing settings'')
      else
        do {
          err \<leftarrow> writeRepoSettings de repo (rq_Settings req);
          case err of
            Some e \<Rightarrow> State_Monad.return (errResponse e)
          | None \<Rightarrow>
              do {
                upd (\<lambda>d. d\<lparr>dm_restarts := dm_restarts d @ [repo]\<rparr>);
                State_Monad.return (commandOK ''saved'' repo)
              }
        })"

definition HandleCommand :: "'w daemon_env \<Rightarrow> event_log option \<Rightarrow> socket_request \<Rightarrow> ('w daemon, response) state" where
  "HandleCommand de log req =
     (if rq_Cmd req \<in> set [CmdStatus, CmdList] then
        ask (\<lambda>d. OKResponse (StatusResult \<lparr>sr_Protocol = ProtocolVersion, sr_Version = de_version de, sr_Daemon = ''running'',
          sr_Repos = repoSnapshot d, sr_LastEventID = lastEventID log\<rparr>))
      else if rq_Cmd req = CmdVersion then State_Monad.return (OKResponse (VersionResult ProtocolVersion (de_version de)))
      else if rq_Cmd req = CmdEvents then
        (case log of
           None \<Rightarrow> State_Monad.return (OKResponse (EventsResult [] 0))
         | Some l \<Rightarrow>
             do {
               repo \<leftarrow> (if rq_Repo req \<noteq> [] then canonicalRepo de (Clean (rq_Repo req)) else State_Monad.return []);
               State_Monad.return (OKResponse (EventsResult (Since l (rq_Since req) repo (rq_Limit req)) (LastID l)))
             })
      else if rq_Cmd req = CmdSyncAll then do { SyncAll de; State_Monad.return (commandOK ''triggered'' []) }
      else if rq_Cmd req = CmdPauseAll then do { SetAllPaused de True; State_Monad.return (commandOK ''paused'' []) }
      else if rq_Cmd req = CmdResumeAll then do { SetAllPaused de False; State_Monad.return (commandOK ''resumed'' []) }
      else if rq_Cmd req = CmdSubscribe then
        State_Monad.return (ErrResponse CodeBadRequest ''subscribe is only valid on a socket connection'')
      else if rq_Cmd req \<notin> set repo_commands then
        State_Monad.return (ErrResponse CodeUnknownCmd (''unknown command: '' @ rq_Cmd req))
      else if rq_Repo req = [] then State_Monad.return (ErrResponse CodeMissingRepo ''missing repo'')
      else if \<not> is_abs (rq_Repo req) then
        State_Monad.return (ErrResponse CodeBadRequest (''repo must be an absolute path: '' @ rq_Repo req))
      else handle_repo de req (Clean (rq_Repo req)))"

section \<open>The network\<close>

record net_address =
  na_ipnet :: bool
  na_linklocal :: bool
  na_loopback :: bool
  na_text :: string

record net_interface =
  ni_name :: string
  ni_up :: bool
  ni_loopback :: bool
  ni_addrs :: "net_address list option" \<comment> \<open>\<open>None\<close> for an error\<close>

definition networkFingerprint :: "net_interface list option \<Rightarrow> string" where
  "networkFingerprint ifaces =
     (case ifaces of
        None \<Rightarrow> []
      | Some ifs \<Rightarrow>
          join '','' (sort (concat (map (\<lambda>i.
            if \<not> ni_up i \<or> ni_loopback i then []
            else (case ni_addrs i of
                    None \<Rightarrow> []
                  | Some as \<Rightarrow> map (\<lambda>a. ni_name i @ ''='' @ na_text a)
                      (filter (\<lambda>a. na_ipnet a \<and> \<not> na_linklocal a \<and> \<not> na_loopback a) as))) ifs))))"

definition retryOffline :: "'w daemon_env \<Rightarrow> ('w daemon, unit) state" where
  "retryOffline de =
     do {
       offline \<leftarrow> ask (\<lambda>d. map st_Path (filter (\<lambda>st. st_Status st = StatusOffline \<and> \<not> st_Paused st) (Snapshot (dm_store d))));
       for_each (\<lambda>p. SyncNow de p False) offline
     }"

text \<open>A tick of the network watcher, from the last fingerprint to the next.\<close>

definition network_tick :: "'w daemon_env \<Rightarrow> string \<Rightarrow> string \<Rightarrow> ('w daemon, string) state" where
  "network_tick de prev cur =
     (if cur = prev then State_Monad.return prev
      else if cur = [] then State_Monad.return cur
      else do { retryOffline de; State_Monad.return cur })"

section \<open>Commands are steps of the daemon\<close>

definition stays :: "'w daemon_env \<Rightarrow> 'w daemon \<Rightarrow> ('w daemon, 'a) state \<Rightarrow> bool" where
  "stays de d0 m \<longleftrightarrow> triple (daemon_reachable de d0) m (\<lambda>_. daemon_reachable de d0)"

lemma stays_return [stays_rules]: "stays de d0 (State_Monad.return x)"
  by (simp add: stays_def triple_return)

lemma stays_ask [stays_rules]: "stays de d0 (ask g)"
  by (simp add: stays_def triple_ask)

lemma stays_bind [stays_rules]: "stays de d0 m \<Longrightarrow> (\<And>x. stays de d0 (k x)) \<Longrightarrow> stays de d0 (State_Monad.bind m k)"
  unfolding stays_def by (rule triple_bind)

lemma stays_if [stays_rules]:
  "(b \<Longrightarrow> stays de d0 m) \<Longrightarrow> (\<not> b \<Longrightarrow> stays de d0 n) \<Longrightarrow> stays de d0 (if b then m else n)"
  by simp

lemma stays_option [stays_rules]:
  "stays de d0 n \<Longrightarrow> (\<And>y. stays de d0 (k y)) \<Longrightarrow> stays de d0 (case x of None \<Rightarrow> n | Some y \<Rightarrow> k y)"
  by (cases x) auto

lemma stays_sum [stays_rules]:
  "(\<And>y. stays de d0 (f y)) \<Longrightarrow> (\<And>y. stays de d0 (g y)) \<Longrightarrow> stays de d0 (case x of Inl y \<Rightarrow> f y | Inr y \<Rightarrow> g y)"
  by (cases x) auto

lemma stays_prod [stays_rules]: "(\<And>a b. stays de d0 (k a b)) \<Longrightarrow> stays de d0 (case p of (a, b) \<Rightarrow> k a b)"
  by (cases p) auto

lemma stays_bool [stays_rules]:
  "stays de d0 m \<Longrightarrow> stays de d0 n \<Longrightarrow> stays de d0 (case b of True \<Rightarrow> m | False \<Rightarrow> n)"
  by (cases b) auto

lemma stays_let [stays_rules]: "stays de d0 (k v) \<Longrightarrow> stays de d0 (let x = v in k x)"
  by simp

lemma stays_step: "(\<And>d. daemon_step de d (f d)) \<Longrightarrow> stays de d0 (upd f)"
  unfolding stays_def by (rule triple_upd) (rule daemon_more)

lemma step_sys: "daemon_step de d (d\<lparr>dm_sys := s\<rparr>)"
  using step_outside [where fs' = "dm_fs d" and sys = s and b = "dm_persistCh d" and rs = "dm_restarts d" and d = d] by simp

lemma stays_on_daemon [stays_rules]: "stays de d0 (on_daemon m)"
  unfolding stays_def triple_def
  by (auto simp: on_daemon_def split: prod.split intro: daemon_more step_sys)

lemma stays_store [stays_rules]: "stays de d0 (upd (upd_store f))"
  by (rule stays_step) (simp add: upd_store_def step_sys)

lemma stays_restarts [stays_rules]: "stays de d0 (upd (\<lambda>d. d\<lparr>dm_restarts := f d\<rparr>))"
proof (rule stays_step)
  fix d show "daemon_step de d (d\<lparr>dm_restarts := f d\<rparr>)"
    using step_outside [where fs' = "dm_fs d" and sys = "dm_sys d" and b = "dm_persistCh d" and rs = "f d" and d = d] by simp
qed

lemmas stays_steps [stays_rules] = stays_step [OF step_reconcile] stays_step [OF step_restart] stays_step [OF step_lock]

lemma step_immediate: "daemon_step de d (upd_handle n (\<lambda>h. h\<lparr>hd_immediate := b\<rparr>) d)"
  and step_force: "daemon_step de d (upd_handle n (\<lambda>h. h\<lparr>hd_force := b\<rparr>) d)"
  and step_paused: "daemon_step de d (upd_handle n (\<lambda>h. h\<lparr>hd_paused := b\<rparr>) d)"
  using step_flags [where de = de and d = d and n = n and i = b and f = "hd_force (dm_handles d ! n)" and p = "hd_paused (dm_handles d ! n)"]
    step_flags [where de = de and d = d and n = n and i = "hd_immediate (dm_handles d ! n)" and f = b and p = "hd_paused (dm_handles d ! n)"]
    step_flags [where de = de and d = d and n = n and i = "hd_immediate (dm_handles d ! n)" and f = "hd_force (dm_handles d ! n)" and p = b]
  by (simp_all add: upd_handle_def)

lemma stays_kick [stays_rules]: "stays de d0 (upd (kick n))"
  by (rule stays_step) (simp add: kick_def step_immediate)

lemma stays_paused [stays_rules]: "stays de d0 (upd (upd_handle n (\<lambda>h. h\<lparr>hd_paused := b\<rparr>)))"
  by (rule stays_step) (rule step_paused)

lemma stays_cond:
  assumes "\<And>d. daemon_step de d (f d)"
  shows "stays de d0 (upd (\<lambda>d. if b d then d else f d))" and "stays de d0 (upd (\<lambda>d. if b d then f d else d))"
  unfolding stays_def by (auto intro!: triple_upd intro: daemon_more [OF _ assms])

lemma stays_conds [stays_rules]:
  "stays de d0 (upd (\<lambda>d. if b d then d else kick n d))"
  "stays de d0 (upd (\<lambda>d. if c then upd_handle n (\<lambda>h. h\<lparr>hd_force := True\<rparr>) d else d))"
  by (rule stays_cond, simp add: kick_def step_immediate, rule stays_cond, rule step_force)

lemma stays_for_each [stays_rules]: "(\<And>x. stays de d0 (f x)) \<Longrightarrow> stays de d0 (for_each f xs)"
  by (induction xs) (auto intro: stays_rules)

text \<open>The configuration is another file than the state.\<close>

definition files_ok :: "'w daemon_env \<Rightarrow> bool" where
  "files_ok de \<longleftrightarrow> temp_ok de \<and> de_cfg_path de \<noteq> Some (de_state_path de)"

lemma WriteFileAtomic_other:
  "q \<noteq> path \<Longrightarrow> ae_temp env \<noteq> Some q \<Longrightarrow> last (snd (WriteFileAtomic env fs path content perm)) q = fs q"
  by (auto simp: write_atomic_defs split: option.split)

lemma stays_cfg_Write:
  assumes "files_ok de"
  shows "stays de d0 (cfg_Write de config)"
proof -
  have "daemon_step de d (snd (run_state (cfg_Write de config) d))" for d
  proof -
    obtain ok fs' where r: "WriteV1 (de_cfg_enc de) (de_cfg_path de) (de_atomic de (dm_world d)) (dm_fs d) config = (ok, fs')"
      by (metis surj_pair)
    have "fs' (de_state_path de) = dm_fs d (de_state_path de)"
      using r assms by (auto simp: WriteV1_def Let_def files_ok_def temp_ok_def WriteFileAtomic_other split: option.splits)
    then show ?thesis
      using step_outside [where fs' = fs' and de = de and d = d and sys = "dm_sys d" and b = "dm_persistCh d"
          and rs = "dm_restarts d"] r by (simp add: cfg_Write_def)
  qed
  then show ?thesis unfolding stays_def triple_def by (auto intro: daemon_more)
qed

lemma stays_lookup [stays_rules]: "stays de d0 (lookupWatcher de path)"
  unfolding lookupWatcher_def by (intro stays_rules)

lemma stays_restartWatcher: "stays de d0 (restartWatcher de path)"
  unfolding restartWatcher_def by (intro stays_rules)

lemma stays_match [stays_rules]: "stays de d0 (matchConfiguredRepo de repos path)"
  unfolding matchConfiguredRepo_def by (intro stays_rules)

lemma stays_SyncNow [stays_rules]: "stays de d0 (SyncNow de path force)"
  unfolding SyncNow_def by (intro stays_rules)

lemma stays_SetPaused [stays_rules]: "stays de d0 (SetPaused_daemon de path paused)"
  unfolding SetPaused_daemon_def set_paused_at_def emit_daemon_def by (intro stays_rules)

lemma stays_AbortRebase [stays_rules]: "stays de d0 (AbortRebase de path)"
  unfolding AbortRebase_def abort_locked_def by (intro stays_rules)

lemma stays_readRepoSettings [stays_rules]: "stays de d0 (readRepoSettings de path)"
  unfolding readRepoSettings_def by (intro stays_rules)

lemma stays_write_settings [stays_rules]: "stays de d0 (write_settings de key vs names)"
  by (induction de key vs names rule: write_settings.induct)
    (auto simp: runGitConfig_def intro!: stays_rules split: option.split)

lemma stays_writeRepoSettings [stays_rules]: "stays de d0 (writeRepoSettings de path settings)"
  unfolding writeRepoSettings_def by (intro stays_rules)

lemma stays_canonicalRepo [stays_rules]: "stays de d0 (canonicalRepo de repo)"
  unfolding canonicalRepo_def by (intro stays_rules)

lemma stays_answer [stays_rules]: "stays de d0 m \<Longrightarrow> stays de d0 (answer_command de repo status m)"
  unfolding answer_command_def by (intro stays_rules)

lemma stays_AddRepo: "files_ok de \<Longrightarrow> stays de d0 (AddRepo de path)"
  unfolding AddRepo_def by (intro stays_rules stays_cfg_Write)

lemma stays_RemoveRepo: "files_ok de \<Longrightarrow> stays de d0 (RemoveRepo de path)"
  unfolding RemoveRepo_def by (intro stays_rules stays_cfg_Write)

lemma stays_HandleCommand: "files_ok de \<Longrightarrow> stays de d0 (HandleCommand de log req)"
  unfolding HandleCommand_def handle_repo_def SyncAll_def SetAllPaused_def
  by (intro stays_rules stays_AddRepo stays_RemoveRepo)

lemma stays_network_tick: "stays de d0 (network_tick de prev cur)"
  unfolding network_tick_def retryOffline_def by (intro stays_rules)

section \<open>What the answers look like\<close>

definition wf_response :: "response \<Rightarrow> bool" where
  "wf_response r \<longleftrightarrow>
     (if rp_OK r then rp_Result r \<noteq> None \<and> rp_Error r = [] \<and> rp_Code r = [] else rp_Result r = None \<and> rp_Code r \<noteq> [])"

definition gives :: "('a \<Rightarrow> bool) \<Rightarrow> ('s, 'a) state \<Rightarrow> bool" where
  "gives P m \<longleftrightarrow> (\<forall>s. P (fst (run_state m s)))"

lemma gives_return [gives_rules]: "P x \<Longrightarrow> gives P (State_Monad.return x)"
  by (simp add: gives_def)

lemma gives_ask [gives_rules]: "(\<And>s. P (g s)) \<Longrightarrow> gives P (ask g)"
  by (simp add: gives_def)

lemma gives_bind [gives_rules]: "(\<And>x. gives P (k x)) \<Longrightarrow> gives P (State_Monad.bind m k)"
  by (simp add: gives_def split: prod.split)

lemma gives_if [gives_rules]: "(b \<Longrightarrow> gives P m) \<Longrightarrow> (\<not> b \<Longrightarrow> gives P n) \<Longrightarrow> gives P (if b then m else n)"
  by simp

lemma gives_option [gives_rules]:
  "gives P n \<Longrightarrow> (\<And>y. gives P (k y)) \<Longrightarrow> gives P (case x of None \<Rightarrow> n | Some y \<Rightarrow> k y)"
  by (cases x) auto

lemma gives_prod [gives_rules]: "(\<And>a b. gives P (k a b)) \<Longrightarrow> gives P (case p of (a, b) \<Rightarrow> k a b)"
  by (cases p) auto

lemma wf_responses [simp]: "wf_response (OKResponse r)" "wf_response (commandOK status repo)" "wf_response (errResponse e)"
  "code \<noteq> [] \<Longrightarrow> wf_response (ErrResponse code msg)"
  by (simp_all add: wf_response_def OKResponse_def commandOK_def errResponse_def ErrResponse_def)

lemma gives_answer [gives_rules]: "gives wf_response (answer_command de repo status m)"
  unfolding answer_command_def by (intro gives_rules) simp_all

lemma gives_handle_repo [gives_rules]: "gives wf_response (handle_repo de req repo)"
  unfolding handle_repo_def
  by (intro gives_rules) (simp_all split: option.split sum.split)

lemma gives_HandleCommand: "gives wf_response (HandleCommand de log req)"
  unfolding HandleCommand_def by (intro gives_rules) simp_all

definition known_commands :: "string list" where
  "known_commands = [CmdStatus, CmdList, CmdVersion, CmdEvents, CmdSyncAll, CmdPauseAll, CmdResumeAll, CmdSubscribe] @ repo_commands"

lemmas command_names = CmdStatus_def CmdList_def CmdAdd_def CmdRemove_def CmdSyncNow_def CmdSyncAll_def CmdPause_def
  CmdResume_def CmdPauseAll_def CmdResumeAll_def CmdGetSettings_def CmdSetSettings_def CmdAbortRebase_def CmdEvents_def
  CmdSubscribe_def CmdVersion_def

section \<open>Running commands\<close>

lemma run_on_daemon [simp]:
  "run_state (on_daemon m) d = (fst (run_state m (dm_sys d)), d\<lparr>dm_sys := snd (run_state m (dm_sys d))\<rparr>)"
  by (simp add: on_daemon_def split_beta)

text \<open>A key of the map is found without running anything.\<close>

lemma lookupWatcher_key:
  assumes "map_of (dm_watchers d) key = Some n" and "key \<noteq> []"
  shows "run_state (lookupWatcher de key) d = (Some (key, n), d)"
  using assms by (simp add: lookupWatcher_def path_candidates_def)

lemma first_handle_Some: "first_handle w cs = Some (c, n) \<Longrightarrow> w c = Some n"
  by (induction cs) (auto split: option.splits)

lemma lookupWatcher_found:
  assumes "run_state (lookupWatcher de path) d = (Some (key, n), d1)"
  shows "map_of (dm_watchers d1) key = Some n \<and> dm_watchers d1 = dm_watchers d \<and> dm_handles d1 = dm_handles d"
  using assms
  by (auto simp: lookupWatcher_def Let_def dest!: first_handle_Some split: if_splits option.splits sum.splits)


lemma daemon_inv_sys: "daemon_inv (d\<lparr>dm_sys := s\<rparr>) = daemon_inv d" "daemon_inv (d\<lparr>dm_fs := fs\<rparr>) = daemon_inv d"
  "daemon_inv (upd_store f d) = daemon_inv d"
  by (simp_all add: daemon_inv_def upd_store_def)

lemma run_cfg_Write: "\<exists>ok fs. run_state (cfg_Write de config) d = (ok, d\<lparr>dm_fs := fs\<rparr>)"
  by (auto simp: cfg_Write_def split: prod.split)

lemma uniqueRepos_covers:
  assumes "rp \<in> set repos"
  shows "\<exists>p \<in> set (uniqueRepos de w repos). ResolvePath (de_paths de) w p = ResolvePath (de_paths de) w rp"
proof -
  have "ResolvePath (de_paths de) w rp \<in> ResolvePath (de_paths de) w ` set (uniqueRepos de w repos)"
    using unique_loop_spec [of "ResolvePath (de_paths de) w" repos "[]"] assms by (simp add: uniqueRepos_def)
  then show ?thesis by (metis imageE)
qed

lemma reconcile_covers:
  assumes "daemon_inv d" and "\<not> dm_cancelled d" and "distinct (map fst (dm_watchers d))" and "rp \<in> set (cfg_Repos config)"
    and "d' = reconcileWatchers de config d"
  shows "\<exists>p. map_of (dm_watchers d') p \<noteq> None \<and>
    ResolvePath (de_paths de) (dm_world d') p = ResolvePath (de_paths de) (dm_world d') rp"
  using uniqueRepos_covers [OF assms(4), of de "dm_world d"] reconcile_keys [OF assms(1-3), of de config]
  unfolding assms(5) world_reconcile by blast

section \<open>Properties\<close>

text \<open>
  Every command gets a proper answer, whatever the daemon's state and whatever git and the file system do:
  either a result and no error, or a non-empty error code and no result. An unknown command, a
  command on a repository without a repository or with a relative path change nothing and
  are refused with their own codes.
\<close>

theorem HandleCommand_answers:
  "wf_response (fst (run_state (HandleCommand de log req) d)) \<and>
   (rq_Cmd req \<notin> set known_commands \<longrightarrow> run_state (HandleCommand de log req) d =
      (ErrResponse CodeUnknownCmd (''unknown command: '' @ rq_Cmd req), d)) \<and>
   (rq_Cmd req \<in> set repo_commands \<and> rq_Repo req = [] \<longrightarrow> run_state (HandleCommand de log req) d =
      (ErrResponse CodeMissingRepo ''missing repo'', d)) \<and>
   (rq_Cmd req \<in> set repo_commands \<and> rq_Repo req \<noteq> [] \<and> \<not> is_abs (rq_Repo req) \<longrightarrow> run_state (HandleCommand de log req) d =
      (ErrResponse CodeBadRequest (''repo must be an absolute path: '' @ rq_Repo req), d))"
proof (intro conjI impI)
  show "wf_response (fst (run_state (HandleCommand de log req) d))"
    using gives_HandleCommand [of de log req] by (simp add: gives_def)
  have k: "rq_Cmd req \<in> set repo_commands \<Longrightarrow> rq_Cmd req \<notin> set [CmdStatus, CmdList] \<and> rq_Cmd req \<noteq> CmdVersion \<and>
      rq_Cmd req \<noteq> CmdEvents \<and> rq_Cmd req \<noteq> CmdSyncAll \<and> rq_Cmd req \<noteq> CmdPauseAll \<and> rq_Cmd req \<noteq> CmdResumeAll \<and>
      rq_Cmd req \<noteq> CmdSubscribe"
    by (auto simp: repo_commands_def command_names)
  show "run_state (HandleCommand de log req) d = (ErrResponse CodeUnknownCmd (''unknown command: '' @ rq_Cmd req), d)"
    if "rq_Cmd req \<notin> set known_commands"
    using that by (simp add: HandleCommand_def known_commands_def)
  show "run_state (HandleCommand de log req) d = (ErrResponse CodeMissingRepo ''missing repo'', d)"
    if "rq_Cmd req \<in> set repo_commands \<and> rq_Repo req = []"
    using that k by (simp add: HandleCommand_def)
  show "run_state (HandleCommand de log req) d =
      (ErrResponse CodeBadRequest (''repo must be an absolute path: '' @ rq_Repo req), d)"
    if "rq_Cmd req \<in> set repo_commands \<and> rq_Repo req \<noteq> [] \<and> \<not> is_abs (rq_Repo req)"
    using that k by (simp add: HandleCommand_def)
qed

theorem HandleCommand_answers_witness:
  "wf_response (fst (run_state (HandleCommand demo_daemon_env None (subscribe_request\<lparr>rq_Cmd := ''x''\<rparr>)) demo_daemon)) \<and>
   rp_Code (fst (run_state (HandleCommand demo_daemon_env None (subscribe_request\<lparr>rq_Cmd := ''x''\<rparr>)) demo_daemon)) = CodeUnknownCmd \<and>
   rp_Code (fst (run_state (HandleCommand demo_daemon_env None (subscribe_request\<lparr>rq_Cmd := CmdAdd\<rparr>)) demo_daemon)) = CodeMissingRepo"
proof -
  let ?x = "subscribe_request\<lparr>rq_Cmd := ''x''\<rparr>" and ?a = "subscribe_request\<lparr>rq_Cmd := CmdAdd\<rparr>"
  have "rq_Cmd ?x \<notin> set known_commands" "rq_Cmd ?a \<in> set repo_commands \<and> rq_Repo ?a = []"
    by (simp_all add: known_commands_def repo_commands_def command_names subscribe_request_def)
  then show ?thesis
    using HandleCommand_answers [of demo_daemon_env None ?x demo_daemon] HandleCommand_answers [of demo_daemon_env None ?a demo_daemon]
    by (auto simp: ErrResponse_def wf_response_def)
qed

text \<open>
  C22. Commands, and the retries when the network changes, do to the daemon only what its steps do: a state
  reached with them can be reached by steps. So what holds in every reachable state (one
  watcher for each repository, the state file) holds whatever the clients send.
\<close>

theorem commands_are_steps:
  assumes "files_ok de" and "daemon_reachable de d0 d"
  shows "daemon_reachable de d0 (snd (run_state (HandleCommand de log req) d)) \<and>
    daemon_reachable de d0 (snd (run_state (restartWatcher de path) d)) \<and>
    daemon_reachable de d0 (snd (run_state (network_tick de prev cur) d))"
  using tripleD [OF stays_HandleCommand [OF assms(1), of d0 log req, unfolded stays_def] assms(2)]
    tripleD [OF stays_restartWatcher [of de d0 path, unfolded stays_def] assms(2)]
    tripleD [OF stays_network_tick [of de d0 prev cur, unfolded stays_def] assms(2)] by blast

theorem commands_are_steps_witness:
  "daemon_reachable demo_daemon_env (init demo_sys Map.empty)
     (snd (run_state (HandleCommand demo_daemon_env None (subscribe_request\<lparr>rq_Cmd := CmdPauseAll\<rparr>)) demo_daemon))"
proof -
  have "files_ok demo_daemon_env" by (simp add: files_ok_def temp_ok_def demo_daemon_env_def)
  then show ?thesis using commands_are_steps [OF _ demo_daemon_reachable] by blast
qed

text \<open>
  C23. Pausing and resuming. Both set the flag that the watcher reads and the state that clients see, and
  emit one event, or none if nothing changes; resuming a paused repository starts a sync, and syncing
  a paused one is refused, with no effect.
\<close>

theorem SetPaused_spec:
  assumes "daemon_reachable de (init sys fs) d" and "run_state (lookupWatcher de path) d = (Some (key, n), d1)" and "key \<noteq> []"
    and "run_state (SetPaused_daemon de path paused) d = (err, d')" and "was = hd_paused (dm_handles d ! n)"
  shows "err = None \<and> hd_paused (dm_handles d' ! n) = paused \<and> st_Paused (current (dm_store d') key) = paused \<and>
    (\<exists>now. sy_events (dm_sys d') = sy_events (dm_sys d1) @
       (if was = paused then []
        else [if paused then NewEvent now EventPaused key [] StatusPaused else NewEvent now EventResumed key [] []])) \<and>
    (was \<and> \<not> paused \<longrightarrow> hd_immediate (dm_handles d' ! n)) \<and>
    (paused \<longrightarrow> run_state (SyncNow de key force) d' =
       (Some (CodedError CodeBadRequest (''sync skipped: '' @ key @ '' is paused'')), d'))"
proof -
  note l = lookupWatcher_found [OF assms(2)]
  have "daemon_inv d" by (rule daemon_inv_reachable [OF assms(1)])
  then have n: "n < length (dm_handles d1)" using l unfolding daemon_inv_def names_inv_def by auto
  let ?e = "if paused then EventPaused else EventResumed" and ?s = "if paused then StatusPaused else []"
  let ?d2 = "upd_store (\<lambda>st. SetPaused st key paused) (upd_handle n (\<lambda>h. h\<lparr>hd_paused := paused\<rparr>) d1)"
  let ?now = "now_unix (de_env de) (dm_sys ?d2)"
  let ?d3 = "?d2\<lparr>dm_sys := (dm_sys ?d2)\<lparr>sy_events := sy_events (dm_sys ?d2) @ [NewEvent ?now ?e key [] ?s]\<rparr>\<rparr>"
  have r: "err = None" "d' = (if was = paused then ?d2 else if paused then ?d3 else kick n ?d3)"
    using assms(2,4,5) l by (auto simp: SetPaused_daemon_def set_paused_at_def emit_daemon_def split: if_splits)
  have p: "hd_paused (dm_handles d' ! n) = paused" "map_of (dm_watchers d') key = Some n"
    "current (dm_store d') key = current (SetPaused (dm_store d1) key paused) key"
    using n l r(2) by (auto simp: upd_store_def upd_handle_def kick_def dm_store_def)
  have "st_Paused (current (dm_store d') key) = paused" unfolding p(3) by (simp add: SetPaused_def current_Update Let_def)
  moreover have "\<exists>now. sy_events (dm_sys d') = sy_events (dm_sys d1) @
       (if was = paused then []
        else [if paused then NewEvent now EventPaused key [] StatusPaused else NewEvent now EventResumed key [] []])"
    using r(2) by (intro exI [of _ ?now]) (auto simp: upd_store_def upd_handle_def kick_def)
  moreover have "was \<and> \<not> paused \<longrightarrow> hd_immediate (dm_handles d' ! n)"
    using n r(2) by (auto simp: upd_store_def upd_handle_def kick_def)
  moreover have "paused \<longrightarrow> run_state (SyncNow de key force) d' =
       (Some (CodedError CodeBadRequest (''sync skipped: '' @ key @ '' is paused'')), d')"
    using lookupWatcher_key [OF p(2) assms(3), of de] p(1) by (simp add: SyncNow_def)
  ultimately show ?thesis using r(1) p(1) by blast
qed

theorem SetPaused_spec_witness:
  "\<exists>d'. run_state (SetPaused_daemon demo_daemon_env ''/r/'' True) demo_daemon = (None, d') \<and> hd_paused (dm_handles d' ! 1) \<and>
     fst (run_state (SyncNow demo_daemon_env ''/r'' False) d') =
       Some (CodedError CodeBadRequest (''sync skipped: '' @ ''/r'' @ '' is paused''))"
proof -
  obtain err d' where r: "run_state (SetPaused_daemon demo_daemon_env ''/r/'' True) demo_daemon = (err, d')" by (metis surj_pair)
  obtain d1 where l: "run_state (lookupWatcher demo_daemon_env ''/r/'') demo_daemon = (Some (''/r'', 1), d1)"
  proof -
    have "fst (run_state (lookupWatcher demo_daemon_env ''/r/'') demo_daemon) = Some (''/r'', 1)" by code_simp
    then show ?thesis using that by (metis prod.collapse)
  qed
  show ?thesis using SetPaused_spec [OF demo_daemon_reachable l _ r refl, of False] r by simp
qed

text \<open>
  What the lack of a lock between the lookup and the change allows: if the watcher is restarted in
  between (a client saves settings while another one pauses), the pause reaches the old watcher, and the new one, which
  read the state before, goes on syncing a repository that is shown as paused.
\<close>

theorem pause_missed_by_restart:
  assumes "daemon_inv d" and "map_of (dm_watchers d) key = Some n" and "\<not> dm_cancelled d"
    and "\<not> st_Paused (current (dm_store d) key)"
    and "d' = snd (run_state (set_paused_at de key n True) (restart_key key d))"
  shows "\<exists>m. map_of (dm_watchers d') key = Some m \<and> \<not> hd_paused (dm_handles d' ! m) \<and> st_Paused (current (dm_store d') key)"
proof -
  let ?d1 = "restart_key key d" and ?m = "length (dm_handles d)"
  have n: "n < ?m" using assms(1,2) unfolding daemon_inv_def names_inv_def by blast
  have d1: "map_of (dm_watchers ?d1) key = Some ?m" "length (dm_handles ?d1) = Suc ?m" "\<not> hd_paused (dm_handles ?d1 ! ?m)"
    using assms(2-4)
    by (simp_all add: restart_key_def restart_locked_def startWatcherLocked_def stopWatcherLocked_def upd_handle_def
        upd_store_def dm_store_def Let_def Get_Ensure nth_append)
  have h: "dm_watchers d' = dm_watchers ?d1" "dm_handles d' ! ?m = dm_handles ?d1 ! ?m"
    "current (dm_store d') key = current (SetPaused (dm_store ?d1) key True) key"
    using assms(5) n
    by (auto simp: set_paused_at_def emit_daemon_def upd_handle_def upd_store_def dm_store_def split: if_splits)
  have "st_Paused (current (dm_store d') key)" unfolding h(3) by (simp add: SetPaused_def current_Update Let_def)
  then show ?thesis using d1 h(1,2) by auto
qed

text \<open>
  Adding a repository. Whenever \<open>AddRepo\<close> names a repository, because it added it or because it was there before,
  that folder is watched afterwards, under this name or another one.
\<close>

theorem AddRepo_watches:
  assumes "daemon_reachable de (init sys fs) d" and "\<not> dm_cancelled d"
    and "run_state (AddRepo de path) d = ((root, err), d')" and "root \<noteq> []"
  shows "\<exists>p. map_of (dm_watchers d') p \<noteq> None \<and>
    ResolvePath (de_paths de) (dm_world d') p = ResolvePath (de_paths de) (dm_world d') root"
proof -
  obtain found s1 where rr: "run_state (RepoRoot (de_env de) (de_paths de) path) (dm_sys d) = (found, s1)" by (metis surj_pair)
  let ?d1 = "d\<lparr>dm_sys := s1\<rparr>"
  have inv: "daemon_inv d" by (rule daemon_inv_reachable [OF assms(1)])
  have dist: "distinct (map fst (dm_watchers d))" by (rule distinct_reachable [OF assms(1)])
  obtain r where r: "found = Inr r" using assms(3,4) rr by (cases found) (auto simp: AddRepo_def)
  obtain c where c: "cfg_Read de ?d1 = Some c" using assms(3,4) rr r by (cases "cfg_Read de ?d1") (auto simp: AddRepo_def)
  let ?old = "find (\<lambda>rp. rp = r \<or> ResolvePath (de_paths de) (dm_world ?d1) rp = r) (cfg_Repos c)"
  show ?thesis
  proof (cases ?old)
    case (Some rp)
    then have "root = rp" "d' = reconcileWatchers de c ?d1" using assms(3) rr r c by (auto simp: AddRepo_def)
    moreover have "rp \<in> set (cfg_Repos c)" using Some by (simp add: find_Some_iff) (metis nth_mem)
    ultimately show ?thesis
      using reconcile_covers [of ?d1 rp c d' de] inv dist assms(2) by (simp add: daemon_inv_sys)
  next
    case None
    let ?c = "c\<lparr>cfg_Repos := cfg_Repos c @ [r]\<rparr>"
    obtain ok fs2 where w: "run_state (cfg_Write de ?c) ?d1 = (ok, ?d1\<lparr>dm_fs := fs2\<rparr>)" using run_cfg_Write by blast
    then have "root = r" "d' = reconcileWatchers de ?c (upd_store (\<lambda>st. Ensure st r) (?d1\<lparr>dm_fs := fs2\<rparr>))"
      using assms(3,4) rr r c None by (auto simp: AddRepo_def Let_def split: if_splits)
    then show ?thesis
      using reconcile_covers [of "upd_store (\<lambda>st. Ensure st r) (?d1\<lparr>dm_fs := fs2\<rparr>)" r ?c d' de] inv dist assms(2)
      by (simp add: daemon_inv_sys) (simp add: upd_store_def)
  qed
qed

theorem AddRepo_watches_witness:
  "\<exists>p. map_of (dm_watchers (snd (run_state (AddRepo demo_daemon_env ''/r'') demo_daemon))) p \<noteq> None"
proof -
  let ?r = "run_state (AddRepo demo_daemon_env ''/r'') demo_daemon"
  have "\<not> dm_cancelled demo_daemon" "fst ?r = (''.'', None)" by code_simp+
  then show ?thesis
    using AddRepo_watches [OF demo_daemon_reachable, of "''/r''" "''.''" None "snd ?r"] by (metis prod.collapse list.distinct(1))
qed

text \<open>
  Settings are checked before any of them is written: if one of the values given is not valid, the
  request fails, git is not run, and nothing of the daemon changes after the repository has been looked up.
\<close>

theorem writeRepoSettings_checks_first:
  assumes "run_state (lookupWatcher de path) d = (Some (key, n), d1)" and "(name, v) \<in> set settings"
    and "ValidateSetting (en_quote (de_env de)) (en_stat (de_env de) (dm_world d1)) name v = Inl e"
  shows "\<exists>e'. run_state (writeRepoSettings de path settings) d = (Some e', d1)"
proof -
  have "\<exists>e'. validate_all (en_quote (de_env de)) (en_stat (de_env de) (dm_world d1)) settings = Inl e'"
    using assms(2,3) by (induction settings) (auto split: sum.splits)
  then obtain e' where v: "validate_all (en_quote (de_env de)) (en_stat (de_env de) (dm_world d1)) settings = Inl e'" by blast
  have "settings \<noteq> []" using assms(2) by auto
  then show ?thesis
    using assms(1) v by (cases "repoMissingError de key d1") (simp_all add: writeRepoSettings_def)
qed

theorem writeRepoSettings_checks_first_witness:
  "\<exists>e'. run_state (writeRepoSettings demo_daemon_env ''/r'' [(''exec'', ''/git''), (''pollInterval'', ''5'')]) demo_daemon =
     (Some e', demo_daemon)"
proof -
  have "map_of (dm_watchers demo_daemon) ''/r'' = Some 1" by code_simp
  then have l: "run_state (lookupWatcher demo_daemon_env ''/r'') demo_daemon = (Some (''/r'', 1), demo_daemon)"
    by (simp add: lookupWatcher_key)
  have "isl (ValidateSetting (en_quote (de_env demo_daemon_env))
      (en_stat (de_env demo_daemon_env) (dm_world demo_daemon)) ''pollInterval'' ''5'')" by code_simp
  then obtain e where "ValidateSetting (en_quote (de_env demo_daemon_env))
      (en_stat (de_env demo_daemon_env) (dm_world demo_daemon)) ''pollInterval'' ''5'' = Inl e" by (auto simp: isl_def)
  then show ?thesis by (intro writeRepoSettings_checks_first [OF l, of "''pollInterval''" "''5''"]) simp_all
qed

end
