(* ===== verification/Cli.thy ===== *)
theory Cli
  imports Service CliText Commands
begin

text \<open>
  \<open>daemon.go\<close> and the actions of \<open>main.go\<close>: the commands that talk to the daemon, and what they do by
  themselves when it does not run.

  A command runs on the \<open>console\<close> of \<open>Service\<close>. The record \<open>cli_env\<close> holds its parameters: git and the file
  system, the service package, the codecs, and the connection to the daemon, which is what the client of \<open>SocketClient\<close>
  gets to read when it sends a request, and what the daemon meanwhile does to the world and to the files. Flags and arguments, which
  \<open>urfave/cli\<close> parses, are arguments.
\<close>

section \<open>Errors\<close>

datatype cli_error = Go goerror | Client client_error | TracedC cli_error | ExitStatus int

definition ErrIncompatibleDaemon_text :: string where
  "ErrIncompatibleDaemon_text =
     ''the running daemon is an older version; install the matching daemon (`just install`) and run `git-auto-sync daemon restart`''"

fun client_error_text :: "(string \<Rightarrow> string) \<Rightarrow> client_error \<Rightarrow> string" where
  "client_error_text q ErrIncompatibleDaemon = ErrIncompatibleDaemon_text"
| "client_error_text q (IDMismatch sent got) = ''response id mismatch: sent '' @ q sent @ '', got '' @ q got"
| "client_error_text q (NotHello got) = ''expected hello frame, got '' @ q got"
| "client_error_text q (Coded _ msg) = msg"
| "client_error_text q EmptyResult = ''empty result''"
| "client_error_text q ClientEOF = ''EOF''"
| "client_error_text q LineTooLong = ''bufio.Scanner: token too long''"
| "client_error_text q (ClientIO msg) = msg"
| "client_error_text q (DecodeFailed msg) = msg"

fun cli_error_text :: "(string \<Rightarrow> string) \<Rightarrow> cli_error \<Rightarrow> string" where
  "cli_error_text q (Go e) = error_text e"
| "cli_error_text q (Client e) = client_error_text q e"
| "cli_error_text q (TracedC e) = cli_error_text q e"
| "cli_error_text q (ExitStatus _) = []"

definition errDaemonNotRunning :: cli_error where
  "errDaemonNotRunning = Go (Plain ''the daemon is not running (start it with `git-auto-sync daemon start`)'')"

section \<open>Parameters\<close>

type_synonym connection = "client_env \<times> string \<times> string option"

record 'w cli_env =
  xe_env :: "'w env"
  xe_paths :: "'w path_env"
  xe_api :: "'w service_api"
  xe_places :: places
  xe_cfg_path :: "string option"
  xe_cfg_dec :: "string \<Rightarrow> config_v1 option"
  xe_cfg_enc :: "config_v1 \<Rightarrow> string option"
  xe_cfg_error :: "'w \<Rightarrow> goerror" \<comment> \<open>the error when \<open>cfg.Read\<close> or \<open>cfg.Write\<close> fails\<close>
  xe_readable :: "'w \<Rightarrow> string \<Rightarrow> bool"
  xe_atomic :: "'w \<Rightarrow> atomic_env"
  xe_connect :: "socket_request \<Rightarrow> 'w \<Rightarrow> filesystem \<Rightarrow> connection \<times> 'w \<times> filesystem"
  xe_status_dec :: "string \<Rightarrow> client_error + status_result"
  xe_command_dec :: "string \<Rightarrow> client_error option \<times> string \<times> string" \<comment> \<open>the error, the fields \<open>status\<close> and \<open>repo\<close>\<close>
  xe_events_dec :: "string \<Rightarrow> client_error + event list \<times> u64"
  xe_event_dec :: "string \<Rightarrow> event option"
  xe_json_check :: "string \<Rightarrow> client_error option" \<comment> \<open>the error of \<open>json.Unmarshal\<close> into an \<open>interface{}\<close>\<close>
  xe_json_print :: "printed \<Rightarrow> goerror option" \<comment> \<open>the error of printing it\<close>
  xe_time :: "int \<Rightarrow> string" \<comment> \<open>\<open>Format\<close> in the local time zone\<close>

definition on_console :: "('w sys, 'a) state \<Rightarrow> ('w console, 'a) state" where
  "on_console m = State (\<lambda>s. case run_state m (co_sys s) of (x, y) \<Rightarrow> (x, s\<lparr>co_sys := y\<rparr>))"

definition cli_read :: "'w cli_env \<Rightarrow> 'w console \<Rightarrow> string \<Rightarrow> read_result" where
  "cli_read xe s path = (if xe_readable xe (co_world s) path then read_fs (co_fs s) path else ReadFailed)"

definition cli_config :: "'w cli_env \<Rightarrow> 'w console \<Rightarrow> config_v1 option" where
  "cli_config xe s = ReadV1 (xe_cfg_dec xe) (xe_cfg_path xe) (cli_read xe s)"

text \<open>\<open>cfg.Read\<close> and \<open>cfg.Write\<close> with the error wrapped, as every caller does.\<close>

definition cfg_Read_cli :: "'w cli_env \<Rightarrow> ('w console, cli_error + config_v1) state" where
  "cfg_Read_cli xe =
     ask (\<lambda>s. case cli_config xe s of Some c \<Rightarrow> Inr c | None \<Rightarrow> Inl (TracedC (Go (xe_cfg_error xe (co_world s)))))"

definition cfg_Write_cli :: "'w cli_env \<Rightarrow> config_v1 \<Rightarrow> ('w console, cli_error option) state" where
  "cfg_Write_cli xe config = State (\<lambda>s.
     case WriteV1 (xe_cfg_enc xe) (xe_cfg_path xe) (xe_atomic xe (co_world s)) (co_fs s) config of
       (ok, fs) \<Rightarrow> (if ok then None else Some (TracedC (Go (xe_cfg_error xe (co_world s)))), s\<lparr>co_fs := fs\<rparr>))"

section \<open>Calling the daemon\<close>

datatype daemon_state = daemonDown | daemonOutdated | daemonUp

text \<open>
  The results of \<open>callDaemon\<close>: there is a response exactly when the daemon is up and the error nil, and
  an error only when it is up.
\<close>

datatype call_result = NoDaemon daemon_state | CallError cli_error | Answer client_response

definition request :: "string \<Rightarrow> socket_request" where
  "request cmd = subscribe_request\<lparr>rq_Cmd := cmd\<rparr>"

definition connect :: "'w cli_env \<Rightarrow> socket_request \<Rightarrow> ('w console, connection) state" where
  "connect xe req = State (\<lambda>s.
     case xe_connect xe req (co_world s) (co_fs s) of (conn, w, fs) \<Rightarrow> (conn, (set_world w s)\<lparr>co_fs := fs\<rparr>))"

definition callDaemon :: "'w cli_env \<Rightarrow> socket_request \<Rightarrow> ('w console, call_result) state" where
  "callDaemon xe req =
     do {
       (ce, input, ends) \<leftarrow> connect xe req;
       State_Monad.return
         (case NewSocketClient ce input ends of
            Inl _ \<Rightarrow> NoDaemon daemonDown
          | Inr c \<Rightarrow>
              (case fst (SendCommand ce req c) of
                 Inl ErrIncompatibleDaemon \<Rightarrow> NoDaemon daemonOutdated
               | Inl e \<Rightarrow> CallError (Client e)
               | Inr resp \<Rightarrow> Answer resp))
     }"

text \<open>
  \<open>err == nil && state == daemonUp\<close> after the error of the response was taken into account, with the
  response; otherwise the state and the error.
\<close>

definition reachable :: "call_result \<Rightarrow> (daemon_state \<times> cli_error option) + client_response" where
  "reachable r =
     (case r of
        NoDaemon state \<Rightarrow> Inl (state, None)
      | CallError e \<Rightarrow> Inl (daemonUp, Some e)
      | Answer resp \<Rightarrow>
          (case Err_response resp of Some e \<Rightarrow> Inl (daemonUp, Some (Client e)) | None \<Rightarrow> Inr resp))"

definition mustDaemon :: "'w cli_env \<Rightarrow> socket_request \<Rightarrow> ('w console, cli_error + client_response) state" where
  "mustDaemon xe req =
     do {
       r \<leftarrow> callDaemon xe req;
       State_Monad.return
         (case r of
            CallError e \<Rightarrow> Inl e
          | NoDaemon state \<Rightarrow> Inl (if state = daemonDown then errDaemonNotRunning else Client ErrIncompatibleDaemon)
          | Answer resp \<Rightarrow> (case Err_response resp of Some e \<Rightarrow> Inl (Client e) | None \<Rightarrow> Inr resp))
     }"

section \<open>Status and list\<close>

definition printJSON :: "'w cli_env \<Rightarrow> printed \<Rightarrow> ('w console, cli_error option) state" where
  "printJSON xe v =
     (case xe_json_print xe v of
        Some e \<Rightarrow> State_Monad.return (Some (Go e))
      | None \<Rightarrow> do { print_out v; State_Monad.return None })"

definition printRawJSON :: "'w cli_env \<Rightarrow> string \<Rightarrow> ('w console, cli_error option) state" where
  "printRawJSON xe raw =
     (case xe_json_check xe raw of
        Some e \<Rightarrow> State_Monad.return (Some (Client e))
      | None \<Rightarrow> printJSON xe (JsonRaw raw))"

definition is_not_installed :: "goerror \<Rightarrow> bool" where
  "is_not_installed e \<longleftrightarrow> Plain not_installed \<in> set (chain e) \<or> contains (error_text e) ''not installed''"

definition serviceStatusLine :: "'w cli_env \<Rightarrow> 'w \<Rightarrow> string" where
  "serviceStatusLine xe w =
     (case NewService (xe_places xe) (xe_api xe) of
        Inl e \<Rightarrow> ''service status unavailable: '' @ error_text e
      | Inr _ \<Rightarrow>
          (case sa_status (xe_api xe) w of
             (_, Some e) \<Rightarrow>
               if is_not_installed e
               then ''git-auto-sync-daemon is not installed (run `git-auto-sync daemon add <repo>` or `git-auto-sync daemon enable`)''
               else ''git-auto-sync-daemon status is unknown: '' @ error_text e
           | (StatusRunning, None) \<Rightarrow> ''git-auto-sync-daemon is running''
           | (StatusStopped, None) \<Rightarrow> ''git-auto-sync-daemon is installed but not running''
           | (_, None) \<Rightarrow> ''git-auto-sync-daemon status is unknown''))"

definition daemonStatusName :: "daemon_state \<Rightarrow> cli_error option \<Rightarrow> string" where
  "daemonStatusName state err =
     (if err \<noteq> None then ''error''
      else if state = daemonOutdated then ''outdated''
      else if state = daemonDown then ''not_running''
      else ''running'')"

definition configuredRepoStates :: "string list \<Rightarrow> repo_state list" where
  "configuredRepoStates repos = map (\<lambda>rp. zero_state\<lparr>st_Path := rp, st_Status := ''unknown''\<rparr>) repos"

abbreviation cli_now :: "'w cli_env \<Rightarrow> 'w console \<Rightarrow> int" where
  "cli_now xe s \<equiv> en_now (xe_env xe) (co_world s)"

primrec print_lines :: "string list \<Rightarrow> ('w console, unit) state" where
  "print_lines [] = State_Monad.return ()"
| "print_lines (l # ls) = do { print_out (Out l); print_lines ls }"

definition print_table :: "'w cli_env \<Rightarrow> repo_state list \<Rightarrow> ('w console, unit) state" where
  "print_table xe repos =
     do { now \<leftarrow> ask (cli_now xe); print_out (OutTable (printRepoTable now repos)) }"

definition status_json :: "'w cli_env \<Rightarrow> daemon_state \<Rightarrow> cli_error option \<Rightarrow> ('w console, cli_error option) state" where
  "status_json xe state err =
     do {
       config \<leftarrow> cfg_Read_cli xe;
       case config of
         Inl e \<Rightarrow> State_Monad.return (Some e)
       | Inr c \<Rightarrow>
           do {
             line \<leftarrow> ask (\<lambda>s. serviceStatusLine xe (co_world s));
             perr \<leftarrow> printJSON xe (JsonDown (daemonStatusName state err) line (DefaultSocketPath (xe_places xe))
               (configuredRepoStates (cfg_Repos c)) (map_option (cli_error_text (en_quote (xe_env xe))) err));
             State_Monad.return (if perr \<noteq> None then perr else err)
           }
     }"

definition status_text :: "'w cli_env \<Rightarrow> daemon_state \<Rightarrow> cli_error option \<Rightarrow> ('w console, cli_error option) state" where
  "status_text xe state err =
     do {
       let path = DefaultSocketPath (xe_places xe);
       print_out (Out
         (if err \<noteq> None then ''daemon socket at '' @ path @ '' did not answer''
          else if state = daemonOutdated then ErrIncompatibleDaemon_text
          else ''daemon socket is not reachable at '' @ path));
       config \<leftarrow> cfg_Read_cli xe;
       case config of
         Inl e \<Rightarrow> State_Monad.return (Some e)
       | Inr c \<Rightarrow>
           do {
             print_lines (if cfg_Repos c = [] then [''No repos configured'']
               else ([CHR 0x0A] @ ''Configured repos:'') # map (\<lambda>rp. ''   '' @ rp) (cfg_Repos c));
             State_Monad.return err
           }
     }"

definition daemonStatus :: "'w cli_env \<Rightarrow> bool \<Rightarrow> ('w console, cli_error option) state" where
  "daemonStatus xe json =
     do {
       r \<leftarrow> callDaemon xe (request CmdStatus);
       if json
       then (case reachable r of
               Inr resp \<Rightarrow> printRawJSON xe (cr_Result resp)
             | Inl (state, err) \<Rightarrow> status_json xe state err)
       else do {
         line \<leftarrow> ask (\<lambda>s. serviceStatusLine xe (co_world s));
         print_out (Out line);
         case reachable r of
           Inr resp \<Rightarrow>
             (case Decode_response (xe_status_dec xe) resp of
                Inl e \<Rightarrow> State_Monad.return (Some (TracedC (Client e)))
              | Inr status \<Rightarrow>
                  do {
                    print_out (Out (''daemon '' @ sr_Version status @ '' (protocol '' @ itoa (sr_Protocol status) @ ''), socket '' @
                      DefaultSocketPath (xe_places xe) @ [CHR 0x0A]));
                    print_table xe (sr_Repos status);
                    State_Monad.return None
                  })
         | Inl (state, err) \<Rightarrow> status_text xe state err
       }
     }"

definition list_fallback :: "'w cli_env \<Rightarrow> bool \<Rightarrow> daemon_state \<Rightarrow> cli_error option \<Rightarrow> ('w console, cli_error option) state" where
  "list_fallback xe json state err =
     do {
       config \<leftarrow> cfg_Read_cli xe;
       case config of
         Inl e \<Rightarrow> State_Monad.return (Some e)
       | Inr c \<Rightarrow>
           if json
           then do {
             perr \<leftarrow> printJSON xe (JsonRepos (configuredRepoStates (cfg_Repos c)));
             State_Monad.return (if perr \<noteq> None then perr else err)
           }
           else do {
             print_out (ErrOut
               ((if err \<noteq> None then ''The daemon did not answer''
                 else if state = daemonOutdated then ErrIncompatibleDaemon_text
                 else ''The daemon is not running'') @ ''; showing configured repos.''));
             print_lines ((if cfg_Repos c = [] then [''No repos configured''] else []) @ cfg_Repos c);
             State_Monad.return err
           }
     }"

definition daemonList :: "'w cli_env \<Rightarrow> bool \<Rightarrow> ('w console, cli_error option) state" where
  "daemonList xe json =
     do {
       r \<leftarrow> callDaemon xe (request CmdList);
       case reachable r of
         Inr resp \<Rightarrow>
           (case Decode_response (xe_status_dec xe) resp of
              Inl e \<Rightarrow> State_Monad.return (Some (TracedC (Client e)))
            | Inr status \<Rightarrow>
                if json then printJSON xe (JsonRepos (sr_Repos status))
                else do { print_table xe (sr_Repos status); State_Monad.return None })
       | Inl (state, err) \<Rightarrow> list_fallback xe json state err
     }"

section \<open>Adding and removing repositories\<close>

definition repoArgs :: "string list \<Rightarrow> string list" where
  "repoArgs args = (if args = [] then [''.''] else args)"

text \<open>A loop over arguments that stops at the first error.\<close>

primrec for_args :: "('a \<Rightarrow> ('w console, cli_error option) state) \<Rightarrow> 'a list \<Rightarrow> ('w console, cli_error option) state" where
  "for_args f [] = State_Monad.return None"
| "for_args f (a # as) =
     do {
       err \<leftarrow> f a;
       case err of Some e \<Rightarrow> State_Monad.return (Some e) | None \<Rightarrow> for_args f as
     }"

definition containsPath :: "string list \<Rightarrow> string \<Rightarrow> bool" where
  "containsPath repos path = list_ex (\<lambda>rp. Clean rp = path) repos"

definition with_service ::
  "'w cli_env \<Rightarrow> ('w console, goerror option) state \<Rightarrow> ('w console, cli_error option) state" where
  "with_service xe act =
     (case NewService (xe_places xe) (xe_api xe) of
        Inl e \<Rightarrow> State_Monad.return (Some (TracedC (Go e)))
      | Inr _ \<Rightarrow> do { err \<leftarrow> act; State_Monad.return (map_option (\<lambda>e. TracedC (Go e)) err) })"

definition enable_service :: "'w cli_env \<Rightarrow> ('w console, cli_error option) state" where
  "enable_service xe =
     with_service xe (Enable (xe_places xe) (xe_api xe))"

definition add_answered :: "'w cli_env \<Rightarrow> string \<Rightarrow> client_response \<Rightarrow> ('w console, cli_error option) state" where
  "add_answered xe root resp =
     (if \<not> cr_OK resp then
        (if cr_Code resp = CodeAlreadyExists
         then do { print_out (Out (''Already monitoring '' @ root)); State_Monad.return None }
         else State_Monad.return (map_option Client (Err_response resp)))
      else
        case (if cr_Result resp = [] then (Some EmptyResult, [], []) else xe_command_dec xe (cr_Result resp)) of
          (err, status, repo) \<Rightarrow>
            let root' = (if err = None \<and> repo \<noteq> [] then repo else root)
            in do {
                 print_out (Out ((if status = CodeAlreadyExists then ''Already monitoring '' else ''Now monitoring '') @ root'));
                 State_Monad.return None
               })"

definition add_offline :: "'w cli_env \<Rightarrow> string \<Rightarrow> ('w console, cli_error option) state" where
  "add_offline xe root =
     do {
       config \<leftarrow> cfg_Read_cli xe;
       case config of
         Inl e \<Rightarrow> State_Monad.return (Some e)
       | Inr c \<Rightarrow>
           if containsPath (cfg_Repos c) root
           then do { print_out (Out (''Already monitoring '' @ root)); enable_service xe }
           else do {
             err \<leftarrow> cfg_Write_cli xe (c\<lparr>cfg_Repos := cfg_Repos c @ [root]\<rparr>);
             case err of
               Some e \<Rightarrow> State_Monad.return (Some e)
             | None \<Rightarrow> do { print_out (Out (''Now monitoring '' @ root)); enable_service xe }
           }
     }"

definition addRepo_cli :: "'w cli_env \<Rightarrow> string \<Rightarrow> ('w console, cli_error option) state" where
  "addRepo_cli xe arg =
     do {
       found \<leftarrow> on_console (RepoRoot (xe_env xe) (xe_paths xe) arg);
       case found of
         Inl e \<Rightarrow> State_Monad.return (Some (Go e))
       | Inr root \<Rightarrow>
           do {
             r \<leftarrow> callDaemon xe ((request CmdAdd)\<lparr>rq_Repo := root\<rparr>);
             case r of
               CallError e \<Rightarrow> State_Monad.return (Some (TracedC e))
             | Answer resp \<Rightarrow> add_answered xe root resp
             | NoDaemon _ \<Rightarrow> add_offline xe root
           }
     }"

definition daemonAdd :: "'w cli_env \<Rightarrow> string list \<Rightarrow> ('w console, cli_error option) state" where
  "daemonAdd xe args = for_args (addRepo_cli xe) (repoArgs args)"

definition resolveTracked :: "'w cli_env \<Rightarrow> string \<Rightarrow> string list \<Rightarrow> ('w console, cli_error + string) state" where
  "resolveTracked xe arg repos =
     do {
       absolute \<leftarrow> ask (\<lambda>s. Abs (xe_paths xe) (co_world s) arg);
       case absolute of
         Inl e \<Rightarrow> State_Monad.return (Inl (Go e))
       | Inr a0 \<Rightarrow>
           do {
             let a = Clean a0;
             resolved \<leftarrow> ask (\<lambda>s. ResolvePath (xe_paths xe) (co_world s) a);
             found \<leftarrow> on_console (RepoRoot (xe_env xe) (xe_paths xe) a);
             let candidates = [a, resolved] @ (case found of Inr root \<Rightarrow> [root] | Inl _ \<Rightarrow> []);
             State_Monad.return
               (case concat (map (\<lambda>c. filter (\<lambda>rp. Clean rp = c) repos) candidates) of
                  rp # _ \<Rightarrow> Inr rp
                | [] \<Rightarrow> Inl (Go (CodedError CodeNotFound (''not monitoring '' @ a @ '' (see `git-auto-sync daemon ls`)''))))
           }
     }"

definition remove_offline :: "'w cli_env \<Rightarrow> config_v1 \<Rightarrow> string \<Rightarrow> ('w console, cli_error option) state" where
  "remove_offline xe config target =
     do {
       let c = config\<lparr>cfg_Repos := filter (\<lambda>rp. rp \<noteq> target) (cfg_Repos config)\<rparr>;
       err \<leftarrow> cfg_Write_cli xe c;
       case err of
         Some e \<Rightarrow> State_Monad.return (Some e)
       | None \<Rightarrow>
           do {
             print_out (Out (''Stopped monitoring '' @ target));
             if cfg_Repos c \<noteq> [] then State_Monad.return None
             else
               (case NewService (xe_places xe) (xe_api xe) of
                  Inl e \<Rightarrow> State_Monad.return (Some (TracedC (Go e)))
                | Inr _ \<Rightarrow>
                    do {
                      derr \<leftarrow> Disable (xe_api xe);
                      (case derr of
                         Some e \<Rightarrow> print_out (ErrOut (''warning: could not disable the daemon: '' @ error_text e))
                       | None \<Rightarrow> State_Monad.return ());
                      State_Monad.return None
                    })
           }
     }"

definition removeRepo_cli :: "'w cli_env \<Rightarrow> string \<Rightarrow> ('w console, cli_error option) state" where
  "removeRepo_cli xe arg =
     do {
       config \<leftarrow> cfg_Read_cli xe;
       case config of
         Inl e \<Rightarrow> State_Monad.return (Some e)
       | Inr c \<Rightarrow>
           do {
             tracked \<leftarrow> resolveTracked xe arg (cfg_Repos c);
             case tracked of
               Inl e \<Rightarrow> State_Monad.return (Some e)
             | Inr target \<Rightarrow>
                 do {
                   r \<leftarrow> callDaemon xe ((request CmdRemove)\<lparr>rq_Repo := target\<rparr>);
                   case r of
                     CallError e \<Rightarrow> State_Monad.return (Some (TracedC e))
                   | Answer resp \<Rightarrow>
                       (case Err_response resp of
                          Some e \<Rightarrow> State_Monad.return (Some (Client e))
                        | None \<Rightarrow> do { print_out (Out (''Stopped monitoring '' @ target)); State_Monad.return None })
                   | NoDaemon _ \<Rightarrow> remove_offline xe c target
                 }
           }
     }"

definition daemonRm :: "'w cli_env \<Rightarrow> string list \<Rightarrow> ('w console, cli_error option) state" where
  "daemonRm xe args =
     (if args = [] then State_Monad.return (Some (Go (Plain ''usage: git-auto-sync daemon rm <repo> [repo...]'')))
      else for_args (removeRepo_cli xe) args)"

section \<open>Syncing and pausing\<close>

definition resolveRepoArg :: "'w cli_env \<Rightarrow> string \<Rightarrow> ('w console, cli_error + string) state" where
  "resolveRepoArg xe arg =
     do {
       config \<leftarrow> cfg_Read_cli xe;
       tracked \<leftarrow> (case config of Inr c \<Rightarrow> resolveTracked xe arg (cfg_Repos c) | Inl e \<Rightarrow> State_Monad.return (Inl e));
       case tracked of
         Inr rp \<Rightarrow> State_Monad.return (Inr rp)
       | Inl _ \<Rightarrow>
           do {
             found \<leftarrow> on_console (RepoRoot (xe_env xe) (xe_paths xe) arg);
             case found of
               Inr root \<Rightarrow> State_Monad.return (Inr root)
             | Inl _ \<Rightarrow>
                 ask (\<lambda>s. case Abs (xe_paths xe) (co_world s) arg of Inl e \<Rightarrow> Inl (Go e) | Inr a \<Rightarrow> Inr (Clean a))
           }
     }"

primrec resolve_all :: "'w cli_env \<Rightarrow> string list \<Rightarrow> ('w console, cli_error + string list) state" where
  "resolve_all xe [] = State_Monad.return (Inr [])"
| "resolve_all xe (arg # args) =
     do {
       r \<leftarrow> resolveRepoArg xe arg;
       case r of
         Inl e \<Rightarrow> State_Monad.return (Inl e)
       | Inr rp \<Rightarrow>
           do {
             rs \<leftarrow> resolve_all xe args;
             State_Monad.return (case rs of Inl e \<Rightarrow> Inl e | Inr rps \<Rightarrow> Inr (rp # rps))
           }
     }"

definition repoTargets :: "'w cli_env \<Rightarrow> string list \<Rightarrow> ('w console, cli_error + string list) state" where
  "repoTargets xe args = resolve_all xe (repoArgs args)"

text \<open>The body of the loops over targets, and of the commands for all repositories.\<close>

definition must_print :: "'w cli_env \<Rightarrow> socket_request \<Rightarrow> string \<Rightarrow> ('w console, cli_error option) state" where
  "must_print xe req msg =
     do {
       r \<leftarrow> mustDaemon xe req;
       case r of
         Inl e \<Rightarrow> State_Monad.return (Some e)
       | Inr _ \<Rightarrow> do { print_out (Out msg); State_Monad.return None }
     }"

definition for_targets ::
  "'w cli_env \<Rightarrow> string list \<Rightarrow> (string \<Rightarrow> ('w console, cli_error option) state) \<Rightarrow> ('w console, cli_error option) state" where
  "for_targets xe args f =
     do {
       targets \<leftarrow> repoTargets xe args;
       case targets of Inl e \<Rightarrow> State_Monad.return (Some e) | Inr rps \<Rightarrow> for_args f rps
     }"

definition daemonSync :: "'w cli_env \<Rightarrow> bool \<Rightarrow> bool \<Rightarrow> string list \<Rightarrow> ('w console, cli_error option) state" where
  "daemonSync xe all force args =
     (if all then must_print xe (request CmdSyncAll) ''Sync triggered for all repos''
      else for_targets xe args (\<lambda>rp.
        must_print xe ((request CmdSyncNow)\<lparr>rq_Repo := rp, rq_Force := force\<rparr>) (''Sync triggered for '' @ rp)))"

definition setPaused_cli :: "'w cli_env \<Rightarrow> bool \<Rightarrow> string list \<Rightarrow> bool \<Rightarrow> ('w console, cli_error option) state" where
  "setPaused_cli xe all args paused =
     (let verb = (if paused then ''Paused'' else ''Resumed'');
          cmd = (if paused then CmdPause else CmdResume);
          allCmd = (if paused then CmdPauseAll else CmdResumeAll)
      in if all then must_print xe (request allCmd) (verb @ '' all repos'')
         else for_targets xe args (\<lambda>rp. must_print xe ((request cmd)\<lparr>rq_Repo := rp\<rparr>) (verb @ '' '' @ rp)))"

section \<open>Events\<close>

definition event_line :: "'w cli_env \<Rightarrow> event \<Rightarrow> string" where
  "event_line xe ev =
     (let msg0 = (if ev_Message ev = [] then ev_Status ev else ev_Message ev);
          msg = (if ev_Code ev \<noteq> [] then msg0 @ '' ['' @ ev_Code ev @ '']'' else msg0)
      in xe_time xe (ev_Ts ev) @ ''  '' @ pad_right 9 (ev_Type ev) @ ''  '' @ pad_right 16 (Base (ev_Repo ev)) @ ''  '' @
         firstLine_cli msg)"

definition printEvent :: "'w cli_env \<Rightarrow> bool \<Rightarrow> event \<Rightarrow> printed" where
  "printEvent xe jsonOut ev = (if jsonOut then JsonEvent ev else Out (event_line xe ev))"

definition print_all :: "printed list \<Rightarrow> ('w console, unit) state" where
  "print_all ps = upd (\<lambda>s. s\<lparr>co_out := co_out s @ ps\<rparr>)"

text \<open>
  The loop of \<open>followEvents\<close>, with the events it prints; \<open>interrupted\<close> says whether the user had pressed Ctrl-C when
  reading failed. Every frame that is read is shorter than what there was to read.
\<close>

lemma readLine_client_shorter: "readLine_client c = (Inr line, c') \<Longrightarrow> length (cl_in c') < length (cl_in c)"
  by (auto simp: readLine_client_def Let_def split: if_splits)

definition shown :: "u64 \<Rightarrow> string \<Rightarrow> event \<Rightarrow> bool" where
  "shown after repo ev \<longleftrightarrow> \<not> (ev_ID ev \<le> after \<or> (repo \<noteq> [] \<and> ev_Repo ev \<noteq> repo))"

function follow_loop :: "(string \<Rightarrow> event option) \<Rightarrow> bool \<Rightarrow> string \<Rightarrow> u64 \<Rightarrow> client \<Rightarrow> cli_error option \<times> event list" where
  "follow_loop dec interrupted repo after c =
     (case ReadFrame c of
        (Inl e, _) \<Rightarrow>
          (if interrupted then None
           else if e = ClientEOF then Some (Go (Plain ''the daemon closed the connection''))
           else Some (Client e), [])
      | (Inr frame, c') \<Rightarrow>
          (case dec frame of
             None \<Rightarrow> follow_loop dec interrupted repo after c'
           | Some ev \<Rightarrow>
               if ev_ID ev = 0 then follow_loop dec interrupted repo after c'
               else if \<not> shown after repo ev then follow_loop dec interrupted repo after c'
               else
                 (case follow_loop dec interrupted repo after c' of (err, evs) \<Rightarrow> (err, ev # evs))))"
  by pat_completeness auto
termination
  by (relation "measure (\<lambda>(_, _, _, _, c). length (cl_in c))") (auto simp: ReadFrame_def dest: readLine_client_shorter [OF sym])

declare follow_loop.simps [simp del]

text \<open>What happened between the events that were shown before and the subscription.\<close>

definition follow_gap ::
  "'w cli_env \<Rightarrow> string \<Rightarrow> u64 \<Rightarrow> u64 \<Rightarrow> ('w console, cli_error + event list) state" where
  "follow_gap xe repo after lastID =
     (if after < lastID
      then do {
        r \<leftarrow> mustDaemon xe ((request CmdEvents)\<lparr>rq_Since := after, rq_Repo := repo\<rparr>);
        State_Monad.return
          (case r of
             Inl e \<Rightarrow> Inl e
           | Inr resp \<Rightarrow>
               (case Decode_response (xe_events_dec xe) resp of
                  Inl e \<Rightarrow> Inl (TracedC (Client e))
                | Inr (evs, _) \<Rightarrow> Inr (filter (\<lambda>ev. ev_ID ev \<le> lastID) evs)))
      }
      else State_Monad.return (Inr []))"

definition followEvents ::
  "'w cli_env \<Rightarrow> bool \<Rightarrow> bool \<Rightarrow> string \<Rightarrow> u64 \<Rightarrow> ('w console, cli_error option) state" where
  "followEvents xe interrupted jsonOut repo after =
     do {
       (ce, input, ends) \<leftarrow> connect xe subscribe_request;
       case NewSocketClient ce input ends of
         Inl _ \<Rightarrow> State_Monad.return (Some errDaemonNotRunning)
       | Inr c \<Rightarrow>
           (case Subscribe_client ce c of
              (Inl e, _) \<Rightarrow> State_Monad.return (Some (Client e))
            | (Inr hello, c') \<Rightarrow>
                do {
                  gap \<leftarrow> follow_gap xe repo after (hl_LastEventID hello);
                  case gap of
                    Inl e \<Rightarrow> State_Monad.return (Some e)
                  | Inr evs \<Rightarrow>
                      (case follow_loop (xe_event_dec xe) interrupted repo (max after (hl_LastEventID hello)) c' of
                         (err, news) \<Rightarrow>
                           do {
                             print_all (map (printEvent xe jsonOut) (evs @ news));
                             State_Monad.return err
                           })
                })
     }"

definition daemonEvents ::
  "'w cli_env \<Rightarrow> bool \<Rightarrow> int \<Rightarrow> bool \<Rightarrow> bool \<Rightarrow> string \<Rightarrow> ('w console, cli_error option) state" where
  "daemonEvents xe interrupted n follow json arg =
     do {
       target \<leftarrow> (if arg = [] then State_Monad.return (Inr []) else resolveRepoArg xe arg);
       case target of
         Inl e \<Rightarrow> State_Monad.return (Some e)
       | Inr rp \<Rightarrow>
           do {
             r \<leftarrow> mustDaemon xe ((request CmdEvents)\<lparr>rq_Limit := n, rq_Repo := rp\<rparr>);
             case r of
               Inl e \<Rightarrow> State_Monad.return (Some e)
             | Inr resp \<Rightarrow>
                 (case Decode_response (xe_events_dec xe) resp of
                    Inl e \<Rightarrow> State_Monad.return (Some (TracedC (Client e)))
                  | Inr (evs, lastID) \<Rightarrow>
                      do {
                        print_all (map (printEvent xe json) evs);
                        if follow then followEvents xe interrupted json rp lastID else State_Monad.return None
                      })
           }
     }"

section \<open>The log\<close>

definition logPathCandidates :: "places \<Rightarrow> string list" where
  "logPathCandidates pl =
     [LogPath pl, Join [Dir (LogPath pl), ''git-auto-sync-daemon.err.log''],
      Join [Dir (LogPath pl), ''git-auto-sync-daemon.out.log'']] @
     (if pl_goos pl = ''darwin'' \<and> pl_home pl \<noteq> [] then [Join [pl_home pl, ''git-auto-sync-daemon.err.log'']] else [])"

definition findLogFile :: "places \<Rightarrow> (string \<Rightarrow> stat_result) \<Rightarrow> cli_error + string" where
  "findLogFile pl stat =
     (case find (\<lambda>p. case stat p of Inr info \<Rightarrow> \<not> fi_IsDir info | Inl _ \<Rightarrow> False) (logPathCandidates pl) of
        Some p \<Rightarrow> Inr p
      | None \<Rightarrow> Inl (Go (Plain (''no daemon log found (looked in '' @ join '', '' (logPathCandidates pl) @ '')''))))"

text \<open>
  One tick of \<open>followFile\<close>: what \<open>os.Stat\<close> said, the identity and the size of the file, or that it failed, and what was in the
  file that was then opened, if that and the seek worked. The state is the offset and the identity seen last.
\<close>

record follow_state =
  fo_offset :: nat
  fo_prev :: "nat option"
  fo_out :: string

datatype log_tick = NoFile | LogFile nat nat "string option"

fun follow_tick :: "follow_state \<Rightarrow> log_tick \<Rightarrow> follow_state" where
  "follow_tick s NoFile = s"
| "follow_tick s (LogFile ident sz opened) =
     (let offset = (if (case fo_prev s of None \<Rightarrow> False | Some p \<Rightarrow> p \<noteq> ident) \<or> sz < fo_offset s then 0 else fo_offset s);
          s1 = s\<lparr>fo_offset := offset, fo_prev := Some ident\<rparr>
      in if sz = offset then s1
         else
           (case opened of
              None \<Rightarrow> s1
            | Some content \<Rightarrow>
                s1\<lparr>fo_offset := offset + length (drop offset content), fo_out := fo_out s @ drop offset content\<rparr>))"

definition followFile :: "nat option \<Rightarrow> nat \<Rightarrow> log_tick list \<Rightarrow> follow_state" where
  "followFile prev offset ticks = foldl follow_tick \<lparr>fo_offset = offset, fo_prev = prev, fo_out = []\<rparr> ticks"

text \<open>\<open>data\<close> is the result of \<open>os.ReadFile\<close>; the ticks end with an interrupt.\<close>

definition daemonLogs ::
  "'w cli_env \<Rightarrow> int \<Rightarrow> bool \<Rightarrow> (goerror + string) \<Rightarrow> nat option \<Rightarrow> log_tick list \<Rightarrow> ('w console, cli_error option) state" where
  "daemonLogs xe n follow data prev ticks =
     do {
       path \<leftarrow> ask (\<lambda>s. findLogFile (xe_places xe) (en_stat (xe_env xe) (co_world s)));
       case path of
         Inl e \<Rightarrow> State_Monad.return (Some e)
       | Inr _ \<Rightarrow>
           (case data of
              Inl e \<Rightarrow> State_Monad.return (Some (TracedC (Go e)))
            | Inr content \<Rightarrow>
                do {
                  print_out (OutText (lastLines content n));
                  (if follow then print_out (OutText (fo_out (followFile prev (length content) ticks)))
                   else State_Monad.return ());
                  State_Monad.return None
                })
     }"

section \<open>Environment variables\<close>

definition env_overrides :: "(string \<times> string) list \<Rightarrow> (string \<times> string) list \<Rightarrow> (string \<times> string) list" where
  "env_overrides envMap newMap = foldl (\<lambda>m (k, v). AList.update k v m) envMap newMap"

definition env_lines :: "string list \<Rightarrow> ('w console, unit) state" where
  "env_lines envs = (if envs = [] then State_Monad.return () else print_out (Out (join [CHR 0x0A] envs)))"

definition env_notice :: "'w cli_env \<Rightarrow> ('w console, unit) state" where
  "env_notice xe =
     do {
       r \<leftarrow> callDaemon xe (request CmdVersion);
       if r = NoDaemon daemonDown then State_Monad.return ()
       else print_out (ErrOut ''The running daemon keeps its old environment until you run `git-auto-sync daemon restart`.'')
     }"

definition daemonEnv :: "'w cli_env \<Rightarrow> string list \<Rightarrow> ('w console, cli_error option) state" where
  "daemonEnv xe vars =
     (case find (\<lambda>v. \<not> contains v ''='') vars of
        Some v \<Rightarrow>
          State_Monad.return
            (Some (Go (Plain (''env variables must be in the format '' @ [apostrophe] @ ''key=value'' @ [apostrophe] @ '', got '' @
               en_quote (xe_env xe) v))))
      | None \<Rightarrow>
          do {
            config \<leftarrow> cfg_Read_cli xe;
            case config of
              Inl e \<Rightarrow> State_Monad.return (Some e)
            | Inr c \<Rightarrow>
                do {
                  let envs = toEnvStrings (env_overrides (toEnvMap (cfg_Envs c)) (toEnvMap vars));
                  if vars = [] then do { env_lines envs; State_Monad.return None }
                  else do {
                    err \<leftarrow> cfg_Write_cli xe (c\<lparr>cfg_Envs := envs\<rparr>);
                    case err of
                      Some e \<Rightarrow> State_Monad.return (Some e)
                    | None \<Rightarrow>
                        do {
                          env_lines envs;
                          env_notice xe;
                          State_Monad.return None
                        }
                  }
                }
          })"

section \<open>The other actions of \<open>main.go\<close>\<close>

definition current_repo :: "'w cli_env \<Rightarrow> ('w console, cli_error + string) state" where
  "current_repo xe =
     do {
       cwd \<leftarrow> ask (\<lambda>s. pe_cwd (xe_paths xe) (co_world s));
       case cwd of
         Inl e \<Rightarrow> State_Monad.return (Inl (TracedC (Go e)))
       | Inr wd \<Rightarrow>
           do {
             root \<leftarrow> on_console (RepoRoot (xe_env xe) (xe_paths xe) wd);
             State_Monad.return (case root of Inl e \<Rightarrow> Inl (TracedC (Go e)) | Inr r \<Rightarrow> Inr r)
           }
     }"

definition current_config :: "'w cli_env \<Rightarrow> ('w console, cli_error + repo_config) state" where
  "current_config xe =
     do {
       repo \<leftarrow> current_repo xe;
       case repo of
         Inl e \<Rightarrow> State_Monad.return (Inl e)
       | Inr r \<Rightarrow>
           do {
             cfg \<leftarrow> on_console (new_repo_config (xe_env xe) r);
             State_Monad.return (case cfg of Inl e \<Rightarrow> Inl (TracedC (Go e)) | Inr c \<Rightarrow> Inr c)
           }
     }"

definition sync_action :: "'w cli_env \<Rightarrow> string list \<Rightarrow> ('w console, cli_error option) state" where
  "sync_action xe envs =
     do {
       cfg \<leftarrow> current_config xe;
       case cfg of
         Inl e \<Rightarrow> State_Monad.return (Some e)
       | Inr c \<Rightarrow>
           do {
             err \<leftarrow> on_console (AutoSync (xe_env xe) (c\<lparr>cf_Env := cf_Env c @ envs\<rparr>));
             State_Monad.return (map_option (\<lambda>e. TracedC (Go e)) err)
           }
     }"

definition check_action :: "'w cli_env \<Rightarrow> string \<Rightarrow> ('w console, cli_error option) state" where
  "check_action xe arg =
     do {
       repo \<leftarrow> current_repo xe;
       case repo of
         Inl e \<Rightarrow> State_Monad.return (Some e)
       | Inr r \<Rightarrow>
           if arg = [] then State_Monad.return (Some (Go (Plain ''usage: git-auto-sync check <file>'')))
           else do {
             absolute \<leftarrow> ask (\<lambda>s. Abs (xe_paths xe) (co_world s) arg);
             case absolute of
               Inl e \<Rightarrow> State_Monad.return (Some (TracedC (Go e)))
             | Inr a \<Rightarrow>
                 do {
                   p \<leftarrow> ask (\<lambda>s. ResolvePath (xe_paths xe) (co_world s) a);
                   (ignored, err) \<leftarrow> State (\<lambda>s.
                     case run_state (ShouldIgnoreFile (xe_env xe) (xe_paths xe) r p) \<lparr>ig_sys = co_sys s, ig_caches = []\<rparr> of
                       (x, ig) \<Rightarrow> (x, s\<lparr>co_sys := ig_sys ig\<rparr>));
                   case err of
                     Some e \<Rightarrow> State_Monad.return (Some (TracedC (Go e)))
                   | None \<Rightarrow>
                       do {
                         print_out (Out (''Ignored: '' @ (if ignored then ''true'' else ''false'')));
                         State_Monad.return None
                       }
                 }
           }
     }"

definition disable_action :: "'w cli_env \<Rightarrow> ('w console, cli_error option) state" where
  "disable_action xe = with_service xe (Disable (xe_api xe))"

definition start_action :: "'w cli_env \<Rightarrow> ('w console, cli_error option) state" where
  "start_action xe = with_service xe (svc (xe_api xe) SvcStart)"

definition stop_action :: "'w cli_env \<Rightarrow> ('w console, cli_error option) state" where
  "stop_action xe = with_service xe (svc (xe_api xe) SvcStop)"

definition restart_action :: "'w cli_env \<Rightarrow> ('w console, cli_error option) state" where
  "restart_action xe = with_service xe (do { _ \<leftarrow> svc (xe_api xe) SvcStop; svc (xe_api xe) SvcStart })"

section \<open>The configuration file\<close>

text \<open>
  What the proofs assume of the configuration file: it can be read, its temporary file has another name, and the
  decoder inverts the encoder, whose documents are not blank.
\<close>

definition config_io :: "'w cli_env \<Rightarrow> bool" where
  "config_io xe \<longleftrightarrow>
     (\<exists>path. xe_cfg_path xe = Some path \<and> (\<forall>w t. ae_temp (xe_atomic xe w) = Some t \<longrightarrow> t \<noteq> path)) \<and>
     (\<forall>w p. xe_readable xe w p) \<and>
     (\<forall>c content. xe_cfg_enc xe c = Some content \<longrightarrow>
        xe_cfg_dec xe (content @ [CHR 0x0A]) = Some c \<and> trim_space (content @ [CHR 0x0A]) \<noteq> [])"

lemma cli_config_fs: "config_io xe \<Longrightarrow> co_fs s = co_fs t \<Longrightarrow> cli_config xe s = cli_config xe t"
proof -
  assume "config_io xe" and "co_fs s = co_fs t"
  then have "cli_read xe s = cli_read xe t" by (auto simp: config_io_def cli_read_def)
  then show ?thesis by (simp add: cli_config_def)
qed

lemma cli_config_normalized: "cli_config xe s = Some c \<Longrightarrow> NormalizeRepos (cfg_Repos c) = cfg_Repos c"
  by (auto simp: cli_config_def ReadV1_def NormalizeRepos_idem NormalizeRepos_def [of "[]"]
      split: option.splits read_result.splits if_splits)

lemma normalized_clean: "NormalizeRepos rs = rs \<Longrightarrow> rp \<in> set rs \<Longrightarrow> Clean rp = rp"
proof -
  assume "NormalizeRepos rs = rs" and "rp \<in> set rs"
  then have "rp \<in> set (first_occurrences (map Clean (filter (\<lambda>rp. rp \<noteq> []) rs)))" by (simp flip: NormalizeRepos_eq)
  then show ?thesis by auto
qed

lemma write_config:
  assumes "config_io xe" and "run_state (cfg_Write_cli xe c) s = (err, s')"
  shows "cli_config xe s' = (if err = None then Some (normalized c) else cli_config xe s)"
    and "co_sys s' = co_sys s" "co_out s' = co_out s" "co_calls s' = co_calls s"
proof -
  obtain path where p: "xe_cfg_path xe = Some path" "\<And>w t. ae_temp (xe_atomic xe w) = Some t \<Longrightarrow> t \<noteq> path"
    using assms(1) unfolding config_io_def by blast
  have rd: "cli_read xe s = read_fs (co_fs s)" for s
    using assms(1) by (auto simp: cli_read_def config_io_def)
  obtain ok fs where w: "WriteV1 (xe_cfg_enc xe) (Some path) (xe_atomic xe (co_world s)) (co_fs s) c = (ok, fs)"
    by (metis surj_pair)
  have s': "s' = s\<lparr>co_fs := fs\<rparr>" "(err = None) = ok" using assms(2) w p(1) by (auto simp: cfg_Write_cli_def split: if_splits)
  note f = WriteV1_final [OF p(2) [where w = "co_world s"] w]
  show "cli_config xe s' = (if err = None then Some (normalized c) else cli_config xe s)"
  proof (cases ok)
    case True
    then obtain content where e: "xe_cfg_enc xe (normalized c) = Some content" using f(2) by blast
    then have "fs path = Some (content @ [CHR 0x0A], 420)" using f(1) True by simp
    then have "ReadV1 (xe_cfg_dec xe) (Some path) (read_fs fs) = Some (normalized c)"
      using assms(1) e unfolding config_io_def by (intro ReadV1_written) (auto simp: read_fs_def)
    then show ?thesis using s' True by (simp add: cli_config_def rd p(1))
  next
    case False
    then have "fs path = co_fs s path" using f(1) by simp
    moreover obtain e where "err = Some e" using s'(2) False by blast
    ultimately show ?thesis using s'(1) by (simp add: cli_config_def rd p(1) ReadV1_def read_fs_def)
  qed
qed (use assms(2) in \<open>auto simp: cfg_Write_cli_def split: prod.splits\<close>)

section \<open>Without a daemon\<close>

definition daemon_down :: "'w cli_env \<Rightarrow> bool" where
  "daemon_down xe \<longleftrightarrow>
     (\<forall>req w fs. \<exists>ce input ends. xe_connect xe req w fs = ((ce, input, ends), w, fs) \<and> ce_dial ce \<noteq> None)"

lemma callDaemon_down:
  assumes "daemon_down xe"
  shows "run_state (callDaemon xe req) s = (NoDaemon daemonDown, s)"
proof -
  obtain ce input ends e where "xe_connect xe req (co_world s) (co_fs s) = ((ce, input, ends), co_world s, co_fs s)"
    "ce_dial ce = Some e" using assms unfolding daemon_down_def by blast
  then show ?thesis by (simp add: callDaemon_def connect_def NewSocketClient_def set_world_def)
qed

lemma keeps_console [keeps_rules]:
  "keeps co_fs (svc api c)" "keeps co_fs (print_out x)" "keeps co_fs (on_console m)" "keeps co_calls (on_console m)"
  "keeps co_out (on_console m)" "keeps co_fs (make_log_dir pl api)" "keeps co_calls (print_out x)"
  by (auto simp: keeps_def run_svc on_console_def make_log_dir_def split: prod.split)

lemma keeps_Enable: "keeps co_fs (Enable pl api)"
  unfolding Enable_def enable_install_def enable_start_def by (intro keeps_rules)

lemma keeps_Disable: "keeps co_fs (Disable api)"
  unfolding Disable_def by (intro keeps_rules)


lemma RepoRoot_clean: "fst (run_state (RepoRoot env pe path) s) = Inr root \<Longrightarrow> Clean root = root \<and> root \<noteq> []"
  by (auto simp: RepoRoot_def split_beta split: sum.splits option.splits)

lemma NormalizeRepos_snoc:
  assumes "NormalizeRepos rs = rs" and "Clean r = r" and "r \<noteq> []"
  shows "NormalizeRepos (rs @ [r]) = (if r \<in> set rs then rs else rs @ [r])"
proof -
  have fo: "first_occurrences (xs @ [x]) = (if x \<in> set xs then first_occurrences xs else first_occurrences xs @ [x])"
    for xs :: "string list" and x by (induction xs) auto
  let ?cl = "map Clean (filter (\<lambda>rp. rp \<noteq> []) rs)"
  have "first_occurrences ?cl = rs" using assms(1) by (simp add: NormalizeRepos_eq)
  moreover from this have "set ?cl = set rs" using set_first_occurrences by metis
  ultimately show ?thesis using assms(2,3) fo [of ?cl r] by (simp add: NormalizeRepos_eq)
qed

lemma NormalizeRepos_filter:
  assumes "NormalizeRepos rs = rs"
  shows "NormalizeRepos (filter P rs) = filter P rs"
proof -
  have rs: "distinct rs" "\<And>r. r \<in> set rs \<Longrightarrow> Clean r = r \<and> r \<noteq> []"
    using assms distinct_first_occurrences normalized_clean [OF assms]
    by (metis NormalizeRepos_eq, metis Clean_not_Nil)
  have "filter (\<lambda>rp. rp \<noteq> []) (filter P rs) = filter P rs" by (subst filter_filter, rule filter_cong) (auto dest: rs(2))
  moreover have "map Clean (filter P rs) = filter P rs" using rs(2) by (intro map_idI) auto
  ultimately have "map Clean (filter (\<lambda>rp. rp \<noteq> []) (filter P rs)) = filter P rs" by simp
  then show ?thesis using rs by (simp add: NormalizeRepos_eq first_occurrences_distinct)
qed

lemma containsPath_clean: "NormalizeRepos rs = rs \<Longrightarrow> containsPath rs path \<longleftrightarrow> path \<in> set rs"
  using normalized_clean [of rs] by (auto simp: containsPath_def list_ex_iff)

text \<open>The rest of \<open>addRepo\<close> once the root is known.\<close>

lemma run_with_service:
  "run_state (with_service xe act) s = (None, s') \<Longrightarrow> run_state act s = (None, s')"
  by (auto simp: with_service_def split: sum.splits prod.splits)

lemma add_offline_nil:
  assumes io: "config_io xe" and laws: "service_laws (xe_api xe) inst active"
    and c: "cli_config xe s = Some c" and root: "Clean root = root" "root \<noteq> []"
    and run: "run_state (add_offline xe root) s = (None, s')"
  shows "cli_config xe s' =
      Some (if root \<in> set (cfg_Repos c) then c else c\<lparr>cfg_Repos := cfg_Repos c @ [root]\<rparr>) \<and>
    inst (co_world s') \<and> active (co_world s')"
proof -
  note n = cli_config_normalized [OF c]
  have en: "inst (co_world u) \<and> active (co_world u) \<and> cli_config xe u = cli_config xe t"
    if "run_state (do { print_out (Out l); enable_service xe }) t = (None, u)" for l t u
  proof -
    let ?t = "t\<lparr>co_out := co_out t @ [Out l]\<rparr>"
    have "run_state (Enable (xe_places xe) (xe_api xe)) ?t = (None, u)"
      using that by (auto simp: enable_service_def intro: run_with_service)
    then show ?thesis
      using Enable_installs [OF laws] keepsD2 [OF keeps_Enable, of "xe_places xe" "xe_api xe" ?t None u]
        cli_config_fs [OF io, of u t] by simp
  qed
  show ?thesis
  proof (cases "root \<in> set (cfg_Repos c)")
    case True
    then have "run_state (do { print_out (Out (''Already monitoring '' @ root)); enable_service xe }) s = (None, s')"
      using run c containsPath_clean [OF n] by (simp add: add_offline_def cfg_Read_cli_def)
    from en [OF this] show ?thesis using True c by simp
  next
    case False
    let ?c = "c\<lparr>cfg_Repos := cfg_Repos c @ [root]\<rparr>"
    obtain err t where w: "run_state (cfg_Write_cli xe ?c) s = (err, t)" by (metis surj_pair)
    have "err = None" "run_state (do { print_out (Out (''Now monitoring '' @ root)); enable_service xe }) t = (None, s')"
      using run c False containsPath_clean [OF n] w
      by (cases err; simp add: add_offline_def cfg_Read_cli_def)+
    moreover have "normalized ?c = ?c" using NormalizeRepos_snoc [OF n root] False by simp
    ultimately show ?thesis using en [of _ t s'] write_config(1) [OF io w] False by simp
  qed
qed


lemma resolveTracked_target:
  assumes "NormalizeRepos repos = repos" and "run_state (resolveTracked xe arg repos) s = (Inr target, s')"
  shows "target \<in> set repos \<and> co_fs s' = co_fs s \<and> co_calls s' = co_calls s \<and> co_out s' = co_out s \<and>
    (\<exists>a. Abs (xe_paths xe) (co_world s) arg = Inr a \<and>
       (target = Clean a \<or> target = ResolvePath (xe_paths xe) (co_world s) (Clean a) \<or>
        fst (run_state (RepoRoot (xe_env xe) (xe_paths xe) (Clean a)) (co_sys s)) = Inr target))"
proof (cases "Abs (xe_paths xe) (co_world s) arg")
  case (Inl e)
  then show ?thesis using assms(2) by (simp add: resolveTracked_def)
next
  case (Inr a)
  obtain found sys where r: "run_state (RepoRoot (xe_env xe) (xe_paths xe) (Clean a)) (co_sys s) = (found, sys)"
    by (metis surj_pair)
  define cands where "cands = [Clean a, ResolvePath (xe_paths xe) (co_world s) (Clean a)] @
    (case found of Inr root \<Rightarrow> [root] | Inl _ \<Rightarrow> [])"
  define pool where "pool = concat (map (\<lambda>c. filter (\<lambda>rp. Clean rp = c) repos) cands)"
  have "run_state (resolveTracked xe arg repos) s =
      (case pool of rp # _ \<Rightarrow> Inr rp
       | [] \<Rightarrow> Inl (Go (CodedError CodeNotFound (''not monitoring '' @ Clean a @ '' (see `git-auto-sync daemon ls`)''))),
       s\<lparr>co_sys := sys\<rparr>)"
    using Inr r by (simp add: resolveTracked_def on_console_def Let_def cands_def pool_def)
  then have s': "s' = s\<lparr>co_sys := sys\<rparr>" and "\<exists>rest. pool = target # rest"
    using assms(2) by (cases pool; simp)+
  then have "target \<in> set pool" by auto
  then have "target \<in> set repos" "target \<in> set cands" using normalized_clean [OF assms(1)] by (auto simp: pool_def)
  then show ?thesis using Inr r s' by (auto simp: cands_def split: sum.splits)
qed

lemma remove_offline_nil:
  assumes io: "config_io xe" and c: "cli_config xe s = Some c" and "NormalizeRepos (cfg_Repos c) = cfg_Repos c"
    and run: "run_state (remove_offline xe c target) s = (None, s')"
  shows "cli_config xe s' = Some (c\<lparr>cfg_Repos := filter (\<lambda>rp. rp \<noteq> target) (cfg_Repos c)\<rparr>) \<and>
    (filter (\<lambda>rp. rp \<noteq> target) (cfg_Repos c) \<noteq> [] \<longrightarrow> co_calls s' = co_calls s) \<and>
    (filter (\<lambda>rp. rp \<noteq> target) (cfg_Repos c) = [] \<longrightarrow> (\<exists>cs. co_calls s' = co_calls s @ SvcStop # cs))"
proof -
  let ?rs = "filter (\<lambda>rp. rp \<noteq> target) (cfg_Repos c)"
  let ?c = "c\<lparr>cfg_Repos := ?rs\<rparr>"
  obtain err t where w: "run_state (cfg_Write_cli xe ?c) s = (err, t)" by (metis surj_pair)
  have e: "err = None" using run w by (cases err) (simp_all add: remove_offline_def Let_def)
  have n: "normalized ?c = ?c" using NormalizeRepos_filter [OF assms(3)] by simp
  let ?t = "t\<lparr>co_out := co_out t @ [Out (''Stopped monitoring '' @ target)]\<rparr>"
  show ?thesis
  proof (cases "?rs = []")
    case False
    then have "s' = ?t" using run w e by (simp add: remove_offline_def Let_def)
    then show ?thesis
      using False write_config [OF io w] e n cli_config_fs [OF io, of s' t] by simp
  next
    case True
    obtain derr u where d: "run_state (Disable (xe_api xe)) ?t = (derr, u)" by (metis surj_pair)
    have u: "co_fs s' = co_fs u" "co_calls s' = co_calls u"
      using run w e True d by (auto simp: remove_offline_def Let_def split: sum.splits option.splits)
    have "\<exists>cs. co_calls u = co_calls ?t @ SvcStop # cs"
      using d by (auto simp: Disable_def run_svc split: option.splits)
    moreover have "co_fs u = co_fs ?t" using keepsD2 [OF keeps_Disable d] .
    ultimately show ?thesis
      using True write_config [OF io w] e n cli_config_fs [OF io, of s' t] u by simp
  qed
qed


section \<open>Following\<close>

lemma shown_wanted: "shown after repo ev \<longleftrightarrow> wanted after repo ev"
  by (auto simp: shown_def wanted_def)

lemma follow_loop_lines:
  assumes "cl_in c = concat (map (\<lambda>l. l @ [CHR 0x0A]) ls)" and "list_all (\<lambda>l. clean_line l \<and> length l < MaxTokenSize) ls"
  shows "snd (follow_loop dec i repo after c) =
    filter (shown after repo) (filter (\<lambda>ev. ev_ID ev \<noteq> 0) (List.map_filter dec ls))"
  using assms
proof (induction ls arbitrary: c)
  case Nil
  then show ?case
    by (subst follow_loop.simps) (simp add: ReadFrame_def readLine_client_def map_filter_simps)
next
  case (Cons l ls)
  let ?c = "c\<lparr>cl_in := concat (map (\<lambda>l. l @ [CHR 0x0A]) ls)\<rparr>"
  have "ReadFrame c = (Inr l, ?c)"
    using Cons.prems readLine_client_line [of l c "concat (map (\<lambda>l. l @ [CHR 0x0A]) ls)"] by (simp add: ReadFrame_def)
  moreover have "snd (follow_loop dec i repo after ?c) =
      filter (shown after repo) (filter (\<lambda>ev. ev_ID ev \<noteq> 0) (List.map_filter dec ls))"
    using Cons by simp
  ultimately show ?case
    by (subst follow_loop.simps) (simp add: map_filter_simps split_beta split: option.split)
qed

lemma keeps_out_call [keeps_rules]: "keeps co_out (mustDaemon xe req)"
  unfolding mustDaemon_def callDaemon_def
  by (intro keeps_rules) (simp add: keeps_def connect_def split: prod.split)

fun grows :: "string \<Rightarrow> (string \<times> string) list \<Rightarrow> bool" where
  "grows cur [] = True"
| "grows cur ((st, ct) # rest) = (prefix cur st \<and> prefix st ct \<and> grows (if st = cur then cur else ct) rest)"

fun seen :: "string \<Rightarrow> (string \<times> string) list \<Rightarrow> string" where
  "seen cur [] = cur"
| "seen cur ((st, ct) # rest) = seen (if st = cur then cur else ct) rest"

definition ticks_of :: "nat \<Rightarrow> (string \<times> string) list \<Rightarrow> log_tick list" where
  "ticks_of ident steps = map (\<lambda>(st, ct). LogFile ident (length st) (Some ct)) steps"

lemma follow_grows:
  assumes "grows cur steps" and "fo_offset f = length cur" and "fo_prev f = None \<or> fo_prev f = Some ident"
  shows "foldl follow_tick f (ticks_of ident steps) =
    \<lparr>fo_offset = length (seen cur steps), fo_prev = (if steps = [] then fo_prev f else Some ident),
     fo_out = fo_out f @ drop (length cur) (seen cur steps)\<rparr> \<and> prefix cur (seen cur steps)"
  using assms
proof (induction steps arbitrary: cur f)
  case (Cons step rest)
  obtain st ct where step: "step = (st, ct)" by (cases step)
  let ?cur = "if st = cur then cur else ct"
  have p: "prefix cur st" "prefix st ct" "grows ?cur rest" using Cons.prems(1) step by simp_all
  then have len: "length cur \<le> length st" "st \<noteq> cur \<Longrightarrow> length cur < length st"
    by (auto simp: prefix_length_le dest: prefix_length_less [OF strict_prefixI])
  have pc: "prefix cur ct" using p by (meson prefix_order.trans)
  let ?f = "follow_tick f (LogFile ident (length st) (Some ct))"
  have f: "?f = \<lparr>fo_offset = length ?cur, fo_prev = Some ident, fo_out = fo_out f @ drop (length cur) ?cur\<rparr>"
    using Cons.prems(2,3) len prefix_length_le [OF pc] by (cases f) (auto simp: Let_def)
  have IH: "foldl follow_tick ?f (ticks_of ident rest) =
      \<lparr>fo_offset = length (seen ?cur rest), fo_prev = (if rest = [] then fo_prev ?f else Some ident),
       fo_out = fo_out ?f @ drop (length ?cur) (seen ?cur rest)\<rparr> \<and> prefix ?cur (seen ?cur rest)"
    using Cons.IH [OF p(3), of ?f] f by simp
  have "prefix cur ?cur" using pc by simp
  moreover obtain z where "seen ?cur rest = ?cur @ z" using IH by (auto simp: prefix_def)
  ultimately have "drop (length cur) ?cur @ drop (length ?cur) (seen ?cur rest) = drop (length cur) (seen ?cur rest)"
    "prefix cur (seen ?cur rest)"
    by (auto simp: prefix_def split: if_splits)
  then show ?case using IH f step by (simp add: ticks_of_def)
qed (simp add: ticks_of_def)


lemma seen_last: "seen cur (steps @ [(ct, ct)]) = ct"
  by (induction cur steps rule: seen.induct) auto

lemma follow_other_file:
  assumes "fo_prev f \<noteq> None" and "fo_prev f \<noteq> Some j"
  shows "fo_out (foldl follow_tick f (ticks_of j steps)) =
    fo_out (foldl follow_tick (f\<lparr>fo_offset := 0, fo_prev := Some j\<rparr>) (ticks_of j steps))"
  using assms by (cases steps) (auto simp: ticks_of_def Let_def split: option.splits)

section \<open>Environment variables\<close>

lemma map_of_overrides:
  "distinct (map fst n) \<Longrightarrow> map_of (env_overrides m n) = map_of m ++ map_of n"
proof -
  assume n: "distinct (map fst n)"
  have "map_of (foldl (\<lambda>m (k, v). AList.update k v m) m n) = map_of m ++ map_of (rev n)" for m
    by (induction n arbitrary: m) (simp_all add: split_beta map_add_upd_left)
  moreover have "map_of (rev n) = map_of n" using n by (simp add: map_of_inject_set rev_map flip: rev_map)
  ultimately show ?thesis by (simp add: env_overrides_def)
qed

lemma overrides_keys:
  assumes "distinct (map fst m) \<and> (\<forall>k \<in> fst ` set m. P k)" and "\<forall>k \<in> fst ` set n. P k"
  shows "distinct (map fst (env_overrides m n)) \<and> (\<forall>k \<in> fst ` set (env_overrides m n). P k)"
  using assms
proof (induction n arbitrary: m)
  case (Cons kv n)
  obtain k v where kv: "kv = (k, v)" by (cases kv)
  have "P k" using Cons.prems(2) kv by simp
  then have "P x" if "x \<in> fst ` set (AList.update k v m)" for x
    using that Cons.prems(1) by (cases "x = k") (auto simp only: dom_update)
  moreover have "distinct (map fst (AList.update k v m))" using Cons.prems(1) by simp
  moreover have "\<forall>k \<in> fst ` set n. P k" using Cons.prems(2) by simp
  ultimately have "distinct (map fst (env_overrides (AList.update k v m) n)) \<and>
      (\<forall>k \<in> fst ` set (env_overrides (AList.update k v m) n). P k)"
    using Cons.IH [of "AList.update k v m"] by blast
  then show ?case using kv by (simp add: env_overrides_def)
qed (simp add: env_overrides_def)

lemma overrides_roundtrip:
  "map_of (toEnvMap (toEnvStrings (env_overrides (toEnvMap es) (toEnvMap vs)))) = map_of (toEnvMap es) ++ map_of (toEnvMap vs)"
proof -
  have "distinct (map fst (env_overrides (toEnvMap es) (toEnvMap vs))) \<and>
      (\<forall>k \<in> fst ` set (env_overrides (toEnvMap es) (toEnvMap vs)). CHR ''='' \<notin> set k)"
    using overrides_keys [of "toEnvMap es" "\<lambda>k. CHR ''='' \<notin> set k" "toEnvMap vs"] toEnvMap_keys [of es] toEnvMap_keys [of vs]
    by blast
  then have "map_of (toEnvMap (toEnvStrings (env_overrides (toEnvMap es) (toEnvMap vs)))) =
      map_of (env_overrides (toEnvMap es) (toEnvMap vs))" by (intro toEnvMap_toEnvStrings) blast+
  then show ?thesis using map_of_overrides [of "toEnvMap vs"] toEnvMap_keys [of vs] by simp
qed

lemma env_lines_console [simp]:
  "co_fs (snd (run_state (env_lines envs) s)) = co_fs s"
  by (simp add: env_lines_def)

section \<open>Properties\<close>


text \<open>
  C20. With no daemon running, a \<open>daemon rm\<close> that returns nil removes from the configuration exactly one
  repository, which is the argument as an absolute path, that path with its links resolved, or the root
  of the repository it is in; the service is left alone as long as a repository is left, and stopped otherwise.
\<close>

theorem remove_without_daemon:
  assumes "config_io xe" and "daemon_down xe" and "cli_config xe s = Some c"
    and "run_state (removeRepo_cli xe arg) s = (None, s')"
  shows "\<exists>target a. target \<in> set (cfg_Repos c) \<and> Abs (xe_paths xe) (co_world s) arg = Inr a \<and>
    (target = Clean a \<or> target = ResolvePath (xe_paths xe) (co_world s) (Clean a) \<or>
     fst (run_state (RepoRoot (xe_env xe) (xe_paths xe) (Clean a)) (co_sys s)) = Inr target) \<and>
    cli_config xe s' = Some (c\<lparr>cfg_Repos := filter (\<lambda>rp. rp \<noteq> target) (cfg_Repos c)\<rparr>) \<and>
    (if set (cfg_Repos c) = {target} then \<exists>cs. co_calls s' = co_calls s @ SvcStop # cs else co_calls s' = co_calls s)"
proof -
  note n = cli_config_normalized [OF assms(3)]
  obtain tracked t where t: "run_state (resolveTracked xe arg (cfg_Repos c)) s = (tracked, t)" by (metis surj_pair)
  obtain target where target: "tracked = Inr target"
    using assms(3,4) t by (cases tracked) (simp_all add: removeRepo_cli_def cfg_Read_cli_def)
  note r = resolveTracked_target [OF n t [unfolded target]]
  have run: "run_state (remove_offline xe c target) t = (None, s')"
    using assms(3,4) t target callDaemon_down [OF assms(2)] by (simp add: removeRepo_cli_def cfg_Read_cli_def)
  have ct: "cli_config xe t = Some c" using cli_config_fs [OF assms(1), of t s] r assms(3) by simp
  have "cli_config xe s' = Some (c\<lparr>cfg_Repos := filter (\<lambda>rp. rp \<noteq> target) (cfg_Repos c)\<rparr>) \<and>
      (if filter (\<lambda>rp. rp \<noteq> target) (cfg_Repos c) = [] then \<exists>cs. co_calls s' = co_calls s @ SvcStop # cs
       else co_calls s' = co_calls s)"
    using remove_offline_nil [OF assms(1) ct n run] r by simp
  moreover have "filter (\<lambda>rp. rp \<noteq> target) (cfg_Repos c) = [] \<longleftrightarrow> set (cfg_Repos c) = {target}"
    using r by (auto simp: filter_empty_conv)
  ultimately have "cli_config xe s' = Some (c\<lparr>cfg_Repos := filter (\<lambda>rp. rp \<noteq> target) (cfg_Repos c)\<rparr>) \<and>
      (if set (cfg_Repos c) = {target} then \<exists>cs. co_calls s' = co_calls s @ SvcStop # cs else co_calls s' = co_calls s)"
    by simp
  then show ?thesis using r by blast
qed

text \<open>
  \<open>daemon env\<close> sets the variables it is given and no other: after it has returned nil, the
  configuration has the given value for every given variable, the last one if there are several, the old
  value for every other, and the same repositories; without arguments it changes nothing.
\<close>

theorem daemonEnv_sets:
  assumes "config_io xe" and "\<And>w fs. \<exists>conn. xe_connect xe (request CmdVersion) w fs = (conn, w, fs)"
    and "cli_config xe s = Some c" and "run_state (daemonEnv xe vars) s = (None, s')"
  shows "\<exists>c'. cli_config xe s' = Some c' \<and> cfg_Repos c' = cfg_Repos c \<and> (vars = [] \<longrightarrow> c' = c) \<and>
    map_of (toEnvMap (cfg_Envs c')) = map_of (toEnvMap (cfg_Envs c)) ++ map_of (rev (map env_entry vars))"
proof -
  let ?envs = "toEnvStrings (env_overrides (toEnvMap (cfg_Envs c)) (toEnvMap vars))"
  have ok: "find (\<lambda>v. \<not> contains v ''='') vars = None"
    using assms(4) by (cases "find (\<lambda>v. \<not> contains v ''='') vars") (simp_all add: daemonEnv_def)
  show ?thesis
  proof (cases "vars = []")
    case True
    then have "co_fs s' = co_fs s"
      using assms(3,4) by (auto simp: daemonEnv_def cfg_Read_cli_def Let_def split_beta)
    then show ?thesis using True cli_config_fs [OF assms(1), of s' s] assms(3) by simp
  next
    case False
    obtain err t where w: "run_state (cfg_Write_cli xe (c\<lparr>cfg_Envs := ?envs\<rparr>)) s = (err, t)" by (metis surj_pair)
    have e: "err = None"
      using assms(3,4) ok False w by (cases err) (simp_all add: daemonEnv_def cfg_Read_cli_def Let_def)
    let ?u = "snd (run_state (env_lines ?envs) t)"
    have "co_fs (snd (run_state (env_notice xe) ?u)) = co_fs ?u"
      using assms(2) [of "co_world ?u" "co_fs ?u"]
      by (auto simp: env_notice_def callDaemon_def connect_def split_beta print_out_def)
    moreover have "s' = snd (run_state (env_notice xe) ?u)"
      using assms(3,4) ok False w e by (simp add: daemonEnv_def cfg_Read_cli_def Let_def split_beta)
    ultimately have "co_fs s' = co_fs t" by simp
    then have "cli_config xe s' = Some (c\<lparr>cfg_Envs := ?envs\<rparr>)"
      using cli_config_fs [OF assms(1), of s' t] write_config(1) [OF assms(1) w] e cli_config_normalized [OF assms(3)] by simp
    then show ?thesis using False overrides_roundtrip [of "cfg_Envs c" vars] by (simp add: map_of_toEnvMap)
  qed
qed


text \<open>
  \<open>daemon logs --follow\<close> prints what is written to the log, once and in order: of the file
  that is there when it starts what is appended behind the first text, and of the file that a rotation puts in its place
  everything. A step is what \<open>Stat\<close> saw and what was then read; at the last step of each file
  nothing was written in between.
\<close>

theorem followFile_prints_new_text:
  assumes "grows a0 (as @ [(a, a)])" and "grows [] (bs @ [(b, b)])" and "i \<noteq> j" and "prev = None \<or> prev = Some i"
  shows "fo_out (followFile prev (length a0) (ticks_of i (as @ [(a, a)]) @ NoFile # ticks_of j (bs @ [(b, b)]))) =
    drop (length a0) a @ b"
proof -
  let ?f0 = "\<lparr>fo_offset = length a0, fo_prev = prev, fo_out = []\<rparr>"
  have f1: "foldl follow_tick ?f0 (ticks_of i (as @ [(a, a)])) =
      \<lparr>fo_offset = length a, fo_prev = Some i, fo_out = drop (length a0) a\<rparr>"
    using follow_grows [OF assms(1), of ?f0 i] assms(4) by (simp add: seen_last)
  let ?f1 = "\<lparr>fo_offset = length a, fo_prev = Some i, fo_out = drop (length a0) a\<rparr>"
  have "fo_out (foldl follow_tick ?f1 (ticks_of j (bs @ [(b, b)]))) =
      fo_out (foldl follow_tick (?f1\<lparr>fo_offset := 0, fo_prev := Some j\<rparr>) (ticks_of j (bs @ [(b, b)])))"
    using assms(3) by (intro follow_other_file) simp_all
  also have "\<dots> = drop (length a0) a @ b"
    using follow_grows [OF assms(2), of "?f1\<lparr>fo_offset := 0, fo_prev := Some j\<rparr>" j] by (simp add: seen_last)
  finally show ?thesis using f1 by (simp add: followFile_def)
qed

theorem followFile_prints_new_text_witness:
  "fo_out (followFile None 2 (ticks_of 1 [(''ab'', ''abc''), (''abcd'', ''abcde''), (''abcdef'', ''abcdef'')] @
     NoFile # ticks_of 2 [([], ''x''), (''xyz'', ''xyz'')])) = ''cdefxyz''"
  using followFile_prints_new_text [of "''ab''" "[(''ab'', ''abc''), (''abcd'', ''abcde'')]" "''abcdef''" "[([], ''x'')]" "''xyz''" 1 2 None]
  by (simp add: numeral_2_eq_2)

text \<open>
  C15. \<open>daemon events --follow\<close> shows every event once and in order: those that the daemon's log holds from between the
  last one shown before and the subscription, then those the subscription brings, for the given repository or
  for all. The hypotheses: the subscription says that \<open>L\<close> is the last event before it, and brings lines of
  which those that are events have greater identifiers; the daemon answers the request for the events
  in between from its log.
\<close>

theorem follow_shows_each_event_once:
  assumes conn: "xe_connect xe subscribe_request (co_world s) (co_fs s) = ((ce, input, ends), w, fs)"
      "NewSocketClient ce input ends = Inr c" "Subscribe_client ce c = (Inr h, c')"
    and lines: "cl_in c' = concat (map (\<lambda>l. l @ [CHR 0x0A]) ls)"
      "list_all (\<lambda>l. clean_line l \<and> length l < MaxTokenSize) ls"
    and gap: "fst (run_state (mustDaemon xe ((request CmdEvents)\<lparr>rq_Since := after, rq_Repo := repo\<rparr>))
        ((set_world w s)\<lparr>co_fs := fs\<rparr>)) = Inr resp"
      "Decode_response (xe_events_dec xe) resp = Inr (Since log after repo 0, lastID)"
    and log: "ids_inv log" "el_events log = past @ later"
      "\<forall>ev \<in> set past. ev_ID ev \<le> hl_LastEventID h" "\<forall>ev \<in> set later. hl_LastEventID h < ev_ID ev"
    and news: "news = filter (\<lambda>ev. ev_ID ev \<noteq> 0) (List.map_filter (xe_event_dec xe) ls)"
      "\<forall>ev \<in> set news. hl_LastEventID h < ev_ID ev"
  shows "co_out (snd (run_state (followEvents xe interrupted json repo after) s)) =
    co_out s @ map (printEvent xe json) (filter (wanted after repo) (past @ news))"
proof -
  let ?L = "hl_LastEventID h" and ?t = "(set_world w s)\<lparr>co_fs := fs\<rparr>"
  let ?req = "(request CmdEvents)\<lparr>rq_Since := after, rq_Repo := repo\<rparr>"
  have start: "run_state (connect xe subscribe_request) s = ((ce, input, ends), ?t)" using conn(1) by (simp add: connect_def)
  have "filter (\<lambda>ev. ev_ID ev \<le> ?L) (Since log after repo 0) = filter (wanted after repo) past"
  proof -
    have "filter (\<lambda>ev. ev_ID ev \<le> ?L) (filter (wanted after repo) later) = []"
      using log(4) by (auto simp: filter_empty_conv not_le)
    moreover have "filter (\<lambda>ev. ev_ID ev \<le> ?L) (filter (wanted after repo) past) = filter (wanted after repo) past"
      by (subst filter_filter, rule filter_cong) (use log(3) in auto)
    ultimately show ?thesis using log(1,2) by (simp add: Since_eq_spec since_spec_def)
  qed
  then obtain u where g: "run_state (follow_gap xe repo after ?L) ?t = (Inr (filter (wanted after repo) past), u)"
    and u: "co_out u = co_out s"
  proof (cases "after < ?L")
    case True
    obtain u where m: "run_state (mustDaemon xe ?req) ?t = (Inr resp, u)" using gap(1) by (metis prod.collapse)
    then have "co_out u = co_out ?t" by (rule keepsD2 [OF keeps_out_call])
    then show ?thesis using that [of u] True m gap(2) \<open>filter _ _ = _\<close> by (simp add: follow_gap_def)
  next
    case False
    then have "filter (wanted after repo) past = []"
      using log(3) by (fastforce simp: filter_empty_conv wanted_def)
    then show ?thesis using that [of ?t] False by (simp add: follow_gap_def)
  qed
  have "filter (shown (max after ?L) repo) news = filter (wanted after repo) news"
    using news(2) by (intro filter_cong) (auto simp: shown_def wanted_def max_def)
  then have "snd (follow_loop (xe_event_dec xe) interrupted repo (max after ?L) c') = filter (wanted after repo) news"
    using follow_loop_lines [OF lines] news(1) by simp
  then show ?thesis
    using start conn(2,3) g u by (simp add: followEvents_def print_all_def split_beta)
qed


section \<open>An example\<close>

definition flag_env :: "'w env" where
  "flag_env = \<lparr>
     en_run = \<lambda>w _. (\<lparr>rr_out = ''/r'' @ [CHR 0x0A], rr_err = [], rr_fail = None, rr_deadline = False\<rparr>, w),
     en_stat = \<lambda>_ _. Inr \<lparr>fi_IsDir = True, fi_Exec = True, fi_ModTime = 0, fi_Size = 0\<rparr>,
     en_remove = \<lambda>w _. w, en_sleep = \<lambda>w _. (True, w), en_cancelled = \<lambda>_. None, en_now = \<lambda>_. 0,
     en_append = \<lambda>w _ _. w, en_clients = \<lambda>_. False, en_quote = id, en_environ = [], en_path = []\<rparr>"

definition flag_configs :: "config_v1 list" where
  "flag_configs = [\<lparr>cfg_Repos = [], cfg_Envs = []\<rparr>, \<lparr>cfg_Repos = [''/r''], cfg_Envs = []\<rparr>,
     \<lparr>cfg_Repos = [], cfg_Envs = [''A=2'', ''B=1'']\<rparr>]"

abbreviation nth_event :: "u64 \<Rightarrow> string \<Rightarrow> event" where
  "nth_event n repo \<equiv> zero_event\<lparr>ev_ID := n, ev_Repo := repo\<rparr>"

definition flag_log :: event_log where
  "flag_log = (push (push (NewMemoryEventLog 4) (nth_event 2 ''/r'')) (nth_event 3 ''/q''))\<lparr>el_lastID := 3\<rparr>"

definition base_xe ::
  "'w service_api \<Rightarrow> (socket_request \<Rightarrow> 'w \<Rightarrow> filesystem \<Rightarrow> connection \<times> 'w \<times> filesystem) \<Rightarrow> 'w cli_env" where
  "base_xe api connect_fn =
     \<lparr>xe_env = flag_env, xe_paths = \<lparr>pe_cwd = \<lambda>_. Inr ''/r/d'', pe_eval = \<lambda>_ p. Some p\<rparr>, xe_api = api,
      xe_places = demo_places, xe_cfg_path = Some ''c'',
      xe_cfg_dec = \<lambda>t. map_of (zip [''0'' @ [CHR 0x0A], ''1'' @ [CHR 0x0A], ''2'' @ [CHR 0x0A]] flag_configs) t,
      xe_cfg_enc = \<lambda>c. map_of (zip flag_configs [''0'', ''1'', ''2'']) c,
      xe_cfg_error = \<lambda>_. Plain ''e'', xe_readable = \<lambda>_ _. True,
      xe_atomic = \<lambda>_. \<lparr>ae_temp = Some ''t'', ae_write = None, ae_sync = True, ae_chmod = True, ae_close = True,
        ae_rename = True, ae_remove = True\<rparr>,
      xe_connect = connect_fn,
      xe_status_dec = \<lambda>_. Inl EmptyResult, xe_command_dec = \<lambda>_. (Some EmptyResult, [], []),
      xe_events_dec = \<lambda>_. Inr (Since flag_log 1 ''/r'' 0, 3),
      xe_event_dec = \<lambda>l. if l = ''ev4'' then Some (nth_event 4 ''/r'') else if l = ''ev5'' then Some (nth_event 5 ''/q'') else None,
      xe_json_check = \<lambda>_. None, xe_json_print = \<lambda>_. None, xe_time = \<lambda>_. ''t''\<rparr>"

definition flag_xe :: "connection \<Rightarrow> (bool \<times> bool) cli_env" where
  "flag_xe conn = base_xe flag_api (\<lambda>_ w fs. (conn, w, fs))"

definition no_conn :: connection where
  "no_conn = (demo_client_env\<lparr>ce_dial := Some ClientEOF\<rparr>, [], None)"

lemma flag_xe_io: "config_io (flag_xe conn)"
proof -
  have "trim_space (''0'' @ [CHR 0x0A]) \<noteq> []" "trim_space (''1'' @ [CHR 0x0A]) \<noteq> []" "trim_space (''2'' @ [CHR 0x0A]) \<noteq> []"
    by code_simp+
  then show ?thesis by (auto simp: config_io_def flag_xe_def base_xe_def flag_configs_def split: if_splits)
qed

lemma flag_xe_down: "daemon_down (flag_xe no_conn)"
  by (simp add: daemon_down_def flag_xe_def base_xe_def no_conn_def)

lemma flag_xe_api: "xe_api (flag_xe conn) = flag_api"
  by (simp add: flag_xe_def base_xe_def)

lemma run_eq: "fst r = x \<Longrightarrow> r = (x, snd r)"
  by (simp add: prod_eq_iff)


theorem remove_without_daemon_witness:
  "cli_config (flag_xe no_conn) (snd (run_state (removeRepo_cli (flag_xe no_conn) ''.'')
     ((flag_console (True, True))\<lparr>co_fs := [''c'' \<mapsto> (''1'' @ [CHR 0x0A], 420)]\<rparr>))) = Some \<lparr>cfg_Repos = [], cfg_Envs = []\<rparr>"
proof -
  let ?s = "(flag_console (True, True))\<lparr>co_fs := [''c'' \<mapsto> (''1'' @ [CHR 0x0A], 420)]\<rparr>"
  let ?r = "run_state (removeRepo_cli (flag_xe no_conn) ''.'') ?s"
  have "fst ?r = None" by code_simp
  moreover have "cli_config (flag_xe no_conn) ?s = Some \<lparr>cfg_Repos = [''/r''], cfg_Envs = []\<rparr>" by code_simp
  ultimately show ?thesis
    using remove_without_daemon [OF flag_xe_io flag_xe_down, of ?s _ "''.''" "snd ?r"] run_eq [of ?r None] by auto
qed

theorem daemonEnv_sets_witness:
  "\<exists>c. cli_config (flag_xe no_conn) (snd (run_state (daemonEnv (flag_xe no_conn) [''A=1'', ''B=1'', ''A=2'']) (flag_console (True, True)))) = Some c \<and>
     map_of (toEnvMap (cfg_Envs c)) ''A'' = Some ''2'' \<and> map_of (toEnvMap (cfg_Envs c)) ''B'' = Some ''1''"
proof -
  let ?v = "[''A=1'', ''B=1'', ''A=2'']"
  let ?r = "run_state (daemonEnv (flag_xe no_conn) ?v) (flag_console (True, True))"
  have "fst ?r = None" by code_simp
  moreover have "cli_config (flag_xe no_conn) (flag_console (True, True)) = Some \<lparr>cfg_Repos = [], cfg_Envs = []\<rparr>" by code_simp
  moreover have "\<exists>conn. xe_connect (flag_xe no_conn) (request CmdVersion) w fs = (conn, w, fs)" for w fs by (simp add: flag_xe_def base_xe_def no_conn_def)
  moreover have "map_of (rev (map env_entry ?v)) ''A'' = Some ''2''" "map_of (rev (map env_entry ?v)) ''B'' = Some ''1''" by code_simp+
  ultimately show ?thesis
    using daemonEnv_sets [OF flag_xe_io, of no_conn "flag_console (True, True)" _ ?v "snd ?r"] run_eq [of ?r None]
    by (auto simp: map_add_def)
qed

text \<open>For evaluation: the limit on a line compared as an integer.\<close>

lemma readLine_client_code [code]:
  "readLine_client c =
     (let s = cl_in c; l = upto_newline s
      in if s = [] then (Inl (case cl_end c of None \<Rightarrow> ClientEOF | Some e \<Rightarrow> ClientIO e), c)
         else if (16777216 :: int) \<le> int (length l) then (Inl LineTooLong, c)
         else (Inr (trim_suffix l [CHR 0x0D]), c\<lparr>cl_in := drop (Suc (length l)) s\<rparr>))"
proof -
  have "MaxTokenSize \<le> n \<longleftrightarrow> (16777216 :: int) \<le> int n" for n by (simp add: MaxTokenSize_def)
  then show ?thesis unfolding readLine_client_def by (simp only:)
qed

definition sub_conn :: connection where
  "sub_conn = (demo_client_env\<lparr>ce_response := \<lambda>l. Inr \<lparr>cr_ID = ''cli-1'', cr_OK = True, cr_Result = ''x'', cr_Error = [], cr_Code = []\<rparr>,
     ce_probe := \<lambda>_. [], ce_hello := \<lambda>l. Inr \<lparr>hl_Type = FrameHello, hl_Protocol = 2, hl_Version = [], hl_Repos = [], hl_LastEventID = 3\<rparr>\<rparr>,
     concat (map (\<lambda>l. l @ [CHR 0x0A]) [''ok'', ''hello'', ''ev4'', ''state'', ''ev5'']), None)"

theorem follow_shows_each_event_once_witness:
  "co_out (snd (run_state (followEvents (flag_xe sub_conn) True True ''/r'' 1) (flag_console (True, True)))) =
     [JsonEvent (nth_event 2 ''/r''), JsonEvent (nth_event 4 ''/r'')]"
proof -
  let ?xe = "flag_xe sub_conn" and ?s = "flag_console (True, True)" and ?ls = "[''ev4'', ''state'', ''ev5'']"
  obtain ce input ends where c: "sub_conn = (ce, input, ends)" by (metis prod_cases3)
  let ?c = "\<lparr>cl_in = input, cl_end = ends, cl_out = [], cl_seq = 0\<rparr>"
  let ?sub = "Subscribe_client (fst sub_conn) \<lparr>cl_in = fst (snd sub_conn), cl_end = snd (snd sub_conn), cl_out = [], cl_seq = 0\<rparr>"
  have sub: "map_sum (\<lambda>_. ()) hl_LastEventID (fst ?sub) = Inr 3"
    "cl_in (snd ?sub) = concat (map (\<lambda>l. l @ [CHR 0x0A]) ?ls)"
    by code_simp+
  obtain h where h: "fst ?sub = Inr h" "hl_LastEventID h = 3" using sub(1) by (cases "fst ?sub") auto
  let ?req = "(request CmdEvents)\<lparr>rq_Since := 1, rq_Repo := ''/r''\<rparr>"
  have m: "fst (run_state (mustDaemon ?xe ?req) ((set_world (True, True) ?s)\<lparr>co_fs := co_fs ?s\<rparr>)) =
      Inr \<lparr>cr_ID = ''cli-1'', cr_OK = True, cr_Result = ''x'', cr_Error = [], cr_Code = []\<rparr>"
    by code_simp
  have "list_all clean_line ?ls" by code_simp
  then have ls: "list_all (\<lambda>l. clean_line l \<and> length l < MaxTokenSize) ?ls" by (simp add: MaxTokenSize_def)
  have log: "ids_inv flag_log" "el_events flag_log = [nth_event 2 ''/r'', nth_event 3 ''/q''] @ []" by code_simp+
  have news: "filter (\<lambda>ev. ev_ID ev \<noteq> 0) (List.map_filter (xe_event_dec ?xe) ?ls) = [nth_event 4 ''/r'', nth_event 5 ''/q'']"
    by code_simp
  have "co_out (snd (run_state (followEvents ?xe True True ''/r'' 1) ?s)) =
      co_out ?s @ map (printEvent ?xe True)
        (filter (wanted 1 ''/r'') ([nth_event 2 ''/r'', nth_event 3 ''/q''] @ [nth_event 4 ''/r'', nth_event 5 ''/q'']))"
  proof (rule follow_shows_each_event_once [where h = h and c' = "snd ?sub" and ls = ?ls and log = flag_log and lastID = 3
        and later = "[]" and w = "(True, True)" and fs = "co_fs ?s"])
    show "xe_connect ?xe subscribe_request (co_world ?s) (co_fs ?s) = ((fst sub_conn, fst (snd sub_conn), snd (snd sub_conn)), (True, True), co_fs ?s)"
      by (simp add: flag_xe_def base_xe_def flag_console_def flag_sys_def)
    show "NewSocketClient (fst sub_conn) (fst (snd sub_conn)) (snd (snd sub_conn)) =
        Inr \<lparr>cl_in = fst (snd sub_conn), cl_end = snd (snd sub_conn), cl_out = [], cl_seq = 0\<rparr>"
      by (simp add: NewSocketClient_def sub_conn_def demo_client_env_def)
    show "?sub = (Inr h, snd ?sub)" using h(1) by (simp add: prod_eq_iff)
    show "Decode_response (xe_events_dec ?xe) \<lparr>cr_ID = ''cli-1'', cr_OK = True, cr_Result = ''x'', cr_Error = [], cr_Code = []\<rparr> =
        Inr (Since flag_log 1 ''/r'' 0, 3)" by (simp add: Decode_response_def flag_xe_def base_xe_def)
  qed (use sub(2) m ls log news h(2) in \<open>simp_all add: zero_event_def\<close>)
  then show ?thesis by (simp add: flag_console_def printEvent_def wanted_def zero_event_def)
qed

end
