(* ===== verification/System.thy ===== *)
theory System
  imports Cli
begin

text \<open>
  The command line and the daemon together: the commands of \<open>Cli\<close> sent by the client of \<open>SocketClient\<close> to the server
  of \<open>Socket\<close>, whose handler is the daemon of \<open>Commands\<close>, and its answers read back.

  The world of the command line is here the server with the daemon in it; both work on one file system. The
  daemon handles the request between the moment it is written and the moment its answer is
  read; what other clients and the watchers do before and afterwards is in the server it starts from.
\<close>

section \<open>The daemon behind its socket\<close>

text \<open>The handler and the provider of the hello that \<open>startSocket\<close> installs.\<close>

definition daemon_server_env ::
  "'w daemon_env \<Rightarrow> event_log \<Rightarrow> 'w daemon server_env \<Rightarrow> 'w daemon server_env" where
  "daemon_server_env de log se =
     se\<lparr>se_handler := Some (\<lambda>d req. case run_state (HandleCommand de (Some log) req) d of (resp, d') \<Rightarrow> (Inr resp, d')),
        se_hello := Some (daemon_hello de)\<rparr>"

definition fresh_conn :: "'d server \<Rightarrow> nat" where
  "fresh_conn sv = Suc (foldr max (map fst (sv_table sv)) 0)"

text \<open>A new connection that sends the bytes \<open>input\<close>, which the server reads with a buffer of \<open>n\<close> bytes: what it is sent back.\<close>

definition serve :: "'w daemon_env \<Rightarrow> 'w daemon server_env \<Rightarrow> nat \<Rightarrow> string \<Rightarrow> 'w daemon server \<Rightarrow> string \<times> 'w daemon server" where
  "serve de se n input sv =
     (let i = fresh_conn sv;
          sv' = handle_client (daemon_server_env de (sv_log sv) se) i (fst (ReadLine n True MaxRequestSize input)) (accept i sv)
      in (case conn_of sv' i of None \<Rightarrow> [] | Some c \<Rightarrow> concat (sc_queue c), sv'))"

abbreviation new_client :: client where
  "new_client \<equiv> \<lparr>cl_in = [], cl_end = None, cl_out = [], cl_seq = 0\<rparr>"

definition daemon_connection ::
  "'w daemon_env \<Rightarrow> 'w daemon server_env \<Rightarrow> client_env \<Rightarrow> nat \<Rightarrow> socket_request \<Rightarrow> 'w daemon server \<Rightarrow> filesystem \<Rightarrow>
     connection \<times> 'w daemon server \<times> filesystem" where
  "daemon_connection de se ce n req sv fs =
     (case nextID req new_client of
        (req', c) \<Rightarrow>
          (case write_client ce req' c of
             (Some _, _) \<Rightarrow> ((ce, [], None), sv, fs)
           | (None, c') \<Rightarrow>
               (case serve de se n (cl_out c') (sv\<lparr>sv_daemon := (sv_daemon sv)\<lparr>dm_fs := fs\<rparr>\<rparr>) of
                  (out, sv') \<Rightarrow> ((ce, out, None), sv', dm_fs (sv_daemon sv')))))"

section \<open>What crosses the socket\<close>

text \<open>The system calls of the client succeed.\<close>

definition client_io :: "client_env \<Rightarrow> bool" where
  "client_io ce \<longleftrightarrow> ce_dial ce = None \<and> ce_write_deadline ce = None \<and> ce_write ce = None \<and> ce_read_deadline ce = None"

text \<open>
  The codecs carry this request and its response: each is encoded as one line within the limits, and decoded on the other
  side, the request to itself and the response to \<open>r\<close>.
\<close>

definition carries_request :: "client_env \<Rightarrow> 'd server_env \<Rightarrow> socket_request \<Rightarrow> bool" where
  "carries_request ce se req \<longleftrightarrow>
     (\<exists>line. ce_request ce req = Inr line \<and> se_request se line = (req, None) \<and> clean_line line \<and> length line \<le> MaxRequestSize)"

definition carries_response :: "client_env \<Rightarrow> 'd server_env \<Rightarrow> response \<Rightarrow> client_response \<Rightarrow> bool" where
  "carries_response ce se resp r \<longleftrightarrow>
     (\<exists>data. se_response se resp = Some data \<and> clean_line data \<and> length data < MaxTokenSize \<and>
        ce_probe ce data \<noteq> FrameHello \<and> ce_response ce data = Inr r) \<and>
     cr_ID r = rp_ID resp \<and> cr_OK r = rp_OK resp \<and> cr_Code r = rp_Code resp \<and> cr_Error r = rp_Error resp"

lemma fresh_conn_new: "conn_of sv (fresh_conn sv) = None"
proof -
  have "i \<le> foldr max is 0" if "i \<in> set is" for i :: nat and "is" using that by (induction "is") auto
  then have "fresh_conn sv \<notin> set (map fst (sv_table sv))" unfolding fresh_conn_def by (metis Suc_n_not_le_n)
  then show ?thesis unfolding conn_of_def by (simp add: map_of_eq_None_iff)
qed

section \<open>One request\<close>

text \<open>A line on an open connection with room gets one answer.\<close>

lemma handle_client_answers:
  assumes "conn_of sv i = Some c" and "\<not> sc_closed c" and "length (sc_queue c) < ClientQueueSize"
    and "clean_line line" and "se_request se line = (req, None)" and "rq_Cmd req \<noteq> CmdSubscribe"
    and "dispatch se req (sv_daemon sv) = (resp, d)" and "se_response se (resp\<lparr>rp_ID := rq_ID req\<rparr>) = Some data"
  shows "\<exists>c'. handle_client se i (Line line) sv = (set_conn i c' (sv\<lparr>sv_daemon := d\<rparr>))\<lparr>sv_panic := sv_panic sv \<or> sc_finished c\<rparr> \<and>
    sc_queue c' = sc_queue c @ [data @ [CHR 0x0A]]"
  using assms
  by (auto simp: handle_client_def handle_read_def clean_line_def sendJSON_def send_to_def send_conn_def Let_def conn_of_def set_conn_def)

lemma itoa_one: "itoa 1 = ''1''"
  by code_simp

lemma callDaemon_served:
  assumes io: "client_io ce" "0 < n" "xe_connect xe = daemon_connection de se ce n"
    and sv: "\<not> sv_done (co_world s)" "co_fs s = dm_fs (sv_daemon (co_world s))"
    and req: "rq_ID req = []" "rq_Cmd req \<notin> {[], CmdSubscribe}" "req' = req\<lparr>rq_ID := ''cli-1''\<rparr>" "carries_request ce se req'"
    and resp: "run_state (HandleCommand de (Some (sv_log (co_world s))) req') (sv_daemon (co_world s)) = (resp, d')"
      "carries_response ce se (resp\<lparr>rp_ID := ''cli-1''\<rparr>) r"
  shows "\<exists>s'. run_state (callDaemon xe req) s = (Answer r, s') \<and> sv_daemon (co_world s') = d' \<and> co_fs s' = dm_fs d' \<and>
    co_out s' = co_out s \<and> co_calls s' = co_calls s \<and>
    (\<forall>j c. conn_of (co_world s) j = Some c \<longrightarrow> conn_of (co_world s') j = Some c)"
proof -
  let ?sv = "co_world s" and ?de = "daemon_server_env de (sv_log (co_world s)) se"
  let ?i = "fresh_conn ?sv"
  obtain line where line: "ce_request ce req' = Inr line" "se_request se line = (req', None)" "clean_line line" "length line \<le> MaxRequestSize"
    using req(4) unfolding carries_request_def by blast
  obtain data where data: "se_response se (resp\<lparr>rp_ID := ''cli-1''\<rparr>) = Some data" "clean_line data" "length data < MaxTokenSize"
    "ce_probe ce data \<noteq> FrameHello" "ce_response ce data = Inr r" "cr_ID r = ''cli-1''"
    using resp(2) unfolding carries_response_def by auto
  have id: "nextID req new_client = (req', new_client\<lparr>cl_seq := 1\<rparr>)"
    using req(1,3) by (simp add: nextID_def itoa_one)
  have w: "write_client ce req' (c :: client) = (None, c\<lparr>cl_out := cl_out c @ line @ [CHR 0x0A]\<rparr>)" for c
    using io(1) line(1) by (simp add: write_client_ok client_io_def)
  have dp: "dispatch ?de req' (sv_daemon ?sv) = (resp, d')"
    using req(2,3) resp(1) by (simp add: dispatch_def daemon_server_env_def)
  obtain c' where h: "handle_client ?de ?i (Line line) (accept ?i ?sv) = (set_conn ?i c' ((accept ?i ?sv)\<lparr>sv_daemon := d'\<rparr>))\<lparr>sv_panic := sv_panic (accept ?i ?sv)\<rparr>"
    and q: "sc_queue c' = [data @ [CHR 0x0A]]"
    using handle_client_answers [of "accept ?i ?sv" ?i newSocketConn line ?de req' resp d' data] sv(1) line dp data(1) req(2,3)
    by (auto simp: accept_def newSocketConn_def ClientQueueSize_def daemon_server_env_def conn_of_def set_conn_def)
  let ?sv' = "(set_conn ?i c' ((accept ?i ?sv)\<lparr>sv_daemon := d'\<rparr>))\<lparr>sv_panic := sv_panic (accept ?i ?sv)\<rparr>"
  have "serve de se n (line @ [CHR 0x0A]) ?sv = (data @ [CHR 0x0A], ?sv')"
    using ReadLine_line [OF line(3,4) io(2), of True "[]"] h q by (simp add: serve_def Let_def conn_of_def set_conn_def)
  then have "xe_connect xe req ?sv (co_fs s) = ((ce, data @ [CHR 0x0A], None), ?sv', dm_fs d')"
    using io(3) sv(2) by (simp add: daemon_connection_def id w set_conn_def)
  moreover have "fst (SendCommand ce req (new_client\<lparr>cl_in := data @ [CHR 0x0A]\<rparr>)) = Inr r"
    using nextID_in(1) [OF id] w readResponse_ok [OF _ data(2-5), of "''cli-1''" _ "[]"] io(1) data(6) req(3)
    by (simp add: SendCommand_def client_io_def)
  ultimately have "run_state (callDaemon xe req) s = (Answer r, (set_world ?sv' s)\<lparr>co_fs := dm_fs d'\<rparr>)"
    using io(1) by (simp add: callDaemon_def connect_def NewSocketClient_def client_io_def)
  moreover have "\<forall>j c. conn_of ?sv j = Some c \<longrightarrow> conn_of ?sv' j = Some c"
    using fresh_conn_new [of ?sv] sv(1) by (auto simp: conn_of_def set_conn_def accept_def update_conv')
  ultimately show ?thesis using sv(1) by (simp add: set_conn_def accept_def set_world_def)
qed

section \<open>Adding\<close>

lemma ErrorCode_coded: "ErrorCode (Some (CodedError c m)) = c"
  by (simp add: ErrorCode_def as_coded_def)

lemma cfg_Read_nonempty: "cfg_Read de d = Some c \<Longrightarrow> rp \<in> set (cfg_Repos c) \<Longrightarrow> rp \<noteq> []"
  by (auto simp: cfg_Read_def ReadV1_def NormalizeRepos_eq dest!: Clean_not_Nil [THEN notE, OF sym] split: option.splits read_result.splits if_splits)

lemma RepoRoot_code:
  assumes "fst (run_state (RepoRoot env pe path) s) = Inl e" and "is_abs path"
  shows "ErrorCode (Some e) \<noteq> CodeAlreadyExists"
  using assms by (auto simp: RepoRoot_def Abs_def root_error_def split_beta ErrorCode_coded split: option.splits if_splits)

lemma AddRepo_result:
  assumes "run_state (AddRepo de path) d = ((root, err), d')" and "is_abs path"
    and "err = None \<or> ErrorCode err = CodeAlreadyExists"
  shows "root \<noteq> []"
proof -
  obtain found s1 where rr: "run_state (RepoRoot (de_env de) (de_paths de) path) (dm_sys d) = (found, s1)" by (metis surj_pair)
  show ?thesis
  proof (cases found)
    case (Inl e)
    then show ?thesis using assms rr RepoRoot_code [of "de_env de" "de_paths de" path "dm_sys d" e]
      by (auto simp: AddRepo_def ErrorCode_coded split: if_splits)
  next
    case (Inr r)
    have "r \<noteq> []" using RepoRoot_clean rr Inr by (metis fst_conv)
    then show ?thesis using assms rr Inr cfg_Read_nonempty [of de "d\<lparr>dm_sys := s1\<rparr>"]
      by (auto simp: AddRepo_def cannot_read_def cannot_write_def Let_def ErrorCode_coded find_Some_iff in_set_conv_nth
          split: option.splits prod.splits if_splits)
  qed
qed

text \<open>What the daemon answers to a request to add the repository at a clean absolute path.\<close>

lemma HandleCommand_add:
  assumes "run_state (HandleCommand de log req) d = (resp, d')" and "rq_Cmd req = CmdAdd" and "rq_Repo req = root"
    and "Clean root = root"
  shows "(rp_OK resp \<longrightarrow> (\<exists>r err. is_abs root \<and> run_state (AddRepo de root) d = ((r, err), d') \<and> r \<noteq> [] \<and>
      (\<exists>status. rp_Result resp = Some (CommandResult status r)))) \<and>
    (\<not> rp_OK resp \<longrightarrow> rp_Code resp \<noteq> CodeAlreadyExists)"
proof (cases "root \<noteq> [] \<and> is_abs root")
  case True
  obtain r err d1 where a: "run_state (AddRepo de root) d = ((r, err), d1)" by (metis surj_pair)
  have "run_state (HandleCommand de log req) d =
      (if ErrorCode err = CodeAlreadyExists then commandOK CodeAlreadyExists (if r = [] then root else r)
       else (case err of Some e \<Rightarrow> errResponse e | None \<Rightarrow> commandOK ''added'' r), d1)"
    using True a assms(2-4) by (simp add: HandleCommand_def handle_repo_def repo_commands_def command_names)
  then show ?thesis using assms(1) True a AddRepo_result [OF a]
    by (auto simp: commandOK_def OKResponse_def errResponse_def ErrResponse_def split: if_splits option.splits)
next
  case False
  then show ?thesis using assms
    by (auto simp: HandleCommand_def repo_commands_def command_names ErrResponse_def split: if_splits)
qed

section \<open>Properties\<close>


text \<open>
  C25. With a daemon running, \<open>daemon add\<close> does what it says: if it returns nil, it has printed one line that names a
  repository, and the daemon watches the folder of that name, under this name or another one. The
  hypotheses: the daemon that the request finds is in a state it can reach and is not stopping, and the codecs carry the request
  and the daemon's response, whose repository the command line decodes.
\<close>

theorem add_with_daemon:
  assumes io: "client_io ce" "0 < n" "xe_connect xe = daemon_connection de se ce n"
    and root: "run_state (RepoRoot (xe_env xe) (xe_paths xe) arg) (co_sys s) = (Inr root, sys)"
    and sv: "\<not> sv_done (sy_world sys)" "co_fs s = dm_fs (sv_daemon (sy_world sys))" "\<not> dm_cancelled (sv_daemon (sy_world sys))"
      "daemon_reachable de (init sys0 fs0) (sv_daemon (sy_world sys))"
    and codec: "req = (request CmdAdd)\<lparr>rq_ID := ''cli-1'', rq_Repo := root\<rparr>" "carries_request ce se req"
      "run_state (HandleCommand de (Some (sv_log (sy_world sys))) req) (sv_daemon (sy_world sys)) = (resp, d')"
      "carries_response ce se (resp\<lparr>rp_ID := ''cli-1''\<rparr>) r"
      "\<And>status p. rp_Result resp = Some (CommandResult status p) \<Longrightarrow> cr_Result r \<noteq> [] \<and> xe_command_dec xe (cr_Result r) = (None, status, p)"
    and run: "run_state (addRepo_cli xe arg) s = (None, s')"
  shows "\<exists>p q. co_out s' \<in> {co_out s @ [Out (''Now monitoring '' @ p)], co_out s @ [Out (''Already monitoring '' @ p)]} \<and>
    sv_daemon (co_world s') = d' \<and> map_of (dm_watchers d') q \<noteq> None \<and>
    ResolvePath (de_paths de) (dm_world d') q = ResolvePath (de_paths de) (dm_world d') p"
proof -
  let ?s = "s\<lparr>co_sys := sys\<rparr>"
  have "Clean root = root" using RepoRoot_clean root by (metis fst_conv)
  then have "rq_Cmd req = CmdAdd" "rq_Repo req = root" "Clean root = root" using codec(1) by (simp_all add: request_def)
  note h = HandleCommand_add [OF codec(3) this]
  obtain t where t: "run_state (callDaemon xe ((request CmdAdd)\<lparr>rq_Repo := root\<rparr>)) ?s = (Answer r, t)"
    "sv_daemon (co_world t) = d'" "co_out t = co_out s"
    using callDaemon_served [OF io, of ?s "(request CmdAdd)\<lparr>rq_Repo := root\<rparr>" req resp d' r] sv codec
    by (auto simp: request_def subscribe_request_def command_names)
  have add: "run_state (add_answered xe root r) t = (None, s')"
    using run root t(1) by (simp add: addRepo_cli_def on_console_def)
  have r: "cr_OK r = rp_OK resp" "cr_Code r = rp_Code resp" using codec(4) by (simp_all add: carries_response_def)
  have ok: "rp_OK resp" using add r h by (auto simp: add_answered_def Err_response_def split: if_splits)
  then obtain p err status where p: "run_state (AddRepo de root) (sv_daemon (sy_world sys)) = ((p, err), d')" "p \<noteq> []"
    "rp_Result resp = Some (CommandResult status p)"
    using h by auto
  have "s' = t\<lparr>co_out := co_out s @ [Out ((if status = CodeAlreadyExists then ''Already monitoring '' else ''Now monitoring '') @ p)]\<rparr>"
    using add r ok p(2) t(3) codec(5) [OF p(3)] by (simp add: add_answered_def Let_def print_out_def)
  then show ?thesis using AddRepo_watches [OF sv(4,3) p(1,2)] t(2) by auto
qed

section \<open>An example\<close>

text \<open>A daemon whose git says that every folder is in the repository \<open>/r\<close>, with no configuration yet.\<close>

definition net_de :: "unit daemon_env" where
  "net_de = demo_daemon_env\<lparr>de_env := flag_env\<rparr>"

definition net_se :: "unit daemon server_env" where
  "net_se =
     \<lparr>se_response = \<lambda>r. Some (if rp_OK r then ''ok'' else ''no''), se_hello_frame = \<lambda>_. None, se_event = \<lambda>_. None, se_state = \<lambda>_. None,
      se_request = \<lambda>l. ((request (if l = ''a'' then CmdAdd else CmdSyncNow))\<lparr>rq_ID := ''cli-1'', rq_Repo := ''/r''\<rparr>, None),
      se_handler = None, se_hello = None, se_line = ev_Type\<rparr>"

definition net_ce :: client_env where
  "net_ce = demo_client_env\<lparr>
     ce_request := \<lambda>req. Inr (if rq_Cmd req = CmdAdd then ''a'' else ''s''), ce_probe := \<lambda>_. [],
     ce_response := \<lambda>l. Inr \<lparr>cr_ID = ''cli-1'', cr_OK = (l = ''ok''), cr_Result = (if l = ''ok'' then ''x'' else []),
       cr_Error = (if l = ''ok'' then [] else ''repo is not being watched''), cr_Code = (if l = ''ok'' then [] else CodeNotWatching)\<rparr>\<rparr>"

definition net_server :: "unit daemon server" where
  "net_server =
     \<lparr>sv_daemon = init demo_sys Map.empty, sv_log = NewMemoryEventLog 4, sv_disk = [], sv_table = [(3, newSocketConn)],
      sv_conns = [3], sv_subs = [], sv_done = False, sv_panic = False, sv_emitted = []\<rparr>"

definition net_xe :: "unit daemon server cli_env" where
  "net_xe = (base_xe \<lparr>sa_executable = Inr [], sa_mkdir = \<lambda>w. (None, w), sa_new = \<lambda>_. None, sa_status = \<lambda>_. (StatusRunning, None),
     sa_call = \<lambda>_ w. (None, w)\<rparr> (daemon_connection net_de net_se net_ce 16))\<lparr>xe_command_dec := \<lambda>_. (None, ''added'', ''/r'')\<rparr>"

lemma net_laws:
  "client_io net_ce" "xe_connect net_xe = daemon_connection net_de net_se net_ce 16" "\<not> sv_done net_server"
  "co_world (flag_console net_server) = net_server" "co_fs (flag_console net_server) = dm_fs (sv_daemon net_server)"
  "daemon_reachable net_de (init demo_sys Map.empty) (sv_daemon net_server)" "\<not> dm_cancelled (sv_daemon net_server)"
  by (simp_all add: client_io_def net_ce_def demo_client_env_def net_xe_def base_xe_def net_server_def flag_console_def
      flag_sys_def init_def daemon_begin)

lemma net_request:
  "cmd = CmdAdd \<or> cmd = CmdSyncNow \<Longrightarrow> carries_request net_ce net_se ((request cmd)\<lparr>rq_ID := ''cli-1'', rq_Repo := ''/r''\<rparr>)"
proof -
  have "clean_line ''a''" "clean_line ''s''" by code_simp+
  then show "cmd = CmdAdd \<or> cmd = CmdSyncNow \<Longrightarrow> ?thesis"
    by (auto simp: carries_request_def net_ce_def net_se_def request_def subscribe_request_def command_names MaxRequestSize_def)
qed

abbreviation net_view :: "bool \<Rightarrow> client_response" where
  "net_view ok \<equiv> \<lparr>cr_ID = ''cli-1'', cr_OK = ok, cr_Result = (if ok then ''x'' else []),
     cr_Error = (if ok then [] else ''repo is not being watched''), cr_Code = (if ok then [] else CodeNotWatching)\<rparr>"

lemma net_response:
  "rp_ID resp = ''cli-1'' \<Longrightarrow> rp_Error resp = cr_Error (net_view (rp_OK resp)) \<Longrightarrow> rp_Code resp = cr_Code (net_view (rp_OK resp)) \<Longrightarrow>
   carries_response net_ce net_se resp (net_view (rp_OK resp))"
proof -
  have "clean_line ''ok''" "clean_line ''no''" by code_simp+
  then show "rp_ID resp = ''cli-1'' \<Longrightarrow> rp_Error resp = cr_Error (net_view (rp_OK resp)) \<Longrightarrow>
      rp_Code resp = cr_Code (net_view (rp_OK resp)) \<Longrightarrow> ?thesis"
    by (auto simp: carries_response_def net_ce_def net_se_def MaxTokenSize_def FrameHello_def)
qed

lemma net_handled:
  "fst (run_state (HandleCommand net_de (Some (sv_log net_server)) ((request CmdSyncNow)\<lparr>rq_ID := ''cli-1'', rq_Repo := ''/r''\<rparr>)) (sv_daemon net_server)) =
     ErrResponse CodeNotWatching ''repo is not being watched''"
  "fst (run_state (HandleCommand net_de (Some (sv_log net_server)) ((request CmdAdd)\<lparr>rq_ID := ''cli-1'', rq_Repo := ''/r''\<rparr>)) (sv_daemon net_server)) =
     commandOK ''added'' ''/r''"
  by code_simp+

lemma flag_env_attempts: "\<exists>out err ts. run_state (git_attempts (Suc n) flag_env ctx cfg ps as i b o1 e1) s =
  ((out, err, None), s\<lparr>sy_trace := ts\<rparr>)"
  by (auto simp add: exec_git_def flag_env_def split_beta)

lemma flag_env_keeps: "sy_world (snd (run_state (RepoRoot flag_env pe p) s)) = sy_world s"
proof -
  have "maxAttempts = Suc 4" by (simp add: maxAttempts_def)
  then have "\<exists>out err ts. run_state (git_attempts maxAttempts flag_env ctx cfg ps as i b o1 e1) s =
      ((out, err, None), s\<lparr>sy_trace := ts\<rparr>)" for ctx cfg ps as i b o1 e1
    using flag_env_attempts [of 4 ctx cfg ps as i b o1 e1 s] by metis
  then have "sy_world (snd (run_state (runGit flag_env ctx cfg ps as i) s)) = sy_world s" for ctx cfg ps as i
    unfolding runGit_def runGitFull_def by (auto simp: split_beta split: option.split) (metis snd_conv sys.select_convs(1) sys.surjective sys.update_convs(4))+
  then show ?thesis by (simp add: RepoRoot_def split_beta split: sum.split option.split)
qed


theorem add_with_daemon_witness:
  "\<exists>p q. co_out (snd (run_state (addRepo_cli net_xe ''.'') (flag_console net_server))) \<in>
     {[Out (''Now monitoring '' @ p)], [Out (''Already monitoring '' @ p)]} \<and>
   map_of (dm_watchers (sv_daemon (co_world (snd (run_state (addRepo_cli net_xe ''.'') (flag_console net_server)))))) q \<noteq> None"
proof -
  let ?req = "(request CmdAdd)\<lparr>rq_ID := ''cli-1'', rq_Repo := ''/r''\<rparr>"
  let ?h = "run_state (HandleCommand net_de (Some (sv_log net_server)) ?req) (sv_daemon net_server)"
  let ?root = "run_state (RepoRoot (xe_env net_xe) (xe_paths net_xe) ''.'') (co_sys (flag_console net_server))"
  let ?run = "run_state (addRepo_cli net_xe ''.'') (flag_console net_server)"
  let ?s = "(flag_console net_server)\<lparr>co_sys := snd ?root\<rparr>"
  have "map_sum (\<lambda>_. ()) id (fst ?root) = Inr ''/r''" by code_simp
  then have r: "?root = (Inr ''/r'', snd ?root)" by (cases "fst ?root"; simp add: prod_eq_iff)
  have w: "sy_world (snd ?root) = net_server" by (simp add: flag_env_keeps net_xe_def base_xe_def flag_console_def flag_sys_def)
  have h: "?h = (commandOK ''added'' ''/r'', snd ?h)" using net_handled(2) by (simp add: prod_eq_iff)
  have v: "carries_response net_ce net_se ((commandOK ''added'' ''/r'')\<lparr>rp_ID := ''cli-1''\<rparr>) (net_view True)"
    using net_response [of "(commandOK ''added'' ''/r'')\<lparr>rp_ID := ''cli-1''\<rparr>"] by (simp add: commandOK_def OKResponse_def)
  have "\<exists>t. run_state (callDaemon net_xe ((request CmdAdd)\<lparr>rq_Repo := ''/r''\<rparr>)) ?s = (Answer (net_view True), t)"
    using callDaemon_served [OF net_laws(1) _ net_laws(2), of ?s "(request CmdAdd)\<lparr>rq_Repo := ''/r''\<rparr>" ?req
        "commandOK ''added'' ''/r''" "snd ?h" "net_view True"] h v w net_laws(3,5) net_request [of CmdAdd]
    by (auto simp: request_def subscribe_request_def command_names)
  then have "fst ?run = None"
    using r by (auto simp: addRepo_cli_def on_console_def add_answered_def net_xe_def base_xe_def split: prod.splits sum.splits)
  then have run: "?run = (None, snd ?run)" by (simp add: prod_eq_iff)
  have "\<exists>p q. co_out (snd ?run) \<in> {co_out (flag_console net_server) @ [Out (''Now monitoring '' @ p)],
        co_out (flag_console net_server) @ [Out (''Already monitoring '' @ p)]} \<and>
      sv_daemon (co_world (snd ?run)) = snd ?h \<and> map_of (dm_watchers (snd ?h)) q \<noteq> None \<and>
      ResolvePath (de_paths net_de) (dm_world (snd ?h)) q = ResolvePath (de_paths net_de) (dm_world (snd ?h)) p"
    by (rule add_with_daemon [OF net_laws(1) _ net_laws(2) r, where req = ?req and resp = "commandOK ''added'' ''/r''" and r = "net_view True"])
      (use w h v run net_laws net_request [of CmdAdd] in
        \<open>simp_all add: commandOK_def OKResponse_def net_xe_def base_xe_def\<close>)
  moreover have "co_out (flag_console net_server) = []" by (simp add: flag_console_def)
  ultimately show ?thesis by (metis append_Nil)
qed

end
