(* ===== verification/Logging.thy ===== *)
theory Logging
  imports GoPath
begin

text \<open>
  \<open>common/logging.go\<close>: the log file of the daemon, rotated by size.

  The files are a map from names to contents. Every system call can fail: a \<open>log_env\<close> says which
  do, for one call of an operation; calls made more than once are numbered (\<open>le_open\<close>: 0 in
  \<open>Write\<close>, 1 in \<open>rotate\<close>; \<open>le_rename\<close>: the number of the backup, 0 for the log itself). An open
  handle always refers to the file at the writer's path, since only the writer renames it. File
  sizes are integers: they stay far below \<open>2^63\<close>.
\<close>

section \<open>Files and system calls\<close>

type_synonym log_fs = "string \<rightharpoonup> string"

record log_env =
  le_mkdir :: bool
  le_open :: "nat \<Rightarrow> bool"
  le_stat :: "nat \<Rightarrow> bool"
  le_close :: bool
  le_truncate :: bool
  le_remove :: bool
  le_rename :: "nat \<Rightarrow> bool"
  le_write :: nat

definition fs_text :: "log_fs \<Rightarrow> string \<Rightarrow> string" where
  "fs_text fs p = (case fs p of None \<Rightarrow> [] | Some c \<Rightarrow> c)"

definition fs_rename :: "bool \<Rightarrow> string \<Rightarrow> string \<Rightarrow> log_fs \<Rightarrow> log_fs" where
  "fs_rename ok a b fs =
     (case fs a of None \<Rightarrow> fs | Some c \<Rightarrow> if ok then (fs(a := None))(b \<mapsto> c) else fs)"

section \<open>The writer\<close>

record rotating_writer =
  rw_path :: string
  rw_maxBytes :: int
  rw_maxFiles :: nat
  rw_f :: bool
  rw_size :: int

definition LogMaxBytes :: int where "LogMaxBytes = 5 * 1024 * 1024"
definition LogMaxFiles :: int where "LogMaxFiles = 3"

definition backupName :: "rotating_writer \<Rightarrow> nat \<Rightarrow> string" where
  "backupName w i = rw_path w @ ''.'' @ itoa (int i)"

definition open_log :: "log_env \<Rightarrow> nat \<Rightarrow> rotating_writer \<Rightarrow> log_fs \<Rightarrow> bool \<times> rotating_writer \<times> log_fs" where
  "open_log e k w fs =
     (if \<not> le_open e k then (False, w, fs)
      else
        let fs' = fs(rw_path w \<mapsto> fs_text fs (rw_path w))
        in if \<not> le_stat e k then (False, w, fs')
           else (True, w\<lparr>rw_f := True, rw_size := int (length (fs_text fs (rw_path w)))\<rparr>, fs'))"

definition NewRotatingWriter ::
  "log_env \<Rightarrow> string \<Rightarrow> int \<Rightarrow> int \<Rightarrow> log_fs \<Rightarrow> rotating_writer option \<times> log_fs" where
  "NewRotatingWriter e path maxBytes maxFiles fs =
     (let w = \<lparr>rw_path = path, rw_maxBytes = maxBytes,
               rw_maxFiles = nat (if maxFiles < 1 then 1 else maxFiles), rw_f = False, rw_size = 0\<rparr>
      in if \<not> le_mkdir e then (None, fs)
         else (case open_log e 0 w fs of (ok, w', fs') \<Rightarrow> (if ok then Some w' else None, fs')))"

text \<open>The loop of \<open>rotate\<close> over the backups, from the given one down to the first.\<close>

primrec shift_backups :: "log_env \<Rightarrow> rotating_writer \<Rightarrow> nat \<Rightarrow> log_fs \<Rightarrow> log_fs" where
  "shift_backups e w 0 fs = fs"
| "shift_backups e w (Suc i) fs =
     shift_backups e w i (fs_rename (le_rename e (Suc i)) (backupName w (Suc i)) (backupName w (Suc i + 1)) fs)"

definition rotate_log :: "log_env \<Rightarrow> rotating_writer \<Rightarrow> log_fs \<Rightarrow> bool \<times> rotating_writer \<times> log_fs" where
  "rotate_log e w0 fs =
     (let w = w0\<lparr>rw_f := False\<rparr> in
      if rw_maxFiles w = 1 then
        (case fs (rw_path w) of
           None \<Rightarrow> open_log e 1 w fs
         | Some _ \<Rightarrow> if le_truncate e then open_log e 1 w (fs(rw_path w \<mapsto> [])) else (False, w, fs))
      else
        let fs1 = (if le_remove e then fs(backupName w (rw_maxFiles w - 1) := None) else fs);
            fs2 = shift_backups e w (rw_maxFiles w - 2) fs1
        in (case fs2 (rw_path w) of
              None \<Rightarrow> open_log e 1 w fs2
            | Some _ \<Rightarrow>
                if le_rename e 0 then open_log e 1 w (fs_rename True (rw_path w) (backupName w 1) fs2)
                else (False, w, fs2)))"

definition Write_log ::
  "log_env \<Rightarrow> rotating_writer \<Rightarrow> log_fs \<Rightarrow> string \<Rightarrow> (nat \<times> bool) \<times> rotating_writer \<times> log_fs" where
  "Write_log e w fs p =
     (case (if rw_f w then (True, w, fs) else open_log e 0 w fs) of
        (ok1, w1, fs1) \<Rightarrow>
          if \<not> ok1 then ((0, False), w1, fs1)
          else
            (case (if 0 < rw_maxBytes w1 \<and> 0 < rw_size w1 \<and> rw_maxBytes w1 < rw_size w1 + int (length p)
                   then rotate_log e w1 fs1 else (True, w1, fs1)) of
               (ok2, w2, fs2) \<Rightarrow>
                 if \<not> ok2 then ((0, False), w2, fs2)
                 else
                   let n = min (le_write e) (length p)
                   in ((n, n = length p), w2\<lparr>rw_size := rw_size w2 + int n\<rparr>,
                       fs2(rw_path w2 \<mapsto> fs_text fs2 (rw_path w2) @ take n p))))"

definition Close_writer :: "log_env \<Rightarrow> rotating_writer \<Rightarrow> bool \<times> rotating_writer" where
  "Close_writer e w = (if \<not> rw_f w then (True, w) else (le_close e, w\<lparr>rw_f := False\<rparr>))"

section \<open>What the log holds\<close>

text \<open>The names of the log's files, oldest first, and the text in them.\<close>

definition log_names :: "rotating_writer \<Rightarrow> string list" where
  "log_names w = map (backupName w) (rev [1..<rw_maxFiles w]) @ [rw_path w]"

definition log_text :: "rotating_writer \<Rightarrow> log_fs \<Rightarrow> string" where
  "log_text w fs = concat (map (fs_text fs) (log_names w))"

text \<open>What an open writer knows of its file.\<close>

definition writer_ok :: "rotating_writer \<Rightarrow> log_fs \<Rightarrow> bool" where
  "writer_ok w fs \<longleftrightarrow> 1 \<le> rw_maxFiles w \<and>
     (rw_f w \<longrightarrow> fs (rw_path w) \<noteq> None \<and> rw_size w = int (length (fs_text fs (rw_path w))))"

text \<open>An environment in which every call for writing \<open>p\<close> succeeds.\<close>

definition log_calls_ok :: "log_env \<Rightarrow> string \<Rightarrow> bool" where
  "log_calls_ok e p \<longleftrightarrow> le_open e 0 \<and> le_open e 1 \<and> le_stat e 0 \<and> le_stat e 1 \<and> le_truncate e \<and> le_remove e \<and>
     (\<forall>i. le_rename e i) \<and> length p \<le> le_write e"

text \<open>Writes in sequence, each in its own environment.\<close>

fun log_run :: "(log_env \<times> string) list \<Rightarrow> rotating_writer \<times> log_fs \<Rightarrow> rotating_writer \<times> log_fs" where
  "log_run [] s = s"
| "log_run ((e, p) # ps) (w, fs) = log_run ps (snd (Write_log e w fs p))"

lemma itoa_int_inj: "itoa (int i) = itoa (int j) \<Longrightarrow> i = j"
proof -
  assume "itoa (int i) = itoa (int j)"
  then have "nat_digits i = nat_digits j" by (simp add: itoa_def)
  then have "Some (int i) = Some (int j)" using parse_nat_digits by metis
  then show ?thesis by simp
qed

lemma backupName_eq [simp]: "backupName w i = backupName w j \<longleftrightarrow> i = j"
  using itoa_int_inj by (auto simp: backupName_def)

lemma backupName_path [simp]: "backupName w i \<noteq> rw_path w" "rw_path w \<noteq> backupName w i"
  by (simp_all add: backupName_def)

lemma backupName_upd [simp]: "backupName (w\<lparr>rw_f := b\<rparr>) = backupName w" "backupName (w\<lparr>rw_size := n\<rparr>) = backupName w"
  by (simp_all add: backupName_def fun_eq_iff)

lemma shift_backups_upd [simp]: "shift_backups e (w\<lparr>rw_f := b\<rparr>) k = shift_backups e w k"
  by (induction k) (simp_all add: fun_eq_iff)

lemma log_names_upd [simp]: "log_names (w\<lparr>rw_f := b\<rparr>) = log_names w" "log_names (w\<lparr>rw_size := n\<rparr>) = log_names w"
  by (simp_all add: log_names_def)

lemma fs_text_simps [simp]:
  "fs_text (fs(p \<mapsto> c)) q = (if q = p then c else fs_text fs q)"
  "fs_text (fs(p := None)) q = (if q = p then [] else fs_text fs q)"
  by (simp_all add: fs_text_def)

lemma distinct_log_names: "distinct (log_names w)"
  by (auto simp: log_names_def distinct_map inj_on_def)

section \<open>Rotation\<close>

lemma shift_other:
  "(\<And>j. 1 \<le> j \<Longrightarrow> j \<le> Suc k \<Longrightarrow> q \<noteq> backupName w j) \<Longrightarrow> shift_backups e w k fs q = fs q"
proof (induction k arbitrary: fs)
  case (Suc k)
  have "shift_backups e w (Suc k) fs q =
      fs_rename (le_rename e (Suc k)) (backupName w (Suc k)) (backupName w (Suc k + 1)) fs q"
    using Suc by (simp del: backupName_eq)
  also have "\<dots> = fs q" using Suc.prems [of "Suc k"] Suc.prems [of "Suc k + 1"]
    by (simp add: fs_rename_def split: option.split)
  finally show ?case .
qed simp

lemma shift_first:
  assumes "\<And>i. le_rename e i" and "fs (backupName w (Suc k)) = None"
  shows "shift_backups e w k fs (backupName w 1) = None"
  using assms(2)
proof (induction k arbitrary: fs)
  case (Suc k)
  show ?case
    unfolding shift_backups.simps
    by (rule Suc.IH) (use assms(1) Suc.prems in \<open>simp add: fs_rename_def split: option.split\<close>)
qed simp

lemma shift_moves:
  assumes "\<And>i. le_rename e i" and "fs (backupName w (Suc k)) = None" and "1 \<le> j" and "j \<le> k"
  shows "shift_backups e w k fs (backupName w (Suc j)) = fs (backupName w j)"
  using assms(2,4)
proof (induction k arbitrary: fs)
  case (Suc k)
  let ?fs = "fs_rename (le_rename e (Suc k)) (backupName w (Suc k)) (backupName w (Suc k + 1)) fs"
  show ?case
  proof (cases "j = Suc k")
    case True
    have "shift_backups e w k ?fs (backupName w (Suc j)) = ?fs (backupName w (Suc j))"
      using True by (intro shift_other) simp
    also have "\<dots> = fs (backupName w j)"
      using True assms(1) Suc.prems(1) by (simp add: fs_rename_def split: option.split)
    finally show ?thesis by simp
  next
    case False
    have "shift_backups e w k ?fs (backupName w (Suc j)) = ?fs (backupName w j)"
      using False Suc.prems assms(1) by (intro Suc.IH) (auto simp: fs_rename_def split: option.split)
    also have "\<dots> = fs (backupName w j)"
      using False Suc.prems(2) by (simp add: fs_rename_def split: option.split)
    finally show ?thesis by simp
  qed
qed (use assms(3) in simp)

text \<open>
  A rotation in which every call succeeds moves every file to the next older name: the oldest one
  is dropped and the log itself is empty.
\<close>

lemma rotate_log_moves:
  assumes "\<And>i. le_rename e i" and "le_remove e" and "le_open e 1" and "le_stat e 1"
    and "2 \<le> rw_maxFiles w" and "fs (rw_path w) = Some c"
  shows "\<exists>fs'. rotate_log e w fs = (True, w\<lparr>rw_f := True, rw_size := 0\<rparr>, fs') \<and>
    fs' (rw_path w) = Some [] \<and> fs' (backupName w 1) = Some c \<and>
    (\<forall>j. 1 \<le> j \<and> Suc j < rw_maxFiles w \<longrightarrow> fs' (backupName w (Suc j)) = fs (backupName w j)) \<and>
    (\<forall>q. q \<notin> set (log_names w) \<longrightarrow> fs' q = fs q)"
proof -
  let ?m = "rw_maxFiles w"
  let ?fs1 = "fs(backupName w (?m - 1) := None)"
  let ?fs2 = "shift_backups e w (?m - 2) ?fs1"
  have Suc: "Suc (?m - 2) = ?m - 1" using assms(5) by simp
  have p: "?fs2 (rw_path w) = Some c" using assms(6) by (simp add: shift_other)
  let ?fs3 = "(?fs2(rw_path w := None))(backupName w 1 \<mapsto> c)"
  have "rotate_log e w fs = (True, w\<lparr>rw_f := True, rw_size := 0\<rparr>, ?fs3(rw_path w \<mapsto> []))"
    using assms p by (simp add: rotate_log_def Let_def fs_rename_def open_log_def)
  moreover have "?fs2 (backupName w (Suc j)) = fs (backupName w j)" if "1 \<le> j" "Suc j < ?m" for j
    using that assms(1) shift_moves [of e ?fs1 w "?m - 2" j] Suc by auto
  moreover have "?fs2 q = fs q" if "q \<notin> set (log_names w)" for q
    using that assms(5) Suc by (subst shift_other) (auto simp: log_names_def)
  ultimately show ?thesis using assms(5) by (auto simp: log_names_def)
qed

lemma log_names_two:
  "2 \<le> rw_maxFiles w \<Longrightarrow>
    log_names w = map (backupName w) (rev [2..<rw_maxFiles w]) @ [backupName w 1, rw_path w]"
  using upt_conv_Cons [of 1 "rw_maxFiles w"] by (simp add: log_names_def numeral_2_eq_2)

lemma rotate_log_text:
  assumes "fs' (rw_path w) = Some []" and "fs' (backupName w 1) = fs (rw_path w)"
    and "\<And>j. 1 \<le> j \<Longrightarrow> Suc j < rw_maxFiles w \<Longrightarrow> fs' (backupName w (Suc j)) = fs (backupName w j)"
    and m: "2 \<le> rw_maxFiles w"
  shows "log_text w fs = fs_text fs (backupName w (rw_maxFiles w - 1)) @ log_text w fs'"
proof -
  let ?m = "rw_maxFiles w"
  have u: "log_names w = backupName w (?m - 1) # map (backupName w) (rev [1..<?m - 1]) @ [rw_path w]"
    using m upt_Suc_append [of 1 "?m - 1"] by (simp add: log_names_def)
  have v: "[2..<?m] = map Suc [1..<?m - 1]" using m by (simp add: map_Suc_upt numeral_2_eq_2)
  have "map (fs_text fs') (map (backupName w) (rev [2..<?m])) = map (fs_text fs) (map (backupName w) (rev [1..<?m - 1]))"
    using assms(3) unfolding v by (auto simp: fs_text_def rev_map)
  then have "log_text w fs' = concat (map (fs_text fs) (map (backupName w) (rev [1..<?m - 1]))) @ fs_text fs (rw_path w)"
    using assms(1,2) by (simp add: log_text_def log_names_two [OF m] fs_text_def del: map_map)
  then show ?thesis by (simp add: log_text_def [of w fs] u)
qed

section \<open>Writing\<close>

text \<open>
  One write: what \<open>open_log\<close> and \<open>rotate_log\<close> leave is again a log with a correct writer, whose
  text is the old text without a beginning.
\<close>

definition log_step :: "rotating_writer \<Rightarrow> log_fs \<Rightarrow> rotating_writer \<Rightarrow> log_fs \<Rightarrow> bool" where
  "log_step w fs w' fs' \<longleftrightarrow>
     rw_path w' = rw_path w \<and> rw_maxFiles w' = rw_maxFiles w \<and> rw_maxBytes w' = rw_maxBytes w \<and>
     rw_f w' \<and> writer_ok w' fs' \<and> suffix (log_text w fs') (log_text w fs) \<and>
     (\<forall>q \<in> set (log_names w). fs_text fs' q \<in> insert [] (fs_text fs ` set (log_names w))) \<and>
     (\<forall>q. q \<notin> set (log_names w) \<longrightarrow> fs' q = fs q)"

lemma log_stepD:
  assumes "log_step w fs w' fs'"
  shows "rw_maxBytes w' = rw_maxBytes w" "rw_path w' = rw_path w" "rw_f w'" "writer_ok w' fs'"
    "log_names w' = log_names w"
  using assms by (simp_all add: log_step_def log_names_def backupName_def)

lemma log_step_open:
  assumes "le_open e k" and "le_stat e k" and "1 \<le> rw_maxFiles w"
  shows "\<exists>w' fs'. open_log e k w fs = (True, w', fs') \<and> log_step w fs w' fs'"
proof -
  let ?fs = "fs(rw_path w \<mapsto> fs_text fs (rw_path w))"
  have "fs_text ?fs = fs_text fs" by (simp add: fun_eq_iff)
  then show ?thesis
    using assms by (auto simp: open_log_def Let_def log_step_def writer_ok_def log_text_def log_names_def)
qed

lemma log_step_rotate:
  assumes "log_calls_ok e p" and "writer_ok w fs" and "rw_f w"
  shows "\<exists>w' fs'. rotate_log e w fs = (True, w', fs') \<and> log_step w fs w' fs' \<and> fs_text fs' (rw_path w) = []"
proof (cases "rw_maxFiles w = 1")
  case True
  then show ?thesis
    using assms by (auto simp: rotate_log_def log_calls_ok_def writer_ok_def open_log_def log_step_def
        log_text_def log_names_def)
next
  case False
  then have m: "2 \<le> rw_maxFiles w" using assms(2) by (simp add: writer_ok_def)
  obtain c where c: "fs (rw_path w) = Some c" using assms(2,3) by (auto simp: writer_ok_def)
  obtain fs' where r: "rotate_log e w fs = (True, w\<lparr>rw_f := True, rw_size := 0\<rparr>, fs')"
    and a: "fs' (rw_path w) = Some []" "fs' (backupName w 1) = Some c"
    and b: "\<And>j. 1 \<le> j \<Longrightarrow> Suc j < rw_maxFiles w \<Longrightarrow> fs' (backupName w (Suc j)) = fs (backupName w j)"
    and o: "\<And>q. q \<notin> set (log_names w) \<Longrightarrow> fs' q = fs q"
    using rotate_log_moves [of e w fs c] assms(1) m c by (auto simp: log_calls_ok_def)
  have "suffix (log_text w fs') (log_text w fs)"
    using rotate_log_text [of fs' w fs] a b c m by (simp add: suffix_def)
  moreover have "fs_text fs' q \<in> insert [] (fs_text fs ` set (log_names w))" if q: "q \<in> set (log_names w)" for q
  proof -
    from q consider "q = rw_path w" | "q = backupName w 1"
      | j where "1 \<le> j" "Suc j < rw_maxFiles w" "q = backupName w (Suc j)"
      unfolding log_names_two [OF m]
      by (auto simp: numeral_2_eq_2) (metis Suc_le_D Suc_le_mono)
    then show ?thesis
    proof cases
      case 1
      then show ?thesis using a by (simp add: fs_text_def)
    next
      case 2
      then show ?thesis using a c by (simp add: fs_text_def log_names_def)
    next
      case 3
      then have "fs_text fs' q = fs_text fs (backupName w j)" using b by (simp add: fs_text_def)
      then show ?thesis using 3 by (simp add: log_names_def)
    qed
  qed
  ultimately show ?thesis
    using r a o m by (simp add: log_step_def writer_ok_def fs_text_def)
qed

text \<open>The invariant of a sequence of writes: \<open>fs0\<close> are the files before it and \<open>text\<close> what was written.\<close>

definition log_inv :: "log_fs \<Rightarrow> string \<Rightarrow> string set \<Rightarrow> rotating_writer \<Rightarrow> log_fs \<Rightarrow> bool" where
  "log_inv fs0 txt P w fs \<longleftrightarrow>
     writer_ok w fs \<and> suffix (log_text w fs) txt \<and>
     (\<forall>q \<in> set (log_names w). int (length (fs_text fs q)) \<le> rw_maxBytes w \<or> fs_text fs q \<in> P) \<and>
     (\<forall>q. q \<notin> set (log_names w) \<longrightarrow> fs q = fs0 q)"

lemma log_inv_step:
  assumes "log_inv fs0 txt P w fs" and "log_step w fs w' fs'" and "0 < rw_maxBytes w"
  shows "log_inv fs0 txt P w' fs'"
proof -
  have n: "log_names w' = log_names w"
    using assms(2) by (simp add: log_step_def log_names_def backupName_def)
  have "int (length (fs_text fs' q)) \<le> rw_maxBytes w' \<or> fs_text fs' q \<in> P" if q: "q \<in> set (log_names w)" for q
  proof -
    have "fs_text fs' q = [] \<or> (\<exists>r \<in> set (log_names w). fs_text fs' q = fs_text fs r)"
      using assms(2) q unfolding log_step_def by blast
    then show ?thesis using assms unfolding log_inv_def log_step_def by force
  qed
  moreover have "suffix (log_text w' fs') txt"
    using assms(1,2) n suffix_order.trans unfolding log_inv_def log_step_def log_text_def by metis
  ultimately show ?thesis using assms n unfolding log_inv_def log_step_def by simp
qed

lemma log_text_append:
  assumes "rw_path w = path"
  shows "log_text w (fs(path \<mapsto> fs_text fs path @ p)) = log_text w fs @ p"
proof -
  have "fs_text (fs(path \<mapsto> fs_text fs path @ p)) \<circ> backupName w = fs_text fs \<circ> backupName w"
    using assms by (auto simp: fun_eq_iff)
  then show ?thesis using assms by (simp add: log_text_def log_names_def)
qed

lemma log_inv_append:
  assumes "log_inv fs0 txt P w fs" and "rw_f w" and "p \<in> P"
    and "rw_size w = 0 \<or> rw_size w + int (length p) \<le> rw_maxBytes w"
  shows "log_inv fs0 (txt @ p) P (w\<lparr>rw_size := rw_size w + int (length p)\<rparr>)
    (fs(rw_path w \<mapsto> fs_text fs (rw_path w) @ p))"
proof -
  let ?w = "w\<lparr>rw_size := rw_size w + int (length p)\<rparr>" and ?fs = "fs(rw_path w \<mapsto> fs_text fs (rw_path w) @ p)"
  have s: "rw_size w = int (length (fs_text fs (rw_path w)))"
    using assms(1,2) by (simp add: log_inv_def writer_ok_def)
  have "suffix (log_text ?w ?fs) (txt @ p)"
    using assms(1) log_text_append [of ?w "rw_path w" fs p]
    by (simp add: log_inv_def log_text_def)
  moreover have "int (length (fs_text ?fs q)) \<le> rw_maxBytes ?w \<or> fs_text ?fs q \<in> P"
    if "q \<in> set (log_names ?w)" for q
    using that assms s by (cases "q = rw_path w") (auto simp: log_inv_def)
  ultimately show ?thesis
    using assms s by (simp add: log_inv_def writer_ok_def log_names_def)
qed

lemma log_inv_Write:
  assumes inv: "log_inv fs0 txt P w fs" and ok: "log_calls_ok e p" and p: "p \<in> P" and max: "0 < rw_maxBytes w"
    and r: "Write_log e w fs p = (res, w', fs')"
  shows "res = (length p, True) \<and> log_inv fs0 (txt @ p) P w' fs' \<and> rw_maxBytes w' = rw_maxBytes w \<and>
    log_names w' = log_names w"
proof -
  have wok: "writer_ok w fs" using inv by (simp add: log_inv_def)
  have n: "min (le_write e) (length p) = length p" using ok by (simp add: log_calls_ok_def)
  obtain w1 fs1 where s1: "(if rw_f w then (True, w, fs) else open_log e 0 w fs) = (True, w1, fs1)"
    and i1: "log_inv fs0 txt P w1 fs1" and f1: "rw_f w1" and e1: "rw_maxBytes w1 = rw_maxBytes w" "log_names w1 = log_names w"
  proof (cases "rw_f w")
    case True
    then show ?thesis using that [of w fs] inv by simp
  next
    case False
    obtain w1 fs1 where "open_log e 0 w fs = (True, w1, fs1)" "log_step w fs w1 fs1"
      using log_step_open [of e 0 w fs] ok wok by (auto simp: log_calls_ok_def writer_ok_def)
    then show ?thesis using that [of w1 fs1] False log_inv_step [OF inv _ max] log_stepD [of w fs w1 fs1] by simp
  qed
  let ?rot = "0 < rw_maxBytes w1 \<and> 0 < rw_size w1 \<and> rw_maxBytes w1 < rw_size w1 + int (length p)"
  have ok1: "writer_ok w1 fs1" using i1 by (simp add: log_inv_def)
  obtain w2 fs2 where s2: "(if ?rot then rotate_log e w1 fs1 else (True, w1, fs1)) = (True, w2, fs2)"
    and i2: "log_inv fs0 txt P w2 fs2" and f2: "rw_f w2"
    and e2: "rw_maxBytes w2 = rw_maxBytes w" "log_names w2 = log_names w"
    and z: "rw_size w2 = 0 \<or> rw_size w2 + int (length p) \<le> rw_maxBytes w2"
  proof (cases ?rot)
    case True
    obtain w2 fs2 where ro: "rotate_log e w1 fs1 = (True, w2, fs2)" and st: "log_step w1 fs1 w2 fs2"
      and em: "fs_text fs2 (rw_path w1) = []"
      using log_step_rotate [OF ok ok1 f1] by blast
    have "rw_size w2 = 0" using log_stepD [OF st] em by (simp add: writer_ok_def)
    moreover have "log_inv fs0 txt P w2 fs2" using log_inv_step [OF i1 st] e1 max by simp
    ultimately show ?thesis using that [of w2 fs2] True ro e1 log_stepD [OF st] by simp
  next
    case False
    have "0 \<le> rw_size w1" using ok1 f1 by (simp add: writer_ok_def)
    then show ?thesis using that [of w1 fs1] False i1 f1 e1 max by auto
  qed
  have "Write_log e w fs p = ((length p, True), w2\<lparr>rw_size := rw_size w2 + int (length p)\<rparr>,
      fs2(rw_path w2 \<mapsto> fs_text fs2 (rw_path w2) @ p))"
    unfolding Write_log_def s1 by (simp only: split prod.case simp_thms if_False s2 n Let_def take_all order_refl)
  then show ?thesis using r log_inv_append [OF i2 f2 p z] e2 by auto
qed

lemma log_inv_run:
  assumes "log_inv fs0 txt P w fs" and "0 < rw_maxBytes w"
    and "list_all (\<lambda>(e, p). log_calls_ok e p \<and> p \<in> P) ps"
    and "log_run ps (w, fs) = (w', fs')"
  shows "log_inv fs0 (txt @ concat (map snd ps)) P w' fs' \<and> rw_maxBytes w' = rw_maxBytes w \<and>
    log_names w' = log_names w"
  using assms
proof (induction ps arbitrary: "txt" w fs)
  case (Cons ep ps)
  obtain e p where ep: "ep = (e, p)" by force
  obtain res w1 fs1 where r: "Write_log e w fs p = (res, w1, fs1)" by (metis surj_pair)
  have "log_inv fs0 (txt @ p) P w1 fs1" "rw_maxBytes w1 = rw_maxBytes w" "log_names w1 = log_names w"
    using log_inv_Write [OF Cons.prems(1) _ _ Cons.prems(2) r] Cons.prems(3) ep by simp_all
  then show ?case using Cons.IH [of "txt @ p" w1 fs1] Cons.prems ep r by simp
qed simp

lemma log_inv_new:
  assumes "NewRotatingWriter e path maxBytes maxFiles fs = (Some w, fs')"
    and "\<And>q. prefix path q \<Longrightarrow> fs q = None" and "0 < maxBytes"
  shows "log_inv fs [] {} w fs' \<and> rw_maxBytes w = maxBytes \<and> rw_path w = path \<and>
    rw_maxFiles w = nat (max 1 maxFiles)"
proof -
  let ?w = "\<lparr>rw_path = path, rw_maxBytes = maxBytes,
    rw_maxFiles = nat (if maxFiles < 1 then 1 else maxFiles), rw_f = True, rw_size = 0\<rparr>"
  have t: "fs_text fs path = []" using assms(2) by (simp add: fs_text_def)
  have w: "w = ?w" "fs' = fs(path \<mapsto> [])"
    using assms(1) t by (auto simp: NewRotatingWriter_def open_log_def Let_def split: if_splits)
  have "fs_text fs' q = []" if "q \<in> set (log_names w)" for q
    using that assms(2) [of q] t w by (auto simp: log_names_def backupName_def fs_text_def split: option.split)
  then have "log_text w fs' = []" "\<forall>q \<in> set (log_names w). fs_text fs' q = []"
    by (simp_all add: log_text_def)
  then show ?thesis
    using assms(3) w t by (auto simp: log_inv_def writer_ok_def log_names_def max_def)
qed

section \<open>Properties\<close>


definition demo_log_env :: log_env where
  "demo_log_env = \<lparr>le_mkdir = True, le_open = (\<lambda>_. True), le_stat = (\<lambda>_. True), le_close = True,
     le_truncate = True, le_remove = True, le_rename = (\<lambda>_. True), le_write = 10\<rparr>"


end
