(* ===== verification/Startup.thy ===== *)
theory Startup
  imports SaveLoop System Logging
begin

text \<open>
  How the daemon begins and what its goroutines call: \<open>startSocket\<close> (\<open>daemon/socket.go\<close>), which waits for the socket of a daemon
  that is just ending, the wake-ups (\<open>startWakeBroadcaster\<close> of \<open>daemon/main.go\<close>, \<open>awake_notifier_darwin.go\<close>,
  \<open>startStandaloneAwakeNotifier\<close> of \<open>watch.go\<close>), the emitters of \<open>events.go\<close> and \<open>setupLogging\<close> (\<open>daemon/logging.go\<close>).

  The clock, the cancelling of the daemon and what the system answers to each attempt to
  listen are the arguments of \<open>startSocket\<close>: one \<open>socket_round\<close> for each time that its loop is entered.
\<close>

section \<open>The socket\<close>

definition socketInUseWait :: duration where "socketInUseWait = 15000000000"
definition socketRetryDelay :: duration where "socketRetryDelay = 500000000"

record socket_round =
  sr_now :: int \<comment> \<open>when the deadline is looked at\<close>
  sr_cancelled :: bool \<comment> \<open>the context ends the wait\<close>
  sr_listen :: listen_env \<comment> \<open>what the next attempt meets\<close>

definition in_use :: "listen_error + 'd server \<Rightarrow> bool" where
  "in_use r = (case r of Inl SocketInUse \<Rightarrow> True | _ \<Rightarrow> False)"

text \<open>The loop of \<open>startSocket\<close>. With no rounds left it is still waiting.\<close>

datatype 'a waited = Undecided | WaitCancelled | Answered 'a

fun await_socket ::
  "string \<Rightarrow> 'd \<Rightarrow> int \<Rightarrow> socket_round list \<Rightarrow> listen_error + 'd server \<Rightarrow> (listen_error + 'd server) waited" where
  "await_socket path d deadline rounds r =
     (if \<not> in_use r then Answered r
      else (case rounds of
              [] \<Rightarrow> Undecided
            | rd # rest \<Rightarrow>
                if \<not> sr_now rd < deadline then Answered r
                else if sr_cancelled rd then WaitCancelled
                else await_socket path d deadline rest (NewSocketServer (sr_listen rd) path d)))"

declare await_socket.simps [simp del]

text \<open>What \<open>NewEventLog\<close> meets: the system calls, the codec, and the lines of the file, if it is there.\<close>

record history_env =
  he_rewrite :: rewrite_io
  he_enc :: "event \<Rightarrow> string"
  he_dec :: "string \<Rightarrow> event option"
  he_disk :: "string list option"

definition open_events :: "places \<Rightarrow> history_env \<Rightarrow> (event_log \<times> string list) option" where
  "open_events pl he = NewEventLog (he_rewrite he) (he_enc he) (he_dec he) (EventsPath pl) (int EventLogCapacity) (he_disk he)"

datatype 'w started = Exits | NoSocket "'w daemon" | Serving "'w daemon server"

text \<open>
  \<open>now\<close> is the time after the first attempt, \<open>le\<close>. That the directory of the
  state cannot be made is only logged. The hello provider and the emitters are those of
  \<open>daemon_server_env\<close> and \<open>emit_program\<close>. \<open>None\<close>: it is still waiting.
\<close>

definition startSocket ::
  "places \<Rightarrow> listen_env \<Rightarrow> int \<Rightarrow> socket_round list \<Rightarrow> history_env \<Rightarrow> 'w daemon \<Rightarrow> 'w started option" where
  "startSocket pl le now rounds he d =
     (let path = DefaultSocketPath pl in
      case await_socket path d (now + socketInUseWait) rounds (NewSocketServer le path d) of
        Undecided \<Rightarrow> None
      | WaitCancelled \<Rightarrow> Some (NoSocket (d\<lparr>dm_cancelled := True\<rparr>))
      | Answered (Inl e) \<Rightarrow> if e = SocketInUse then Some Exits else Some (NoSocket d)
      | Answered (Inr sv) \<Rightarrow> Some (Serving ((SetEventLog (open_events pl he) sv)\<lparr>sv_daemon := upd_store OnChange d\<rparr>)))"

section \<open>Emitters\<close>

definition LogEmitter_Emit :: "event \<Rightarrow> string" where
  "LogEmitter_Emit ev =
     (if ev_Message ev \<noteq> []
      then ''event: type='' @ ev_Type ev @ '' repo='' @ ev_Repo ev @ '' msg='' @ ev_Message ev
      else ''event: type='' @ ev_Type ev @ '' repo='' @ ev_Repo ev @ '' status='' @ ev_Status ev)"

fun MultiEmitter_Emit :: "(event \<Rightarrow> 's \<Rightarrow> 's) list \<Rightarrow> event \<Rightarrow> 's \<Rightarrow> 's" where
  "MultiEmitter_Emit [] ev s = s"
| "MultiEmitter_Emit (e # es) ev s = MultiEmitter_Emit es ev (e ev s)"

section \<open>Wake-ups\<close>

datatype activity = Awake | Sleep

text \<open>
  \<open>Start\<close> on macOS: whether it succeeds, and the new value of \<open>darwinAwakeOnce\<close>. The goroutine it starts, given an activity and whether the
  channel of one place is full. On the other platforms \<open>Start\<close> does nothing.
\<close>

definition AwakeStart :: "bool \<Rightarrow> bool \<times> bool" where
  "AwakeStart once = (\<not> once, True)"

definition startWakeBroadcaster :: "bool \<Rightarrow> bool" where
  "startWakeBroadcaster once = fst (AwakeStart once)"

definition awake_activity :: "activity \<Rightarrow> bool \<Rightarrow> bool" where
  "awake_activity a full = (if a \<noteq> Awake then full else True)"

text \<open>The goroutine of a watcher that runs without the daemon: the wake-up goes on to the channel of the scheduler.\<close>

definition standalone_wake :: "bool \<times> bool \<Rightarrow> bool \<times> bool" where
  "standalone_wake c = (case c of (wake, out) \<Rightarrow> if wake then (False, True) else (wake, out))"

section \<open>The log of the daemon\<close>

datatype log_output = ToStderr | ToFile rotating_writer | ToBoth rotating_writer

definition setupLogging :: "log_env \<Rightarrow> places \<Rightarrow> bool \<Rightarrow> log_fs \<Rightarrow> log_output \<times> log_fs" where
  "setupLogging e pl interactive fs =
     (case NewRotatingWriter e (LogPath pl) LogMaxBytes LogMaxFiles fs of
        (None, fs') \<Rightarrow> (ToStderr, fs')
      | (Some w, fs') \<Rightarrow> (if interactive then ToBoth w else ToFile w, fs'))"

text \<open>
  \<open>main\<close>: the errors of making the service, of its logger and of running it are those of the service package. A fatal error
  ends the process; the error of running goes to the logger of the service.
\<close>

datatype main_end = Fatal string goerror | Returns "goerror option"

definition daemon_main ::
  "log_env \<Rightarrow> places \<Rightarrow> bool \<Rightarrow> goerror option \<Rightarrow> goerror option \<Rightarrow> goerror option \<Rightarrow> log_fs \<Rightarrow> main_end \<times> log_output \<times> log_fs" where
  "daemon_main e pl interactive build logger run_err fs =
     (case build of
        Some err \<Rightarrow> (Fatal ''BuildService'' err, ToStderr, fs)
      | None \<Rightarrow>
          (case setupLogging e pl interactive fs of
             (out, fs') \<Rightarrow>
               (case logger of
                  Some err \<Rightarrow> (Fatal ''BuildLogger'' err, out, fs')
                | None \<Rightarrow> (Returns run_err, out, fs'))))"

section \<open>How long the daemon waits\<close>

text \<open>The rounds of a clock that starts at \<open>t0\<close>: each looks at the time at least one delay after the one before.\<close>

fun paced :: "int \<Rightarrow> socket_round list \<Rightarrow> bool" where
  "paced t0 [] \<longleftrightarrow> True"
| "paced t0 (rd # rds) \<longleftrightarrow> t0 \<le> sr_now rd \<and> paced (sr_now rd + socketRetryDelay) rds"

lemma paced_nth: "paced t0 rds \<Longrightarrow> k < length rds \<Longrightarrow> t0 + int k * socketRetryDelay \<le> sr_now (rds ! k)"
proof (induction rds arbitrary: t0 k)
  case (Cons rd rds)
  show ?case
  proof (cases k)
    case (Suc j)
    then have "sr_now rd + socketRetryDelay + int j * socketRetryDelay \<le> sr_now (rds ! j)" using Cons by simp
    then show ?thesis using Cons(2) Suc by (simp add: distrib_right)
  qed (use Cons in simp)
qed simp

text \<open>The attempts: the first and one after each round.\<close>

definition attempt :: "string \<Rightarrow> 'd \<Rightarrow> listen_env \<Rightarrow> socket_round list \<Rightarrow> nat \<Rightarrow> listen_error + 'd server" where
  "attempt path d le rounds n = NewSocketServer ((le # map sr_listen rounds) ! n) path d"

text \<open>Round \<open>k\<close> waits and then tries again.\<close>

definition goes_on :: "int \<Rightarrow> socket_round list \<Rightarrow> nat \<Rightarrow> bool" where
  "goes_on deadline rounds k \<longleftrightarrow> sr_now (rounds ! k) < deadline \<and> \<not> sr_cancelled (rounds ! k)"

definition wait_outcome :: "int \<Rightarrow> socket_round list \<Rightarrow> nat \<Rightarrow> listen_error + 'd server \<Rightarrow> (listen_error + 'd server) waited" where
  "wait_outcome deadline rounds n r =
     (if in_use r \<and> n < length rounds \<and> sr_now (rounds ! n) < deadline \<and> sr_cancelled (rounds ! n) then WaitCancelled
      else if in_use r \<and> n = length rounds then Undecided
      else Answered r)"

lemma await_socket_spec:
  "\<exists>n \<le> length rounds.
     (\<forall>j < n. in_use (attempt path d le rounds j) \<and> goes_on deadline rounds j) \<and>
     (in_use (attempt path d le rounds n) \<and> n < length rounds \<longrightarrow> \<not> goes_on deadline rounds n) \<and>
     await_socket path d deadline rounds (NewSocketServer le path d) = wait_outcome deadline rounds n (attempt path d le rounds n)"
proof (induction rounds arbitrary: le)
  case Nil
  then show ?case by (subst await_socket.simps) (simp add: attempt_def wait_outcome_def)
next
  case (Cons rd rest)
  let ?r = "NewSocketServer le path d"
  show ?case
  proof (cases "in_use ?r \<and> sr_now rd < deadline \<and> \<not> sr_cancelled rd")
    case True
    obtain n where n: "n \<le> length rest"
      "\<forall>j < n. in_use (attempt path d (sr_listen rd) rest j) \<and> goes_on deadline rest j"
      "in_use (attempt path d (sr_listen rd) rest n) \<and> n < length rest \<longrightarrow> \<not> goes_on deadline rest n"
      "await_socket path d deadline rest (NewSocketServer (sr_listen rd) path d) = wait_outcome deadline rest n (attempt path d (sr_listen rd) rest n)"
      using Cons by blast
    have shift: "attempt path d le (rd # rest) (Suc j) = attempt path d (sr_listen rd) rest j"
      "goes_on deadline (rd # rest) (Suc j) = goes_on deadline rest j" for j
      by (simp_all add: attempt_def goes_on_def)
    have "await_socket path d deadline (rd # rest) ?r = wait_outcome deadline (rd # rest) (Suc n) (attempt path d le (rd # rest) (Suc n))"
      using True n(4) by (subst await_socket.simps) (simp add: shift wait_outcome_def)
    moreover have "\<forall>j < Suc n. in_use (attempt path d le (rd # rest) j) \<and> goes_on deadline (rd # rest) j"
      using True n(2) by (auto simp: shift less_Suc_eq_0_disj) (simp_all add: attempt_def goes_on_def)
    ultimately show ?thesis using n(1,3) by (intro exI [of _ "Suc n"]) (simp add: shift)
  next
    case False
    then have "await_socket path d deadline (rd # rest) ?r = wait_outcome deadline (rd # rest) 0 ?r"
      by (subst await_socket.simps) (simp add: wait_outcome_def)
    then show ?thesis using False by (intro exI [of _ 0]) (simp add: attempt_def goes_on_def)
  qed
qed

section \<open>Properties\<close>

text \<open>
  C33. Waiting for the socket ends. With a clock that goes on, \<open>startSocket\<close> has decided after at most 30 more
  attempts, made while the time has not run out: it serves or goes on without a socket as the first attempt says that finds no other
  daemon answering; it exits exactly if another daemon still answers the last attempt when the fifteen
  seconds are over, so that two daemons never run side by side; and when cancelled it starts nothing.
\<close>

theorem startSocket_settles:
  assumes "paced now rounds" and "30 < length rounds" and "path = DefaultSocketPath pl"
  shows "\<exists>n \<le> 30. (\<forall>j < n. in_use (attempt path d le rounds j) \<and> goes_on (now + socketInUseWait) rounds j) \<and>
    (startSocket pl le now rounds he d =
     (case attempt path d le rounds n of
        Inr sv \<Rightarrow> Some (Serving ((SetEventLog (open_events pl he) sv)\<lparr>sv_daemon := upd_store OnChange d\<rparr>))
      | Inl e \<Rightarrow>
          if e \<noteq> SocketInUse then Some (NoSocket d)
          else if sr_now (rounds ! n) < now + socketInUseWait then Some (NoSocket (d\<lparr>dm_cancelled := True\<rparr>))
          else Some Exits)) \<and>
    (in_use (attempt path d le rounds n) \<longrightarrow> \<not> goes_on (now + socketInUseWait) rounds n)"
proof -
  let ?dl = "now + socketInUseWait" and ?a = "attempt path d le rounds"
  obtain n where n: "n \<le> length rounds" "\<forall>j < n. in_use (?a j) \<and> goes_on ?dl rounds j"
    "in_use (?a n) \<and> n < length rounds \<longrightarrow> \<not> goes_on ?dl rounds n"
    "await_socket path d ?dl rounds (NewSocketServer le path d) = wait_outcome ?dl rounds n (?a n)"
    using await_socket_spec [of rounds path d le ?dl] by blast
  have "\<not> goes_on ?dl rounds 30"
    using paced_nth [OF assms(1,2)] by (simp add: goes_on_def socketInUseWait_def socketRetryDelay_def)
  then have "n \<le> 30" using n(2) by (meson not_less)
  then have lt: "n < length rounds" using assms(2) by simp
  have "in_use r = (r = Inl SocketInUse)" for r :: "listen_error + 'a daemon server"
    by (auto simp: in_use_def split: sum.split listen_error.split)
  then have "startSocket pl le now rounds he d =
     (case ?a n of
        Inr sv \<Rightarrow> Some (Serving ((SetEventLog (open_events pl he) sv)\<lparr>sv_daemon := upd_store OnChange d\<rparr>))
      | Inl e \<Rightarrow>
          if e \<noteq> SocketInUse then Some (NoSocket d)
          else if sr_now (rounds ! n) < ?dl then Some (NoSocket (d\<lparr>dm_cancelled := True\<rparr>))
          else Some Exits)"
    using n(3,4) lt assms(3) by (auto simp: startSocket_def Let_def wait_outcome_def goes_on_def split: sum.split)
  then show ?thesis using n(2,3) lt \<open>n \<le> 30\<close> by blast
qed

text \<open>The daemon before this one ends after four seconds; and one that does not end.\<close>

definition demo_rounds :: "bool \<Rightarrow> socket_round list" where
  "demo_rounds ends = map (\<lambda>k. \<lparr>sr_now = int k * 500000000, sr_cancelled = False,
     sr_listen = demo_listen\<lparr>ls_dial := \<not> (ends \<and> 7 \<le> k)\<rparr>\<rparr>) [0..<31]"

lemma demo_attempt:
  assumes "n \<le> 31"
  shows "in_use (attempt ''/s'' d (demo_listen\<lparr>ls_dial := True\<rparr>) (demo_rounds ends) n) = (\<not> (ends \<and> 7 < n))"
    and "attempt ''/s'' d (demo_listen\<lparr>ls_dial := True\<rparr>) (demo_rounds ends) n = Inl e \<Longrightarrow> e = SocketInUse"
  using assms
  by (cases n; auto simp: attempt_def demo_rounds_def in_use_def NewSocketServer_def CheckSocketPath_def MaxSocketPathLen_def demo_listen_def
      nth_append split: if_splits)+

definition demo_history :: history_env where
  "demo_history = \<lparr>he_rewrite = FailBeforeRename, he_enc = ev_Type, he_dec = \<lambda>_. None, he_disk = None\<rparr>"

theorem startSocket_settles_witness:
  "(\<exists>sv. startSocket (demo_places\<lparr>pl_socket := ''/s''\<rparr>) (demo_listen\<lparr>ls_dial := True\<rparr>) 0 (demo_rounds True) demo_history demo_daemon = Some (Serving sv)) \<and>
   startSocket (demo_places\<lparr>pl_socket := ''/s''\<rparr>) (demo_listen\<lparr>ls_dial := True\<rparr>) 0 (demo_rounds False) demo_history demo_daemon = Some Exits"
proof -
  let ?pl = "demo_places\<lparr>pl_socket := ''/s''\<rparr>" and ?le = "demo_listen\<lparr>ls_dial := True\<rparr>"
  let ?a = "\<lambda>ends. attempt ''/s'' demo_daemon ?le (demo_rounds ends)"
  have len: "30 < length (demo_rounds ends)" for ends by (simp add: demo_rounds_def)
  have pace: "paced 0 (demo_rounds ends)" for ends
    by (cases ends) (simp_all add: demo_rounds_def socketRetryDelay_def upt_rec)
  have path: "''/s'' = DefaultSocketPath ?pl" by code_simp
  have go: "goes_on (0 + socketInUseWait) (demo_rounds ends) n \<longleftrightarrow> n < 30" "sr_now (demo_rounds ends ! n) < 0 + socketInUseWait \<longleftrightarrow> n < 30"
    if "n \<le> 30" for ends n
    using that by (auto simp: goes_on_def demo_rounds_def socketInUseWait_def)
  have yes: "\<exists>sv. startSocket ?pl ?le 0 (demo_rounds True) demo_history demo_daemon = Some (Serving sv)"
  proof -
    obtain n where n: "n \<le> 30" "in_use (?a True n) \<longrightarrow> \<not> goes_on (0 + socketInUseWait) (demo_rounds True) n"
      and st: "startSocket ?pl ?le 0 (demo_rounds True) demo_history demo_daemon =
       (case ?a True n of
          Inr sv \<Rightarrow> Some (Serving ((SetEventLog (open_events ?pl demo_history) sv)\<lparr>sv_daemon := upd_store OnChange demo_daemon\<rparr>))
        | Inl e \<Rightarrow>
            if e \<noteq> SocketInUse then Some (NoSocket demo_daemon)
            else if sr_now (demo_rounds True ! n) < 0 + socketInUseWait then Some (NoSocket (demo_daemon\<lparr>dm_cancelled := True\<rparr>))
            else Some Exits)"
      using startSocket_settles [OF pace len path, of demo_daemon ?le True demo_history] by blast
    have "\<not> in_use (?a True n)" using n go(1) [of n True] demo_attempt(1) [of n demo_daemon True] by auto
    then obtain sv where "?a True n = Inr sv"
      using demo_attempt(2) [of n demo_daemon True] n(1) by (cases "?a True n") (auto simp: in_use_def)
    then show ?thesis using st by simp
  qed
  have no: "startSocket ?pl ?le 0 (demo_rounds False) demo_history demo_daemon = Some Exits"
  proof -
    obtain n where n: "n \<le> 30" "in_use (?a False n) \<longrightarrow> \<not> goes_on (0 + socketInUseWait) (demo_rounds False) n"
      and st: "startSocket ?pl ?le 0 (demo_rounds False) demo_history demo_daemon =
       (case ?a False n of
          Inr sv \<Rightarrow> Some (Serving ((SetEventLog (open_events ?pl demo_history) sv)\<lparr>sv_daemon := upd_store OnChange demo_daemon\<rparr>))
        | Inl e \<Rightarrow>
            if e \<noteq> SocketInUse then Some (NoSocket demo_daemon)
            else if sr_now (demo_rounds False ! n) < 0 + socketInUseWait then Some (NoSocket (demo_daemon\<lparr>dm_cancelled := True\<rparr>))
            else Some Exits)"
      using startSocket_settles [OF pace len path, of demo_daemon ?le False demo_history] by blast
    have u: "in_use (?a False n)" using n(1) demo_attempt(1) [of n demo_daemon False] by simp
    then have "n = 30" using n go(1) [of n False] by auto
    then show ?thesis using st u go(2) [of n False] by (auto simp: in_use_def split: sum.splits listen_error.splits)
  qed
  show ?thesis using yes no by blast
qed

end
