(* ===== verification/Program.thy ===== *)
theory Program
  imports Startup
begin

text \<open>
  The daemon as a process: the state machine of \<open>Daemon\<close> behind the server of \<open>Socket\<close>, with the goroutines that run beside
  each other, from \<open>startSocket\<close> on. What one of them does between two points where it waits for the
  others is one step; a command is two steps, in which it is carried out and in which its answer is sent.

  What the watchers with their syncs and the loop of \<open>SaveLoop\<close> do are the steps \<open>pg_daemon\<close>; \<open>pg_begin\<close> is \<open>run\<close> up to its loop, and
  \<open>command_then_reply\<close> says that the two steps of a command do what \<open>handle_client\<close> of \<open>Socket\<close> does.
  An event that the daemon emits is given to both emitters, the log and the socket, before anything else is sent.
\<close>

named_theorems grows_rules "programs that only add to the events of the daemon"

section \<open>The process\<close>

record 'w program =
  pg_server :: "'w daemon server"
  pg_pending :: "(nat \<times> response) list" \<comment> \<open>the connections whose command has been carried out, with the answer\<close>
  pg_lines :: "string list" \<comment> \<open>the lines of the log that \<open>LogEmitter\<close> has written\<close>
  pg_running :: bool \<comment> \<open>\<open>run\<close> is in its loop\<close>
  pg_net :: string \<comment> \<open>the last fingerprint of the network\<close>
  pg_awake :: bool \<comment> \<open>the goroutine of \<open>startWakeBroadcaster\<close> runs\<close>
  pg_wake :: bool \<comment> \<open>a wake-up is in the channel\<close>

abbreviation pg_daemon :: "'w program \<Rightarrow> 'w daemon" where
  "pg_daemon p \<equiv> sv_daemon (pg_server p)"

abbreviation daemon_events :: "'w daemon \<Rightarrow> event list" where
  "daemon_events d \<equiv> sy_events (dm_sys d)"

definition set_daemon :: "'w daemon \<Rightarrow> 'w program \<Rightarrow> 'w program" where
  "set_daemon d p = p\<lparr>pg_server := (pg_server p)\<lparr>sv_daemon := d\<rparr>\<rparr>"

text \<open>\<open>NewMultiEmitter(NewLogEmitter(), sock)\<close>.\<close>

definition emit_program :: "'w daemon server_env \<Rightarrow> append_io \<times> event \<Rightarrow> 'w program \<Rightarrow> 'w program" where
  "emit_program se e p =
     MultiEmitter_Emit
       [\<lambda>ev p. p\<lparr>pg_lines := pg_lines p @ [LogEmitter_Emit ev]\<rparr>,
        \<lambda>ev p. p\<lparr>pg_server := Emit se (fst e) ev (pg_server p)\<rparr>] (snd e) p"

text \<open>The daemon becomes \<open>d\<close> and has emitted \<open>evs\<close> on the way, each with what its write to the history met.\<close>

definition becomes :: "'w daemon server_env \<Rightarrow> (append_io \<times> event) list \<Rightarrow> 'w daemon \<Rightarrow> 'w program \<Rightarrow> 'w program" where
  "becomes se evs d p = fold (emit_program se) evs (set_daemon d p)"

definition emits :: "'w program \<Rightarrow> (append_io \<times> event) list \<Rightarrow> 'w daemon \<Rightarrow> bool" where
  "emits p evs d \<longleftrightarrow> daemon_events d = daemon_events (pg_daemon p) @ map snd evs"

text \<open>The request for the daemon that was read, if it is one.\<close>

definition request_of :: "'d server_env \<Rightarrow> read_line \<Rightarrow> socket_request option" where
  "request_of se r =
     (case r of
        Line line \<Rightarrow>
          if trim_space line = [] then None
          else (case se_request se line of
                  (req, None) \<Rightarrow> if rq_Cmd req \<in> {CmdSubscribe, []} then None else Some req
                | _ \<Rightarrow> None)
      | _ \<Rightarrow> None)"

definition reply :: "'d server_env \<Rightarrow> nat \<Rightarrow> response \<Rightarrow> 'd server \<Rightarrow> 'd server" where
  "reply se i resp sv =
     (case sendJSON i (FResponse resp) (se_response se resp) sv of
        (go_on, sv') \<Rightarrow> if go_on then sv' else leave i sv')"

definition run_command :: "'w daemon_env \<Rightarrow> 'w daemon server_env \<Rightarrow> (append_io \<times> event) list \<Rightarrow> nat \<Rightarrow> socket_request \<Rightarrow> 'w program \<Rightarrow> 'w program" where
  "run_command de se evs i req p =
     (case run_state (HandleCommand de (Some (sv_log (pg_server p))) req) (pg_daemon p) of
        (resp, d) \<Rightarrow> (becomes se evs d p)\<lparr>pg_pending := (i, resp\<lparr>rp_ID := rq_ID req\<rparr>) # pg_pending p\<rparr>)"

text \<open>What the goroutines of \<open>startWakeBroadcaster\<close> and \<open>startNetworkWatcher\<close> do on a wake-up and on a tick.\<close>

definition woken :: "'w daemon_env \<Rightarrow> 'w program \<Rightarrow> 'w program" where
  "woken de p = (set_daemon (snd (run_state (SyncAll de) (pg_daemon p))) p)\<lparr>pg_wake := False\<rparr>"

definition network_checked :: "'w daemon_env \<Rightarrow> net_interface list option \<Rightarrow> 'w program \<Rightarrow> 'w program" where
  "network_checked de ifaces p =
     (case run_state (network_tick de (pg_net p) (networkFingerprint ifaces)) (pg_daemon p) of
        (net, d) \<Rightarrow> (set_daemon d p)\<lparr>pg_net := net\<rparr>)"

text \<open>\<open>run\<close> up to its loop: it has the first fingerprint, and \<open>once\<close> says whether a notifier had been started before.\<close>

definition begin_program :: "'w daemon_env \<Rightarrow> bool \<Rightarrow> net_interface list option \<Rightarrow> 'w program \<Rightarrow> 'w program" where
  "begin_program de once ifaces p =
     (set_daemon (snd (run_state (run_begin de) (pg_daemon p))) p)
       \<lparr>pg_running := True, pg_awake := startWakeBroadcaster once, pg_net := networkFingerprint ifaces\<rparr>"

definition Stop_program :: "'w daemon_env \<Rightarrow> 'w program \<Rightarrow> 'w program" where
  "Stop_program de p =
     (let p1 = set_daemon (Stop_daemon de (pg_daemon p)) p in p1\<lparr>pg_server := Close_server (pg_server p1)\<rparr>)"

inductive program_step :: "'w daemon_env \<Rightarrow> 'w daemon server_env \<Rightarrow> 'w program \<Rightarrow> 'w program \<Rightarrow> bool" for de se where
  pg_daemon: "daemon_step de (pg_daemon p) d \<Longrightarrow> emits p evs d \<Longrightarrow> program_step de se p (becomes se evs d p)"
| pg_accept: "conn_of (pg_server p) i = None \<Longrightarrow> program_step de se p (p\<lparr>pg_server := accept i (pg_server p)\<rparr>)"
| pg_command: "reads i (pg_server p) \<Longrightarrow> i \<notin> fst ` set (pg_pending p) \<Longrightarrow> request_of se r = Some req \<Longrightarrow>
    emits p evs (snd (run_state (HandleCommand de (Some (sv_log (pg_server p))) req) (pg_daemon p))) \<Longrightarrow>
    program_step de se p (run_command de se evs i req p)"
| pg_reply: "(i, resp) \<in> set (pg_pending p) \<Longrightarrow> reads i (pg_server p) \<Longrightarrow>
    program_step de se p
      (p\<lparr>pg_server := reply se i resp (pg_server p), pg_pending := filter (\<lambda>q. fst q \<noteq> i) (pg_pending p)\<rparr>)"
| pg_read: "reads i (pg_server p) \<Longrightarrow> i \<notin> fst ` set (pg_pending p) \<Longrightarrow> request_of se r = None \<Longrightarrow>
    program_step de se p
      (p\<lparr>pg_server := handle_client (daemon_server_env de (sv_log (pg_server p)) se) i r (pg_server p)\<rparr>)"
| pg_write: "conn_of (pg_server p) i = Some c \<Longrightarrow>
    program_step de se p (p\<lparr>pg_server := set_conn i (write_step ok c) (pg_server p)\<rparr>)"
| pg_state: "program_step de se p (p\<lparr>pg_server := BroadcastState se now rs (pg_server p)\<rparr>)"
| pg_begin: "\<not> pg_running p \<Longrightarrow> program_step de se p (begin_program de once ifaces p)"
| pg_reload: "pg_running p \<Longrightarrow> program_step de se p (set_daemon (reloadConfig de (pg_daemon p)) p)"
| pg_activity: "pg_awake p \<Longrightarrow> program_step de se p (p\<lparr>pg_wake := awake_activity a (pg_wake p)\<rparr>)"
| pg_woken: "pg_awake p \<Longrightarrow> pg_wake p \<Longrightarrow> program_step de se p (woken de p)"
| pg_network: "pg_running p \<Longrightarrow> program_step de se p (network_checked de ifaces p)"
| pg_stop: "program_step de se p (Stop_program de p)"

inductive program_reachable :: "'w daemon_env \<Rightarrow> 'w daemon server_env \<Rightarrow> 'w program \<Rightarrow> 'w program \<Rightarrow> bool" for de se p0 where
  program_begin: "program_reachable de se p0 p0"
| program_more: "program_reachable de se p0 p \<Longrightarrow> program_step de se p p' \<Longrightarrow> program_reachable de se p0 p'"

definition serving :: "'w daemon server \<Rightarrow> 'w program" where
  "serving sv = \<lparr>pg_server = sv, pg_pending = [], pg_lines = [], pg_running = False, pg_net = [], pg_awake = False, pg_wake = False\<rparr>"

section \<open>Which operations emit\<close>

definition grows :: "('w daemon, 'a) state \<Rightarrow> bool" where
  "grows m \<longleftrightarrow> (\<forall>d. \<exists>evs. daemon_events (snd (run_state m d)) = daemon_events d @ evs)"

lemma grows_keeps: "keeps daemon_events m \<Longrightarrow> grows m"
  unfolding grows_def keeps_def by (metis append_Nil2)

lemma grows_return [grows_rules]: "grows (State_Monad.return x)"
  by (simp add: grows_def)

lemma grows_ask [grows_rules]: "grows (ask g)"
  by (simp add: grows_def)

lemma grows_bind [grows_rules]: "grows m \<Longrightarrow> (\<And>x. grows (k x)) \<Longrightarrow> grows (State_Monad.bind m k)"
  unfolding grows_def by (auto split: prod.split) (metis append.assoc snd_conv)

lemma grows_if [grows_rules]: "(b \<Longrightarrow> grows m) \<Longrightarrow> (\<not> b \<Longrightarrow> grows n) \<Longrightarrow> grows (if b then m else n)"
  by simp

lemma grows_option [grows_rules]: "grows n \<Longrightarrow> (\<And>y. grows (k y)) \<Longrightarrow> grows (case x of None \<Rightarrow> n | Some y \<Rightarrow> k y)"
  by (cases x) auto

lemma grows_sum [grows_rules]: "(\<And>y. grows (f y)) \<Longrightarrow> (\<And>y. grows (g y)) \<Longrightarrow> grows (case x of Inl y \<Rightarrow> f y | Inr y \<Rightarrow> g y)"
  by (cases x) auto

lemma grows_prod [grows_rules]: "(\<And>a b. grows (k a b)) \<Longrightarrow> grows (case p of (a, b) \<Rightarrow> k a b)"
  by (cases p) auto

lemma grows_let [grows_rules]: "grows (k v) \<Longrightarrow> grows (let x = v in k x)"
  by simp

lemma grows_bool [grows_rules]: "grows m \<Longrightarrow> grows n \<Longrightarrow> grows (case b of True \<Rightarrow> m | False \<Rightarrow> n)"
  by (cases b) auto

lemma grows_for_each [grows_rules]: "(\<And>x. grows (f x)) \<Longrightarrow> grows (for_each f xs)"
  by (induction xs) (auto intro: grows_rules)

lemma grows_upd [grows_rules]: "(\<And>d. daemon_events (f d) = daemon_events d) \<Longrightarrow> grows (upd f)"
  by (simp add: grows_def)

lemma grows_emit [grows_rules]: "grows (emit_daemon de ev)"
  by (simp add: grows_def emit_daemon_def)

lemma grows_on_daemon [grows_rules]: "keeps observable m \<Longrightarrow> grows (on_daemon m)"
  by (simp add: grows_def keeps_def observable_def)

text \<open>The operations on the watchers emit nothing.\<close>

lemma fold_events: "(\<And>x d. daemon_events (f x d) = daemon_events d) \<Longrightarrow> daemon_events (fold f xs d) = daemon_events d"
  by (induction xs arbitrary: d) simp_all

lemma daemon_events_simps [simp]:
  "daemon_events (upd_store f d) = daemon_events d" "daemon_events (upd_handle n g d) = daemon_events d"
  "daemon_events (requestPersist d) = daemon_events d" "daemon_events (syncLock q d) = daemon_events d"
  "daemon_events (kick n d) = daemon_events d"
  by (simp_all add: upd_store_def upd_handle_def requestPersist_def syncLock_def kick_def)

lemma startWatcher_events [simp]: "daemon_events (startWatcherLocked q t d) = daemon_events d"
  by (simp add: startWatcherLocked_def Let_def)

lemma stopWatcher_events [simp]: "daemon_events (snd (stopWatcherLocked q d)) = daemon_events d"
  by (simp add: stopWatcherLocked_def split: option.split)

lemma restart_events [simp]: "daemon_events (restart_locked q d) = daemon_events d" "daemon_events (restart_key q d) = daemon_events d"
  by (simp_all add: restart_locked_def restart_key_def)

lemma removeWatcher_events [simp]: "daemon_events (removeWatcher q d) = daemon_events d"
  using stopWatcher_events [of q d] by (cases "stopWatcherLocked q d") (simp add: removeWatcher_def split: option.split)

lemma ensureRestored_events [simp]: "daemon_events (ensureRestored de ps d) = daemon_events d"
  by (simp add: ensureRestored_def Let_def split: prod.split)

lemma start_loop_events [simp]: "daemon_events (start_loop ps n d) = daemon_events d"
  by (induction ps n d rule: start_loop.induct) simp_all

lemma startWatchers_events [simp]: "daemon_events (startWatchers de c d) = daemon_events d"
  by (simp add: startWatchers_def Let_def)

lemma reconcile_events [simp]: "daemon_events (reconcileWatchers de c d) = daemon_events d"
  by (simp add: reconcileWatchers_def Let_def fold_events)

lemma reload_events [simp]: "daemon_events (reloadConfig de d) = daemon_events d"
  by (simp add: reloadConfig_def split: option.split)

lemma save_events [simp]: "daemon_events (saveState de d) = daemon_events d" "daemon_events (Stop_daemon de d) = daemon_events d"
  by (simp_all add: saveState_def Stop_daemon_def split: prod.split)

text \<open>Commands.\<close>

lemma keeps_RepoRoot: "keeps observable (RepoRoot env pe path)"
  unfolding RepoRoot_def by (intro keeps_rules)

lemma keeps_exec_config: "keeps observable (exec_git_config env q args)"
  by (simp add: keeps_def exec_git_config_def observable_def split: prod.split)

lemma keeps_read_settings: "keeps observable (read_settings env q)"
  unfolding read_settings_def by (intro keeps_rules keeps_exec_config)

lemma keeps_new_repo_config: "keeps observable (new_repo_config env q)"
  unfolding new_repo_config_def by (intro keeps_rules keeps_read_settings)

lemma keeps_rebaseInProgress: "keeps observable (rebaseInProgress de cfg)"
proof -
  have "keeps observable (rebase_paths de cfg ps)" for ps
    by (induction ps) (auto simp: Let_def intro!: keeps_rules split: option.split)
  then show ?thesis unfolding rebaseInProgress_def .
qed

lemmas grows_git [grows_rules] = grows_on_daemon [OF keeps_RepoRoot] grows_on_daemon [OF keeps_exec_config] grows_on_daemon [OF keeps_read_settings]
  grows_on_daemon [OF keeps_new_repo_config] grows_on_daemon [OF keeps_rebaseInProgress]
  grows_on_daemon [OF keeps_GitCommandCtx] grows_on_daemon [OF keeps_preflight] grows_on_daemon [OF keeps_sleepCtx]

lemma grows_cfg_Write [grows_rules]: "grows (cfg_Write de c)"
  by (simp add: grows_def cfg_Write_def split: prod.split)

lemma grows_upds [grows_rules]:
  "grows (upd (\<lambda>d. if b d then d else kick n d))" "grows (upd (\<lambda>d. if c then upd_handle n f d else d))"
  "grows (upd (upd_store g))" "grows (upd (upd_handle n f))" "grows (upd (kick n))" "grows (upd (reconcileWatchers de co))"
  "grows (upd (syncLock q))" "grows (upd (\<lambda>d. d\<lparr>dm_restarts := r d\<rparr>))"
  by (simp_all add: grows_def)

lemma grows_lookup [grows_rules]: "grows (lookupWatcher de q)"
  unfolding lookupWatcher_def by (intro grows_rules)

lemma grows_match [grows_rules]: "grows (matchConfiguredRepo de ps q)"
  unfolding matchConfiguredRepo_def by (intro grows_rules)

lemma grows_AddRepo [grows_rules]: "grows (AddRepo de q)"
  unfolding AddRepo_def by (intro grows_rules)

lemma grows_RemoveRepo [grows_rules]: "grows (RemoveRepo de q)"
  unfolding RemoveRepo_def by (intro grows_rules)

lemma grows_SyncNow [grows_rules]: "grows (SyncNow de q force)"
  unfolding SyncNow_def by (intro grows_rules)

lemma grows_SetPaused [grows_rules]: "grows (SetPaused_daemon de q b)"
  unfolding SetPaused_daemon_def set_paused_at_def by (intro grows_rules)

lemma grows_AbortRebase [grows_rules]: "grows (AbortRebase de q)"
  unfolding AbortRebase_def abort_locked_def by (intro grows_rules)

lemma grows_readRepoSettings [grows_rules]: "grows (readRepoSettings de q)"
  unfolding readRepoSettings_def by (intro grows_rules)

lemma grows_write_settings [grows_rules]: "grows (write_settings de key vs names)"
  by (induction de key vs names rule: write_settings.induct)
    (auto simp: runGitConfig_def intro!: grows_rules split: option.split)

lemma grows_writeRepoSettings [grows_rules]: "grows (writeRepoSettings de q ss)"
  unfolding writeRepoSettings_def by (intro grows_rules)

lemma grows_canonicalRepo [grows_rules]: "grows (canonicalRepo de q)"
  unfolding canonicalRepo_def by (intro grows_rules)

lemma grows_answer [grows_rules]: "grows m \<Longrightarrow> grows (answer_command de q status m)"
  unfolding answer_command_def by (intro grows_rules)

lemma grows_HandleCommand: "grows (HandleCommand de log req)"
  unfolding HandleCommand_def handle_repo_def SyncAll_def SetAllPaused_def by (intro grows_rules)

text \<open>The steps of \<open>run\<close> emit nothing at all.\<close>

lemma silent_on_daemon: "keeps observable m \<Longrightarrow> keeps daemon_events (on_daemon m)"
  by (simp add: keeps_def observable_def)

lemma silent_lookup: "keeps daemon_events (lookupWatcher de q)"
  unfolding lookupWatcher_def by (intro keeps_rules silent_on_daemon keeps_RepoRoot)

lemma silent_SyncNow: "keeps daemon_events (SyncNow de q force)"
  unfolding SyncNow_def by (intro keeps_rules silent_lookup) simp_all

lemma silent_for_each: "(\<And>x. keeps h (f x)) \<Longrightarrow> keeps h (for_each f xs)"
  by (induction xs) (auto intro: keeps_rules)

lemma silent_SyncAll: "keeps daemon_events (SyncAll de)"
  unfolding SyncAll_def by (intro keeps_rules silent_for_each silent_SyncNow)

lemma silent_network: "keeps daemon_events (network_tick de prev cur)"
  unfolding network_tick_def retryOffline_def by (intro keeps_rules silent_for_each silent_SyncNow)

lemma silent_config: "keeps daemon_events (read_config_attempts n de)"
  by (induction n) (auto intro!: keeps_rules silent_on_daemon split: option.split)

lemma silent_begin: "keeps daemon_events (run_begin de)"
  unfolding run_begin_def readConfigWithRetry_def by (intro keeps_rules silent_config) simp_all

text \<open>And they are steps of the daemon.\<close>

lemma stays_config: "stays de d0 (read_config_attempts n de)"
  by (induction n) (auto intro!: stays_rules split: option.split)

lemma stays_begin: "stays de d0 (run_begin de)"
proof -
  have "daemon_reachable de d0 (startWatchers de c (upd_store OnChange d))" if "daemon_reachable de d0 d" for c d
    using daemon_more [OF daemon_more [OF that step_sys] step_start]
    by (simp add: upd_store_def)
  then have "stays de d0 (upd (\<lambda>d. startWatchers de c (upd_store OnChange d)))" for c
    unfolding stays_def by (rule triple_upd)
  then show ?thesis
    unfolding run_begin_def readConfigWithRetry_def by (intro stays_rules stays_config)
qed

lemma stays_SyncAll: "stays de d0 (SyncAll de)"
  unfolding SyncAll_def by (intro stays_rules)

lemma reach_reload: "daemon_reachable de d0 d \<Longrightarrow> daemon_reachable de d0 (reloadConfig de d)"
  by (auto simp: reloadConfig_def split: option.split intro: daemon_more step_reconcile)

lemma reach_Stop: "daemon_reachable de d0 d \<Longrightarrow> daemon_reachable de d0 (Stop_daemon de d)"
  unfolding Stop_daemon_def by (rule reach_save) (rule daemon_more [OF _ step_cancel])

lemma staysD: "stays de d0 m \<Longrightarrow> daemon_reachable de d0 d \<Longrightarrow> daemon_reachable de d0 (snd (run_state m d))"
  unfolding stays_def by (drule tripleD)

section \<open>What a step does to the daemon and to what was emitted\<close>

text \<open>An event as the history has it: with an identifier, and with a time if it had none.\<close>

definition same_event :: "event \<Rightarrow> event \<Rightarrow> bool" where
  "same_event e ev \<longleftrightarrow> (\<exists>n t. ev = e\<lparr>ev_ID := n, ev_Ts := t\<rparr> \<and> (ev_Ts e \<noteq> 0 \<longrightarrow> t = ev_Ts e))"

text \<open>The fields that a subscriber's stream and the daemon share; only \<open>Emit\<close> changes them.\<close>

definition core :: "'d server \<Rightarrow> 'd \<times> event list" where
  "core sv = (sv_daemon sv, sv_emitted sv)"

lemma core_fields [simp]:
  "core (sv\<lparr>sv_panic := b\<rparr>) = core sv" "core (sv\<lparr>sv_subs := is\<rparr>) = core sv" "core (sv\<lparr>sv_conns := ks\<rparr>) = core sv"
  "core (set_conn i c sv) = core sv" "core (accept i sv) = core sv" "core (Close_server sv) = core sv"
  by (simp_all add: core_def set_conn_def accept_def Close_server_def)

lemma core_send_to [simp]: "core (snd (send_to i fr x sv)) = core sv"
  by (simp add: send_to_def split: option.split prod.split)

lemma core_sendJSON [simp]: "core (snd (sendJSON i fr x sv)) = core sv"
  by (simp add: sendJSON_def split: option.split)

lemma core_push_to [simp]: "core (push_to is fr x sv) = core sv"
proof (induction "is" arbitrary: sv)
  case (Cons i "is")
  then show ?case using core_send_to [of i fr x sv] by (cases "send_to i fr x sv") simp
qed simp

lemma core_BroadcastState [simp]: "core (BroadcastState se now rs sv) = core sv"
  by (simp add: BroadcastState_def pushLocked_def Let_def split: option.split)

lemma core_leave [simp]: "core (leave i sv) = core sv"
  by (simp add: leave_def Let_def split: option.split)

lemma core_reply [simp]: "core (reply se i resp sv) = core sv"
  using core_sendJSON [of i "FResponse resp" "se_response se resp" sv]
  by (cases "sendJSON i (FResponse resp) (se_response se resp) sv") (simp add: reply_def)

lemma core_subscribe [simp]: "core (snd (subscribe se i req sv)) = core sv"
proof -
  let ?h = "server_hello se sv"
  obtain ok1 sv1 where s1: "sendJSON i (FResponse (subscribed req ?h)) (se_response se (subscribed req ?h)) sv = (ok1, sv1)" by (metis surj_pair)
  obtain ok2 sv2 where s2: "sendJSON i (FHello ?h) (se_hello_frame se ?h) sv1 = (ok2, sv2)" by (metis surj_pair)
  have "core sv1 = core sv" "core sv2 = core sv1" using core_sendJSON s1 s2 by (metis snd_conv)+
  then show ?thesis using s1 s2 by (cases ok1; cases ok2) (simp_all add: subscribe_def Let_def)
qed

lemma core_handle_client:
  assumes "request_of se r = None"
  shows "core (handle_client se i r sv) = core sv"
proof -
  have "core (snd (handle_read se i r sv)) = core sv"
  proof (cases r)
    case (Line line)
    obtain req err where rq: "se_request se line = (req, err)" by force
    show ?thesis
      using assms Line rq
      by (auto simp: handle_read_def request_of_def dispatch_def Let_def split: option.splits if_splits prod.splits)
  qed (simp_all add: handle_read_def Let_def)
  then show ?thesis by (cases "handle_read se i r sv") (simp add: handle_client_def)
qed

lemma Append_same: "same_event e (fst (Append io enc ld e))"
proof -
  have "same_event e (e\<lparr>ev_ID := n\<rparr>)" for n
    unfolding same_event_def by (rule exI [of _ n], rule exI [of _ "ev_Ts e"]) simp
  moreover have "ev_Ts e = 0 \<Longrightarrow> same_event e (e\<lparr>ev_ID := n, ev_Ts := t\<rparr>)" for n t
    unfolding same_event_def by blast
  ultimately show ?thesis
    by (cases ld) (auto simp: Append_def Let_def split: prod.split)
qed

lemma Emit_core: "\<exists>ev. same_event e ev \<and> core (Emit se io e sv) = (sv_daemon sv, sv_emitted sv @ [ev])"
proof -
  obtain ev l k where a: "Append io (se_line se) (sv_log sv, sv_disk sv) e = (ev, l, k)" by (metis surj_pair)
  have "same_event e ev" using Append_same [of e io "se_line se" "(sv_log sv, sv_disk sv)"] a by simp
  then show ?thesis
    using a by (intro exI [of _ ev]) (auto simp: Emit_def Let_def pushLocked_def core_def [of "sv\<lparr>sv_log := l, sv_disk := k, sv_emitted := es\<rparr>" for es] split: option.split)
qed

text \<open>Between reading a command and answering it the two steps do what \<open>handle_client\<close> does.\<close>

lemma command_then_reply:
  assumes "request_of se r = Some req" and "run_state (HandleCommand de (Some (sv_log sv)) req) (sv_daemon sv) = (resp, d)"
  shows "reply se i (resp\<lparr>rp_ID := rq_ID req\<rparr>) (sv\<lparr>sv_daemon := d\<rparr>) = handle_client (daemon_server_env de (sv_log sv) se) i r sv"
proof -
  obtain line where l: "r = Line line" "trim_space line \<noteq> []" "se_request se line = (req, None)" "rq_Cmd req \<noteq> CmdSubscribe" "rq_Cmd req \<noteq> []"
    using assms(1) by (auto simp: request_of_def split: read_line.splits if_splits prod.splits option.splits)
  have "dispatch (daemon_server_env de (sv_log sv) se) req (sv_daemon sv) = (resp, d)"
    using l(5) assms(2) by (simp add: dispatch_def daemon_server_env_def)
  then show ?thesis
    using l(2-4) unfolding l(1) reply_def handle_client_def handle_read_def by (simp add: daemon_server_env_def Let_def)
qed

section \<open>The invariant\<close>

definition program_inv ::
  "'w daemon_env \<Rightarrow> 'w daemon server_env \<Rightarrow> 'w sys \<Rightarrow> filesystem \<Rightarrow> u64 \<Rightarrow> 'w program \<Rightarrow> bool" where
  "program_inv de se sys fs base p \<longleftrightarrow>
     server_inv se base (pg_server p) \<and> daemon_reachable de (init sys fs) (pg_daemon p) \<and>
     (\<exists>evs. daemon_events (pg_daemon p) = sy_events sys @ evs \<and> pg_lines p = map LogEmitter_Emit evs \<and>
        list_all2 same_event evs (sv_emitted (pg_server p)))"

text \<open>Only what the server sends changes.\<close>

lemma program_inv_server:
  assumes "program_inv de se sys fs base p" and "server_inv se base sv" and "core sv = core (pg_server p)"
    and "pg_server p' = sv" and "pg_lines p' = pg_lines p"
  shows "program_inv de se sys fs base p'"
  using assms unfolding program_inv_def core_def by simp

text \<open>Only the daemon changes, and emits nothing.\<close>

lemma program_inv_daemon:
  assumes "program_inv de se sys fs base p" and "daemon_reachable de (init sys fs) d" and "daemon_events d = daemon_events (pg_daemon p)"
    and "pg_server p' = (pg_server p)\<lparr>sv_daemon := d\<rparr>" and "pg_lines p' = pg_lines p"
  shows "program_inv de se sys fs base p'"
  using assms unfolding program_inv_def by (simp add: server_inv_daemon)

text \<open>One event, in both emitters.\<close>

lemma emit_program_simps:
  "pg_server (emit_program se e p) = Emit se (fst e) (snd e) (pg_server p)"
  "pg_lines (emit_program se e p) = pg_lines p @ [LogEmitter_Emit (snd e)]"
  by (simp_all add: emit_program_def)

lemma emit_programs:
  assumes enc: "encodes se" and "server_inv se base (pg_server p)" and "pg_lines p = map LogEmitter_Emit es"
    and "list_all2 same_event es (sv_emitted (pg_server p))"
  shows "server_inv se base (pg_server (fold (emit_program se) evs p)) \<and> pg_daemon (fold (emit_program se) evs p) = pg_daemon p \<and>
    pg_lines (fold (emit_program se) evs p) = map LogEmitter_Emit (es @ map snd evs) \<and>
    list_all2 same_event (es @ map snd evs) (sv_emitted (pg_server (fold (emit_program se) evs p)))"
  using assms(2-)
proof (induction evs arbitrary: p es)
  case (Cons e evs)
  let ?p = "emit_program se e p"
  obtain ev where ev: "same_event (snd e) ev" "core (Emit se (fst e) (snd e) (pg_server p)) = (pg_daemon p, sv_emitted (pg_server p) @ [ev])"
    using Emit_core by blast
  then have c: "pg_daemon ?p = pg_daemon p" "sv_emitted (pg_server ?p) = sv_emitted (pg_server p) @ [ev]"
    by (simp_all add: emit_program_simps core_def)
  have "server_inv se base (pg_server ?p)"
    unfolding emit_program_simps by (rule server_inv_Emit [OF Cons.prems(1)]) (use enc in \<open>simp add: encodes_def\<close>)
  moreover have "list_all2 same_event (es @ [snd e]) (sv_emitted (pg_server ?p))"
    using Cons.prems(3) ev(1) c(2) by (simp add: list_all2_appendI)
  ultimately show ?case
    using Cons.IH [of ?p "es @ [snd e]"] Cons.prems(2) c(1) by (simp add: emit_program_simps)
qed simp

lemma program_inv_becomes:
  assumes inv: "program_inv de se sys fs base p" and enc: "encodes se" and em: "emits p evs d"
    and d: "daemon_reachable de (init sys fs) d" and p': "pg_server p' = pg_server (becomes se evs d p)" "pg_lines p' = pg_lines (becomes se evs d p)"
  shows "program_inv de se sys fs base p'"
proof -
  obtain es where es: "daemon_events (pg_daemon p) = sy_events sys @ es" "pg_lines p = map LogEmitter_Emit es"
    "list_all2 same_event es (sv_emitted (pg_server p))" "server_inv se base (pg_server p)"
    using inv unfolding program_inv_def by blast
  have "daemon_events d = sy_events sys @ es @ map snd evs" using em es(1) by (simp add: emits_def)
  then show ?thesis
    using emit_programs [OF enc, of base "set_daemon d p" es evs] es d p' unfolding program_inv_def becomes_def
    by (simp add: set_daemon_def server_inv_daemon)
qed

lemma server_inv_codec: "server_inv (daemon_server_env de l se) base sv = server_inv se base sv"
proof -
  have "frame_bytes (daemon_server_env de l se) = frame_bytes se"
    by (auto simp: fun_eq_iff frame_bytes_def daemon_server_env_def split: frame.split)
  then show ?thesis by (simp add: server_inv_def)
qed

lemma request_of_daemon [simp]: "request_of (daemon_server_env de l se) r = request_of se r"
proof -
  have "se_request (daemon_server_env de l se) = se_request se" by (simp add: daemon_server_env_def)
  then show ?thesis unfolding request_of_def by metis
qed

lemma server_inv_handle_client:
  assumes "server_inv se base sv" and "reads i sv" and "encodes se"
  shows "server_inv se base (handle_client (daemon_server_env de l se) i r sv)"
proof -
  let ?se = "daemon_server_env de l se"
  obtain ok sv' where h: "handle_read ?se i r sv = (ok, sv')" by force
  have "\<And>h. se_hello_frame ?se h \<noteq> None" using assms(3) by (simp add: encodes_def daemon_server_env_def)
  then have "server_inv ?se base sv'"
    using server_inv_handle_read [of ?se base sv i r ok sv'] assms(1,2) h by (simp add: server_inv_codec)
  then show ?thesis using h server_inv_leave by (auto simp: handle_client_def server_inv_codec)
qed

lemma server_inv_Close: "server_inv se base sv \<Longrightarrow> encodes se \<Longrightarrow> server_inv se base (Close_server sv)"
  by (rule server_inv_step [OF step_close]) (auto simp: encodes_def)

lemma server_inv_reply:
  assumes "server_inv se base sv" and "reads i sv"
  shows "server_inv se base (reply se i resp sv)"
proof -
  obtain ok sv' where h: "sendJSON i (FResponse resp) (se_response se resp) sv = (ok, sv')" by force
  show ?thesis using server_inv_response [OF assms h] h server_inv_leave by (auto simp: reply_def)
qed

lemma program_inv_step:
  assumes "files_ok de" and enc: "encodes se" and inv: "program_inv de se sys fs base p" and "program_step de se p p'"
  shows "program_inv de se sys fs base p'"
proof -
  have sv: "server_inv se base (pg_server p)" and d: "daemon_reachable de (init sys fs) (pg_daemon p)"
    using inv by (simp_all add: program_inv_def)
  note srv = program_inv_server [OF inv] and dmn = program_inv_daemon [OF inv]
  have step: "server_step se (pg_server p) sv' \<Longrightarrow> server_inv se base sv'" for sv'
    by (rule server_inv_step [OF _ sv]) (use enc in \<open>simp_all add: encodes_def\<close>)
  show ?thesis
    using assms(4)
  proof (cases rule: program_step.cases)
    case (pg_daemon d' evs)
    then show ?thesis by (intro program_inv_becomes [OF inv enc pg_daemon(3) daemon_more [OF d pg_daemon(2)]]) simp_all
  next
    case (pg_accept i)
    then show ?thesis by (intro srv [OF step [OF step_accept]]) simp_all
  next
    case (pg_command i r req evs)
    show ?thesis
      by (rule program_inv_becomes [OF inv enc pg_command(5) staysD [OF stays_HandleCommand [OF assms(1)] d]])
        (simp_all add: pg_command(1) run_command_def split: prod.split)
  next
    case (pg_reply i resp)
    then show ?thesis by (intro srv [OF server_inv_reply [OF sv pg_reply(3)]]) simp_all
  next
    case (pg_read i r)
    then show ?thesis by (intro srv [OF server_inv_handle_client [OF sv pg_read(2) enc]] core_handle_client) simp_all
  next
    case (pg_write i c ok)
    then show ?thesis by (intro srv [OF step [OF step_write [OF pg_write(2)]]]) simp_all
  next
    case (pg_state now rs)
    then show ?thesis by (intro srv [OF step [OF step_state]]) simp_all
  next
    case (pg_begin once ifaces)
    then show ?thesis by (intro dmn [OF staysD [OF stays_begin d] keepsD [OF silent_begin]]) (simp_all add: begin_program_def set_daemon_def)
  next
    case pg_reload
    then show ?thesis by (intro dmn [OF reach_reload [OF d] reload_events]) (simp_all add: set_daemon_def)
  next
    case (pg_activity a)
    then show ?thesis using inv by (simp add: program_inv_def)
  next
    case pg_woken
    then show ?thesis by (intro dmn [OF staysD [OF stays_SyncAll d] keepsD [OF silent_SyncAll]]) (simp_all add: woken_def set_daemon_def)
  next
    case (pg_network ifaces)
    then show ?thesis
      by (intro dmn [OF staysD [OF stays_network_tick [of de _ "pg_net p" "networkFingerprint ifaces"] d] keepsD [OF silent_network]])
        (simp_all add: network_checked_def set_daemon_def split: prod.split)
  next
    case pg_stop
    let ?p = "set_daemon (Stop_daemon de (pg_daemon p)) p"
    have i: "program_inv de se sys fs base ?p"
      by (intro dmn [OF reach_Stop [OF d] save_events(2)]) (simp_all add: set_daemon_def)
    then have "server_inv se base (Close_server (pg_server ?p))"
      by (intro server_inv_Close [OF _ enc]) (simp add: program_inv_def)
    then show ?thesis
      by (rule program_inv_server [OF i]) (simp_all add: pg_stop Stop_program_def Let_def)
  qed
qed

interpretation program_sys: step_system "program_step de se" "program_reachable de se" for de se
proof
  show "program_reachable de se s s" for s by (rule program_begin)
  show "program_reachable de se s t \<Longrightarrow> program_step de se t u \<Longrightarrow> program_reachable de se s u" for s t u by (rule program_more)
  show "program_reachable de se s t \<Longrightarrow> P s \<Longrightarrow> (\<And>t u. P t \<Longrightarrow> program_step de se t u \<Longrightarrow> P u) \<Longrightarrow> P t" for s t P
    by (induction rule: program_reachable.induct) auto
qed

interpretation programs: step_invariant "program_step de se" "program_reachable de se"
  "\<lambda>p. files_ok de \<and> encodes se \<longrightarrow> program_inv de se sys fs base p" for de se sys fs base
  by unfold_locales (auto intro: program_inv_step)

lemma startSocket_serving:
  assumes "startSocket pl le now rounds he d = Some (Serving sv)"
  obtains le' sv0 where "NewSocketServer le' (DefaultSocketPath pl) d = Inr sv0"
    and "sv = (SetEventLog (open_events pl he) sv0)\<lparr>sv_daemon := upd_store OnChange d\<rparr>"
proof -
  let ?path = "DefaultSocketPath pl" and ?dl = "now + socketInUseWait"
  obtain sv0 where a: "await_socket ?path d ?dl rounds (NewSocketServer le ?path d) = Answered (Inr sv0)"
    and sv: "sv = (SetEventLog (open_events pl he) sv0)\<lparr>sv_daemon := upd_store OnChange d\<rparr>"
    using assms by (auto simp: startSocket_def Let_def split: waited.splits sum.splits if_splits)
  obtain n where "await_socket ?path d ?dl rounds (NewSocketServer le ?path d) = wait_outcome ?dl rounds n (attempt ?path d le rounds n)"
    using await_socket_spec [of rounds ?path d le ?dl] by blast
  then have "NewSocketServer ((le # map sr_listen rounds) ! n) ?path d = Inr sv0"
    using a by (auto simp: wait_outcome_def attempt_def split: if_splits)
  then show thesis using sv by (rule that)
qed

lemma program_inv_begin:
  assumes "startSocket pl le now rounds he (init sys fs) = Some (Serving sv)"
  shows "program_inv de se sys fs (LastID (sv_log sv)) (serving sv)"
proof -
  obtain le' sv0 where sv0: "NewSocketServer le' (DefaultSocketPath pl) (init sys fs) = Inr sv0"
    and sv: "sv = (SetEventLog (open_events pl he) sv0)\<lparr>sv_daemon := upd_store OnChange (init sys fs)\<rparr>"
    using startSocket_serving [OF assms] by blast
  have "server_inv se (LastID (sv_log sv)) sv"
    using server_inv_begin [OF sv0, of se "open_events pl he"] sv by (simp add: server_inv_daemon)
  moreover have "sv_emitted sv = []"
    using sv0 sv by (auto simp: NewSocketServer_def SetEventLog_def split: option.splits if_splits)
  moreover have "daemon_reachable de (init sys fs) (upd_store OnChange (init sys fs))"
    using daemon_more [OF daemon_begin step_sys] by (simp add: upd_store_def)
  ultimately show ?thesis by (simp add: program_inv_def serving_def sv init_def upd_store_def)
qed

lemma program_inv_reachable:
  assumes "startSocket pl le now rounds he (init sys fs) = Some (Serving sv)" and "files_ok de" and "encodes se"
    and "program_reachable de se (serving sv) p"
  shows "program_inv de se sys fs (LastID (sv_log sv)) p"
  using programs.reach_inv [OF assms(4)] program_inv_begin [OF assms(1)] assms(2,3) by blast

text \<open>
  What the frames of a subscriber hold of the events \<open>evs\<close> of the daemon: after the last hello exactly those from some point
  on, numbered from the identifier in the hello; \<open>base\<close> is the last identifier before the first event.
\<close>

definition delivered :: "u64 \<Rightarrow> event list \<Rightarrow> frame list \<Rightarrow> bool" where
  "delivered base evs fs \<longleftrightarrow>
     (\<exists>before h after n. fs = before @ FHello h # after \<and> (\<forall>f \<in> set after. \<not> is_FHello f) \<and>
        hl_LastEventID h = base + of_nat n \<and> n \<le> length evs \<and> list_all2 same_event (drop n evs) (events_of after) \<and>
        (\<forall>k < length (events_of after). ev_ID (events_of after ! k) = hl_LastEventID h + of_nat (Suc k)))"

lemma stream_delivered:
  assumes "stream_ok base es fs" and "list_all2 same_event evs es" and "ids_from base es"
  shows "delivered base evs fs"
proof -
  obtain a h b n where s: "fs = a @ FHello h # b" "\<forall>f \<in> set b. \<not> is_FHello f"
    "hl_LastEventID h = base + of_nat n" "n \<le> length es" "events_of b = drop n es"
    using assms(1) unfolding stream_ok_def by blast
  have "list_all2 same_event (drop n evs) (events_of b)" unfolding s(5) by (rule list_all2_dropI [OF assms(2)])
  moreover have "n \<le> length evs" using s(4) list_all2_lengthD [OF assms(2)] by simp
  moreover have "\<forall>k < length (events_of b). ev_ID (events_of b ! k) = hl_LastEventID h + of_nat (Suc k)"
    using assms(3) s(3-5) by (simp add: ids_from_def add.assoc)
  ultimately show ?thesis unfolding delivered_def using s(1-3) by blast
qed

section \<open>Properties\<close>


text \<open>One client subscribes, another one pauses the repository.\<close>

definition demo_codec :: "unit daemon server_env" where
  "demo_codec =
     \<lparr>se_response = \<lambda>r. Some (rp_ID r), se_hello_frame = \<lambda>h. Some ''hello'', se_event = \<lambda>e. Some (ev_Type e),
      se_state = \<lambda>f. None,
      se_request = \<lambda>l. (subscribe_request\<lparr>rq_ID := l, rq_Cmd := (if l = ''s'' then CmdSubscribe else CmdPause), rq_Repo := ''/r''\<rparr>, None),
      se_handler = None, se_hello = None, se_line = ev_Type\<rparr>"

definition demo_pause :: socket_request where
  "demo_pause = subscribe_request\<lparr>rq_ID := ''p'', rq_Cmd := CmdPause, rq_Repo := ''/r''\<rparr>"

definition demo_served :: "unit daemon server" where
  "demo_served =
     \<lparr>sv_daemon = upd_store OnChange (init demo_sys Map.empty), sv_log = NewMemoryEventLog (int EventLogCapacity), sv_disk = [], sv_table = [],
      sv_conns = [], sv_subs = [], sv_done = False, sv_panic = False, sv_emitted = []\<rparr>"

definition demo_watching :: "unit program" where
  "demo_watching = becomes demo_codec []
     (startWatchers demo_daemon_env \<lparr>cfg_Repos = [''/r''], cfg_Envs = []\<rparr> (sv_daemon demo_served)) (serving demo_served)"

definition demo_accepted :: "unit program" where
  "demo_accepted = demo_watching\<lparr>pg_server := accept 7 (pg_server demo_watching)\<rparr>"

definition demo_heard :: "unit program" where
  "demo_heard = demo_accepted\<lparr>pg_server := handle_client
     (daemon_server_env demo_daemon_env (sv_log (pg_server demo_accepted)) demo_codec) 7 (Line ''s'') (pg_server demo_accepted)\<rparr>"

definition demo_subscribed :: "unit program" where
  "demo_subscribed = demo_heard\<lparr>pg_server := accept 8 (pg_server demo_heard)\<rparr>"

definition demo_paused :: "unit program" where
  "demo_paused =
     (let r = run_state (HandleCommand demo_daemon_env (Some (sv_log (pg_server demo_subscribed))) demo_pause) (pg_daemon demo_subscribed)
      in run_command demo_daemon_env demo_codec (map (Pair demo_io) (daemon_events (snd r))) 8 demo_pause demo_subscribed)"

lemma demo_serving: "startSocket (demo_places\<lparr>pl_socket := ''/s''\<rparr>) demo_listen 0 [] demo_history (init demo_sys Map.empty) = Some (Serving demo_served)"
proof -
  have "DefaultSocketPath (demo_places\<lparr>pl_socket := ''/s''\<rparr>) = ''/s''" by code_simp
  then show ?thesis
    by (simp add: startSocket_def await_socket.simps in_use_def NewSocketServer_def CheckSocketPath_def MaxSocketPathLen_def demo_listen_def
        SetEventLog_def demo_served_def open_events_def NewEventLog_def Let_def rewrite_def demo_history_def split: prod.split)
qed

lemma demo_subscribed_reachable: "program_reachable demo_daemon_env demo_codec (serving demo_served) demo_subscribed"
proof -
  let ?step = "program_reachable demo_daemon_env demo_codec (serving demo_served)"
  have w: "?step demo_watching"
    unfolding demo_watching_def
    by (rule program_more [OF program_begin pg_daemon]) (simp_all add: serving_def emits_def step_start)
  have p: "?step demo_accepted" unfolding demo_accepted_def by (rule program_more [OF w pg_accept]) code_simp
  have "?step demo_heard"
    unfolding demo_heard_def
  proof (rule program_more [OF p pg_read])
    show "reads 7 (pg_server demo_accepted)"
      by (auto simp: reads_def accept_def newSocketConn_def demo_accepted_def demo_watching_def becomes_def set_daemon_def serving_def demo_served_def)
    show "7 \<notin> fst ` set (pg_pending demo_accepted)" by code_simp
    show "request_of demo_codec (Line ''s'') = None" by code_simp
  qed
  then show ?thesis
    unfolding demo_subscribed_def by (rule program_more [OF _ pg_accept]) code_simp
qed

lemma demo_subscribed_eval:
  "map_option sc_finished (conn_of (pg_server demo_subscribed) 8) = Some False \<and> pg_pending demo_subscribed = [] \<and>
   daemon_events (pg_daemon demo_subscribed) = []"
  by code_simp

lemma demo_subscriber:
  "sv_subs (pg_server demo_subscribed) = [7] \<and>
   map_option (\<lambda>c. (sc_closed c, length (sc_queue c), events_of (sc_frames c))) (conn_of (pg_server demo_subscribed) 7) = Some (False, 2, [])"
  by code_simp

lemma demo_pause_event:
  "map ev_Type (daemon_events (snd (run_state (HandleCommand demo_daemon_env (Some l) demo_pause) (pg_daemon demo_watching)))) = [EventPaused]"
  by code_simp

lemma demo_paused_reachable: "program_reachable demo_daemon_env demo_codec (serving demo_served) demo_paused"
  unfolding demo_paused_def Let_def
proof (rule program_more [OF demo_subscribed_reachable pg_command [where r = "Line ''p''"]])
  show "reads 8 (pg_server demo_subscribed)" using demo_subscribed_eval by (auto simp: reads_def)
  show "8 \<notin> fst ` set (pg_pending demo_subscribed)" using demo_subscribed_eval by simp
  show "request_of demo_codec (Line ''p'') = Some demo_pause"
  proof -
    have "trim_space ''p'' \<noteq> []" by code_simp
    then show ?thesis by (simp add: request_of_def demo_codec_def demo_pause_def CmdPause_def CmdSubscribe_def)
  qed
  show "emits demo_subscribed
     (map (Pair demo_io) (daemon_events (snd (run_state (HandleCommand demo_daemon_env (Some (sv_log (pg_server demo_subscribed))) demo_pause)
       (pg_daemon demo_subscribed)))))
     (snd (run_state (HandleCommand demo_daemon_env (Some (sv_log (pg_server demo_subscribed))) demo_pause) (pg_daemon demo_subscribed)))"
    using demo_subscribed_eval by (simp add: emits_def comp_def)
qed

lemma Emit_one:
  assumes "sv_subs sv = [i]" and "conn_of sv i = Some c" and "\<not> sc_closed c" and "length (sc_queue c) < ClientQueueSize" and "encodes se"
  shows "\<exists>ev c'. same_event e ev \<and> sv_subs (Emit se io e sv) = [i] \<and> conn_of (Emit se io e sv) i = Some c' \<and> \<not> sc_closed c' \<and>
    sc_frames c' = sc_frames c @ [FEvent ev]"
proof -
  obtain ev l k where a: "Append io (se_line se) (sv_log sv, sv_disk sv) e = (ev, l, k)" by (metis surj_pair)
  have "same_event e ev" using Append_same [of e io "se_line se" "(sv_log sv, sv_disk sv)"] a by simp
  moreover obtain x where "se_event se ev = Some x" using assms(5) unfolding encodes_def by blast
  ultimately show ?thesis
    using assms(1-4) a by (auto simp: Emit_def pushLocked_def send_to_def send_conn_def conn_of_def set_conn_def)
qed

lemma demo_paused_eval:
  "\<exists>c. conn_of (pg_server demo_paused) 7 = Some c \<and> 7 \<in> set (sv_subs (pg_server demo_paused)) \<and> \<not> sc_closed c \<and>
     map ev_Type (events_of (sc_frames c)) = [EventPaused]"
proof -
  let ?p = demo_subscribed
  let ?r = "run_state (HandleCommand demo_daemon_env (Some (sv_log (pg_server ?p))) demo_pause) (pg_daemon ?p)"
  have "request_of (daemon_server_env demo_daemon_env (sv_log (pg_server demo_accepted)) demo_codec) (Line ''s'') = None"
    unfolding request_of_daemon by code_simp
  note core_handle_client [OF this, of 7 "pg_server demo_accepted"]
  then have "pg_daemon ?p = pg_daemon demo_watching"
    by (simp add: demo_subscribed_def demo_heard_def demo_accepted_def core_def accept_def set_conn_def split: if_splits)
  then obtain e where e: "daemon_events (snd ?r) = [e]" "ev_Type e = EventPaused"
    using demo_pause_event [of "sv_log (pg_server ?p)"] by (auto simp: map_eq_Cons_conv)
  let ?sv = "(pg_server ?p)\<lparr>sv_daemon := snd ?r\<rparr>"
  have paused: "pg_server demo_paused = Emit demo_codec demo_io e ?sv"
    by (simp add: demo_paused_def Let_def run_command_def e(1) becomes_def set_daemon_def emit_program_simps split: prod.split)
  have "encodes demo_codec" by (simp add: encodes_def demo_codec_def)
  moreover obtain c where c: "conn_of (pg_server ?p) 7 = Some c" "\<not> sc_closed c" "length (sc_queue c) = 2" "events_of (sc_frames c) = []"
    using demo_subscriber by auto
  ultimately obtain ev c' where "same_event e ev" "sv_subs (pg_server demo_paused) = [7]" "conn_of (pg_server demo_paused) 7 = Some c'"
    "\<not> sc_closed c'" "sc_frames c' = sc_frames c @ [FEvent ev]"
    using Emit_one [of ?sv 7 c demo_codec e demo_io] demo_subscriber unfolding paused by (auto simp: ClientQueueSize_def)
  then show ?thesis using e(2) c(4) by (auto simp: same_event_def)
qed


end
