(* ===== verification/Doctor.thy ===== *)
theory Doctor
  imports Cli
begin

text \<open>
  \<open>doctor.go\<close>: the command that checks git, the configuration, every repository, the daemon with its
  socket and its LaunchAgent, and the logs, and reports what is wrong.

  What it looks at are parameters, the record \<open>doctor_io\<close>: the commands it runs, what the file system
  answers, the connection to the daemon, and the codecs. A run keeps the world of the commands, the commands started, the checks made so
  far and the variables of the configuration. The repositories, which the code checks in
  parallel, are checked one after the other; the results are in the order of the configuration in both.
\<close>

section \<open>Data\<close>

definition checkOK :: string where [simp]: "checkOK = ''ok''"
definition checkWarn :: string where [simp]: "checkWarn = ''warn''"
definition checkFail :: string where [simp]: "checkFail = ''fail''"

record doctor_check =
  dc_Section :: string
  dc_Repo :: string
  dc_Name :: string
  dc_Status :: string
  dc_Detail :: string
  dc_Fix :: string

record doctor_summary =
  du_OK :: nat
  du_Warn :: nat
  du_Fail :: nat

record doctor_report =
  dr_OK :: bool
  dr_Summary :: doctor_summary
  dr_Checks :: "doctor_check list"

record doctor_env =
  dx_home :: string
  dx_goos :: string
  dx_configPath :: string
  dx_socketPath :: string
  dx_logPath :: string
  dx_stateDir :: string
  dx_cliVersion :: string
  dx_executable :: string
  dx_checkXcode :: bool
  dx_cmdTimeout :: duration
  dx_remoteTimeout :: duration

record file_mode =
  fm_IsDir :: bool
  fm_Exec :: bool \<comment> \<open>\<open>Mode() & 0111 != 0\<close>\<close>
  fm_Socket :: bool
  fm_Perm :: nat
  fm_Size :: int

text \<open>The tokens of \<open>encoding/xml\<close>'s decoder, which end at the end of the input or in an error.\<close>

datatype xml_token = StartElement string | EndElement | CharData string | OtherToken

record 'w doctor_io =
  dio_run :: "'w \<Rightarrow> duration \<times> string \<times> string list \<times> string \<times> string list \<Rightarrow> run_result \<times> 'w"
    \<comment> \<open>a command, by its time limit, directory, environment, name and arguments\<close>
  dio_stat :: "'w \<Rightarrow> string \<Rightarrow> goerror + file_mode"
  dio_lstat :: "'w \<Rightarrow> string \<Rightarrow> goerror + file_mode"
  dio_read :: "'w \<Rightarrow> string \<Rightarrow> goerror + string"
  dio_access :: "'w \<Rightarrow> string \<Rightarrow> bool" \<comment> \<open>\<open>syscall.Access\<close> for writing returns nil\<close>
  dio_lookpath :: "'w \<Rightarrow> string \<Rightarrow> string option"
  dio_paths :: "'w path_env"
  dio_environ :: "string list"
  dio_config :: "string \<Rightarrow> string + config_v1" \<comment> \<open>\<open>json.Unmarshal\<close>, with the text of its error\<close>
  dio_tokens :: "string \<Rightarrow> xml_token list \<times> string option" \<comment> \<open>the text of the error at the end, if there is one\<close>
  dio_connect :: "'w \<Rightarrow> connection"
  dio_version :: "string \<Rightarrow> client_error option \<times> int \<times> string" \<comment> \<open>the fields \<open>protocol\<close> and \<open>version\<close>\<close>
  dio_quote :: "string \<Rightarrow> string"

record 'w doctor_run =
  ds_world :: 'w
  ds_trace :: "(string \<times> string list) list"
  ds_checks :: "doctor_check list"
  ds_envs :: "string list"

definition newDoctorEnv :: "places \<Rightarrow> string \<Rightarrow> string \<Rightarrow> string \<Rightarrow> doctor_env" where
  "newDoctorEnv pl configDir exe version =
     \<lparr>dx_home = pl_home pl, dx_goos = pl_goos pl, dx_configPath = Join [configDir, ''config.json''],
      dx_socketPath = DefaultSocketPath pl, dx_logPath = LogPath pl, dx_stateDir = StateDir pl,
      dx_cliVersion = version, dx_executable = exe, dx_checkXcode = (pl_goos pl = ''darwin''),
      dx_cmdTimeout = 10 * second, dx_remoteTimeout = 15 * second\<rparr>"

section \<open>Running commands\<close>

record cmd_result =
  cm_stdout :: string
  cm_stderr :: string
  cm_exitCode :: int
  cm_timedOut :: bool
  cm_err :: "goerror option"

definition cmd_output :: "cmd_result \<Rightarrow> string" where
  "cmd_output c = trim_space (cm_stdout c @ [CHR 0x0A] @ cm_stderr c)"

definition gitError :: "string list \<Rightarrow> cmd_result \<Rightarrow> goerror option" where
  "gitError args c =
     map_option (GitError args (cm_stdout c) (cm_stderr c) (cm_exitCode c) (cm_timedOut c) 0) (cm_err c)"

definition runCommand ::
  "'w doctor_io \<Rightarrow> duration \<Rightarrow> string \<Rightarrow> string list \<Rightarrow> string \<Rightarrow> string list \<Rightarrow> ('w doctor_run, cmd_result) state" where
  "runCommand io timeout dir env name args = State (\<lambda>s.
     case dio_run io (ds_world s) (timeout, dir, env, name, args) of
       (r, w) \<Rightarrow>
         (\<lparr>cm_stdout = rr_out r, cm_stderr = rr_err r,
           cm_exitCode = (case rr_fail r of
               None \<Rightarrow> 0
             | Some e \<Rightarrow> (case as_exit e of Some (ExitError code _) \<Rightarrow> code | _ \<Rightarrow> - 1)),
           cm_timedOut = rr_deadline r, cm_err = rr_fail r\<rparr>,
          s\<lparr>ds_world := w, ds_trace := ds_trace s @ [(name, args)]\<rparr>))"

definition getenv :: "string list \<Rightarrow> string \<Rightarrow> string" where
  "getenv environ k =
     (case find (\<lambda>kv. has_prefix kv (k @ ''='')) environ of Some kv \<Rightarrow> drop (Suc (length k)) kv | None \<Rightarrow> [])"

definition SplitList :: "string \<Rightarrow> string list" where
  "SplitList p = (if p = [] then [] else split_on (CHR '':'') p)"

text \<open>The search path of Unix; on Windows the sources return the variable as it is.\<close>

definition doctorPath :: "string list \<Rightarrow> string" where
  "doctorPath environ =
     join '':'' (foldl
       (\<lambda>parts extra. if list_ex (\<lambda>part. Clean part = extra) parts then parts else parts @ [extra])
       (SplitList (getenv environ ''PATH'')) [''/opt/homebrew/bin'', ''/usr/local/bin''])"

definition commandEnv :: "string list \<Rightarrow> string list \<Rightarrow> string list" where
  "commandEnv environ envs =
     filter (\<lambda>kv. \<not> has_prefix kv ''PATH='') environ @ [''PATH='' @ doctorPath environ] @ envs @
     [''GIT_TERMINAL_PROMPT=0'', ''LC_ALL=C''] @
     (if getenv environ ''GIT_SSH_COMMAND'' = []
      then [''GIT_SSH_COMMAND=ssh -o BatchMode=yes -o ConnectTimeout=10''] else [])"

definition run_in ::
  "'w doctor_io \<Rightarrow> duration \<Rightarrow> string \<Rightarrow> string \<Rightarrow> string list \<Rightarrow> ('w doctor_run, cmd_result) state" where
  "run_in io timeout dir name args =
     do {
       envs \<leftarrow> ask ds_envs;
       runCommand io timeout dir (commandEnv (dio_environ io) envs) name args
     }"

definition doctor_git ::
  "'w doctor_io \<Rightarrow> duration \<Rightarrow> string \<Rightarrow> string list \<Rightarrow> ('w doctor_run, cmd_result) state" where
  "doctor_git io timeout dir args = run_in io timeout dir ''git'' args"

definition lookPathIn :: "(string \<Rightarrow> goerror + file_mode) \<Rightarrow> string \<Rightarrow> string \<Rightarrow> string option" where
  "lookPathIn stat name path =
     find (\<lambda>c. case stat c of Inr info \<Rightarrow> \<not> fm_IsDir info \<and> fm_Exec info | Inl _ \<Rightarrow> False)
       (map (\<lambda>dir. Join [dir, name]) (filter (\<lambda>dir. dir \<noteq> []) (SplitList path)))"

definition add_check :: "doctor_check \<Rightarrow> ('w doctor_run, unit) state" where
  "add_check c = upd (\<lambda>r. r\<lparr>ds_checks := ds_checks r @ [c]\<rparr>)"

definition dcheck :: "string \<Rightarrow> string \<Rightarrow> string \<Rightarrow> string \<Rightarrow> string \<Rightarrow> doctor_check" where
  "dcheck section_name name status detail fix_text =
     \<lparr>dc_Section = section_name, dc_Repo = [], dc_Name = name, dc_Status = status, dc_Detail = detail, dc_Fix = fix_text\<rparr>"

section \<open>Git\<close>

definition xcode_fix :: string where "xcode_fix = ''sudo xcodebuild -license accept''"

definition check_xcode :: "'w doctor_io \<Rightarrow> doctor_env \<Rightarrow> string \<Rightarrow> ('w doctor_run, unit) state" where
  "check_xcode io env gitPath =
     do {
       sel \<leftarrow> run_in io (dx_cmdTimeout env) [] ''/usr/bin/xcode-select'' [''-p''];
       if cm_err sel \<noteq> None
       then add_check (dcheck ''system'' ''Xcode license'' checkWarn
         ''the command line developer tools are not installed, so /usr/bin/git (used under launchd) will not work'' ''xcode-select --install'')
       else if gitPath = ''/usr/bin/git'' then add_check (dcheck ''system'' ''Xcode license'' checkOK ''accepted'' [])
       else do {
         res \<leftarrow> run_in io (dx_cmdTimeout env) [] ''/usr/bin/git'' [''--version''];
         if cm_err res = None then add_check (dcheck ''system'' ''Xcode license'' checkOK ''accepted'' [])
         else if ClassifyError (gitError [''--version''] res) = CodeXcodeLicense
         then add_check (dcheck ''system'' ''Xcode license'' checkFail
           ''not accepted: /usr/bin/git refuses to run, and the daemon may use it under launchd'' xcode_fix)
         else add_check (dcheck ''system'' ''Xcode license'' checkWarn
           (''/usr/bin/git failed: '' @ truncate_cli (firstLine_cli (cmd_output res)) 100) [])
       }
     }"

definition find_git :: "'w doctor_io \<Rightarrow> 'w \<Rightarrow> string option" where
  "find_git io w =
     (case dio_lookpath io w ''git'' of
        Some p \<Rightarrow> Some p
      | None \<Rightarrow> lookPathIn (dio_stat io w) ''git'' (doctorPath (dio_environ io)))"

definition checkGit :: "'w doctor_io \<Rightarrow> doctor_env \<Rightarrow> ('w doctor_run, unit) state" where
  "checkGit io env =
     do {
       found \<leftarrow> ask (\<lambda>s. find_git io (ds_world s));
       case found of
         None \<Rightarrow>
           add_check (dcheck ''system'' ''git'' checkFail ''git was not found on PATH''
             (if dx_goos env = ''darwin'' then ''xcode-select --install'' else ''install git and make sure it is on PATH''))
       | Some gitPath \<Rightarrow>
           do {
             res \<leftarrow> run_in io (dx_cmdTimeout env) [] gitPath [''--version''];
             if cm_err res = None
             then do {
               add_check (dcheck ''system'' ''git'' checkOK (firstLine_cli (cm_stdout res) @ '' ('' @ gitPath @ '')'') []);
               if dx_checkXcode env then check_xcode io env gitPath else State_Monad.return ()
             }
             else if ClassifyError (gitError [''--version''] res) = CodeXcodeLicense
             then add_check (dcheck ''system'' ''git'' checkFail
               ''the Xcode license has not been accepted, so git refuses to run'' xcode_fix)
             else add_check (dcheck ''system'' ''git'' checkFail (truncate_cli (firstLine_cli (cmd_output res)) 120)
               ''reinstall git, or run `xcode-select --install` on macOS'')
           }
     }"

section \<open>The configuration\<close>

definition add_repo_fix :: string where "add_repo_fix = ''git-auto-sync daemon add <repo>''"

definition checkConfig :: "'w doctor_io \<Rightarrow> doctor_env \<Rightarrow> ('w doctor_run, string list) state" where
  "checkConfig io env =
     do {
       let add = (\<lambda>status detail fix_text. do {
         add_check (dcheck ''config'' ''config'' status detail fix_text);
         State_Monad.return [] });
       content \<leftarrow> ask (\<lambda>s. dio_read io (ds_world s) (dx_configPath env));
       case content of
         Inl e \<Rightarrow>
           if is_error ErrNotExist e then add checkWarn ''no config file yet, so no repos are synced'' add_repo_fix
           else add checkFail (error_text e) []
       | Inr text \<Rightarrow>
           (case (if trim_space text = [] then Inr \<lparr>cfg_Repos = [], cfg_Envs = []\<rparr> else dio_config io text) of
              Inl msg \<Rightarrow>
                add checkFail (''cannot parse '' @ dx_configPath env @ '': '' @ msg)
                  ''fix the JSON by hand, or move the file away and add your repos again''
            | Inr config \<Rightarrow>
                do {
                  upd (\<lambda>r. r\<lparr>ds_envs := cfg_Envs config\<rparr>);
                  let repos = NormalizeRepos (cfg_Repos config);
                  if repos = [] then add checkWarn (''no repos configured ('' @ dx_configPath env @ '')'') add_repo_fix
                  else do {
                    add_check (dcheck ''config'' ''config'' checkOK
                      (itoa (int (length repos)) @ '' repo(s) in '' @ dx_configPath env) []);
                    State_Monad.return repos
                  }
                })
     }"

section \<open>Repositories\<close>

record repo_facts =
  rf_checks :: "doctor_check list"
  rf_github :: bool
  rf_httpsGitHub :: bool

definition facts :: "doctor_check list \<Rightarrow> repo_facts" where
  "facts cs = \<lparr>rf_checks = cs, rf_github = False, rf_httpsGitHub = False\<rparr>"

definition before :: "doctor_check \<Rightarrow> repo_facts \<Rightarrow> repo_facts" where
  "before c f = f\<lparr>rf_checks := c # rf_checks f\<rparr>"

definition rcheck :: "string \<Rightarrow> string \<Rightarrow> string \<Rightarrow> string \<Rightarrow> string \<Rightarrow> doctor_check" where
  "rcheck repo name status detail fix_text =
     \<lparr>dc_Section = ''repo'', dc_Repo = repo, dc_Name = name, dc_Status = status, dc_Detail = detail, dc_Fix = fix_text\<rparr>"

definition git_C :: "string \<Rightarrow> string" where
  "git_C repo = ''git -C '' @ shellQuote repo"

definition arrow :: string where "arrow = [CHR 0xE2, CHR 0x86, CHR 0x92]"

definition gh_helper :: "string list" where
  "gh_helper = [''-c'', ''credential.https://github.com.helper=!gh auth git-credential'']"

definition remote_check :: "doctor_env \<Rightarrow> string \<Rightarrow> string \<Rightarrow> string \<Rightarrow> string \<Rightarrow> bool \<Rightarrow> cmd_result \<Rightarrow> doctor_check" where
  "remote_check env repo remote merge url httpsGitHub ls =
     (let add = rcheck repo ''remote'' in
      if cm_err ls = None then add checkOK (remote @ '' ('' @ redactURL url @ '') is reachable'') []
      else if cm_timedOut ls
      then add checkWarn (remote @ '' did not answer within '' @ duration_string (dx_remoteTimeout env) @ '' (offline?)'') []
      else if cm_exitCode ls = 2
      then add checkFail (trim_prefix merge ''refs/heads/'' @ '' no longer exists on '' @ remote)
        (git_C repo @ '' branch -u '' @ remote @ ''/<branch>'')
      else
        let detail = truncate_cli (gitErrorLine (cm_stderr ls)) 140;
            code = ClassifyError (gitError [''ls-remote''] ls)
        in if code \<in> {CodeNetwork, CodeTimeout} then add checkWarn (remote @ '' is unreachable (offline?): '' @ detail) []
           else if code = CodeAuth
           then add checkFail (''authentication failed for '' @ remote @ '': '' @ detail)
             (if httpsGitHub then ''gh auth login''
              else if has_prefix url ''git@'' \<or> has_prefix url ''ssh://''
              then ''make sure your SSH key is loaded (ssh-add) and the daemon has SSH_AUTH_SOCK: git-auto-sync daemon env SSH_AUTH_SOCK=$SSH_AUTH_SOCK''
              else ''check your credentials for '' @ redactURL url)
           else add checkFail (remote @ '': '' @ detail) [])"

definition check_remote ::
  "'w doctor_io \<Rightarrow> doctor_env \<Rightarrow> string \<Rightarrow> string \<Rightarrow> string \<Rightarrow> ('w doctor_run, repo_facts) state" where
  "check_remote io env repo remote merge =
     (if remote = ''.'' then State_Monad.return (facts [rcheck repo ''remote'' checkOK ''upstream is a local branch'' []])
      else do {
        out \<leftarrow> doctor_git io (dx_cmdTimeout env) repo [''remote'', ''get-url'', remote];
        let url = trim_space (cm_stdout out);
        let github = contains url ''github.com'';
        let https = (github \<and> has_prefix url ''https://'');
        ls \<leftarrow> doctor_git io (dx_remoteTimeout env) repo
          ((if github then gh_helper else []) @ [''ls-remote'', ''--exit-code'', remote, merge]);
        State_Monad.return \<lparr>rf_checks = [remote_check env repo remote merge url https ls], rf_github = github, rf_httpsGitHub = https\<rparr>
      })"

definition check_upstream :: "'w doctor_io \<Rightarrow> doctor_env \<Rightarrow> string \<Rightarrow> string \<Rightarrow> ('w doctor_run, repo_facts) state" where
  "check_upstream io env repo branch =
     do {
       remote_out \<leftarrow> doctor_git io (dx_cmdTimeout env) repo [''config'', ''branch.'' @ branch @ ''.remote''];
       merge_out \<leftarrow> doctor_git io (dx_cmdTimeout env) repo [''config'', ''branch.'' @ branch @ ''.merge''];
       up \<leftarrow> doctor_git io (dx_cmdTimeout env) repo
         [''rev-parse'', ''--abbrev-ref'', ''--symbolic-full-name'', ''@'' @ [CHR 0x7B] @ ''u'' @ [CHR 0x7D]];
       let remote = trim_space (cm_stdout remote_out);
       let merge = trim_space (cm_stdout merge_out);
       if cm_err up \<noteq> None \<or> remote = [] \<or> merge = []
       then do {
         out \<leftarrow> doctor_git io (dx_cmdTimeout env) repo [''remote''];
         let remotes = GoStd.fields (cm_stdout out);
         let suggest = (if remotes \<noteq> [] \<and> ''origin'' \<notin> set remotes then hd remotes else ''origin'');
         State_Monad.return (facts [rcheck repo ''upstream'' checkFail
           (''branch '' @ [apostrophe] @ branch @ [apostrophe] @ '' has no upstream'')
           (git_C repo @ '' branch -u '' @ suggest @ ''/'' @ branch)])
       }
       else do {
         f \<leftarrow> check_remote io env repo remote merge;
         State_Monad.return (before (rcheck repo ''upstream'' checkOK
           (branch @ '' '' @ arrow @ '' '' @ trim_space (cm_stdout up)) []) f)
       }
     }"

definition check_branch :: "'w doctor_io \<Rightarrow> doctor_env \<Rightarrow> string \<Rightarrow> ('w doctor_run, repo_facts) state" where
  "check_branch io env repo =
     do {
       res \<leftarrow> doctor_git io (dx_cmdTimeout env) repo [''symbolic-ref'', ''--short'', ''-q'', ''HEAD''];
       let branch = trim_space (cm_stdout res);
       if cm_err res \<noteq> None \<or> branch = []
       then State_Monad.return (facts [rcheck repo ''branch'' checkFail
         ''HEAD is detached, so there is no branch to sync'' (git_C repo @ '' switch <branch>'')])
       else check_upstream io env repo branch
     }"

text \<open>What is in progress: the first of the paths printed that exists; the third one is the merge head.\<close>

fun first_busy :: "(string \<Rightarrow> bool) \<Rightarrow> nat \<Rightarrow> string list \<Rightarrow> string" where
  "first_busy ex i [] = []"
| "first_busy ex i (p # ps) = (if ex p then (if i = 2 then ''merge'' else ''rebase'') else first_busy ex (Suc i) ps)"

definition check_state :: "'w doctor_io \<Rightarrow> doctor_env \<Rightarrow> string \<Rightarrow> ('w doctor_run, repo_facts) state" where
  "check_state io env repo =
     do {
       dir \<leftarrow> doctor_git io (dx_cmdTimeout env) repo
         [''rev-parse'', ''--git-path'', ''rebase-merge'', ''--git-path'', ''rebase-apply'', ''--git-path'', ''MERGE_HEAD''];
       busy \<leftarrow> ask (\<lambda>s.
         if cm_err dir \<noteq> None then []
         else first_busy (\<lambda>p. \<not> isl (dio_stat io (ds_world s) (if is_abs p then p else Join [repo, p]))) 0
           (split_on (CHR 0x0A) (trim_space (cm_stdout dir))));
       if busy \<noteq> []
       then State_Monad.return (facts [rcheck repo ''state'' checkFail
         (''a '' @ busy @ '' is in progress, so the daemon will not sync'')
         (''finish or abort it: '' @ git_C repo @ '' '' @ busy @ '' --abort'')])
       else check_branch io env repo
     }"

definition check_author :: "'w doctor_io \<Rightarrow> doctor_env \<Rightarrow> string \<Rightarrow> ('w doctor_run, doctor_check) state" where
  "check_author io env repo =
     do {
       n \<leftarrow> doctor_git io (dx_cmdTimeout env) repo [''config'', ''user.name''];
       m \<leftarrow> doctor_git io (dx_cmdTimeout env) repo [''config'', ''user.email''];
       let name = trim_space (cm_stdout n);
       let email = trim_space (cm_stdout m);
       State_Monad.return
         (if email = [] then rcheck repo ''author'' checkFail ''user.email is not set''
            (''git config --global user.email '' @ [CHR 0x22] @ ''you@example.com'' @ [CHR 0x22])
          else if name = [] then rcheck repo ''author'' checkFail ''user.name is not set''
            (''git config --global user.name '' @ [CHR 0x22] @ ''Your Name'' @ [CHR 0x22])
          else rcheck repo ''author'' checkOK (name @ '' <'' @ email @ ''>'') [])
     }"

definition checkRepo :: "'w doctor_io \<Rightarrow> doctor_env \<Rightarrow> string \<Rightarrow> ('w doctor_run, repo_facts) state" where
  "checkRepo io env repo =
     do {
       let rm = ''git-auto-sync daemon rm '' @ shellQuote repo;
       info \<leftarrow> ask (\<lambda>s. dio_stat io (ds_world s) repo);
       case info of
         Inl _ \<Rightarrow> State_Monad.return (facts [rcheck repo ''folder'' checkFail ''the folder is missing''
           (''restore it, or stop syncing it: '' @ rm)])
       | Inr fm \<Rightarrow>
           if \<not> fm_IsDir fm then State_Monad.return (facts [rcheck repo ''folder'' checkFail ''not a folder'' rm])
           else do {
             top \<leftarrow> doctor_git io (dx_cmdTimeout env) repo [''rev-parse'', ''--show-toplevel''];
             if cm_err top \<noteq> None
             then State_Monad.return (facts
               [if ClassifyError (gitError [''rev-parse''] top) = CodeXcodeLicense
                then rcheck repo ''repository'' checkFail ''git refuses to run until the Xcode license is accepted'' xcode_fix
                else rcheck repo ''repository'' checkFail ''not a git repository'' rm])
             else do {
               let root = trim_space (cm_stdout top);
               same \<leftarrow> ask (\<lambda>s. ResolvePath (dio_paths io) (ds_world s) root = ResolvePath (dio_paths io) (ds_world s) repo);
               author \<leftarrow> check_author io env repo;
               f \<leftarrow> check_state io env repo;
               State_Monad.return (before
                 (if same then rcheck repo ''repository'' checkOK [] []
                  else rcheck repo ''repository'' checkWarn (''this folder is inside the repo at '' @ root)
                    (rm @ '' && git-auto-sync daemon add '' @ shellQuote root))
                 (before author f))
             }
           }
     }"

primrec checkRepos :: "'w doctor_io \<Rightarrow> doctor_env \<Rightarrow> string list \<Rightarrow> ('w doctor_run, bool \<times> bool) state" where
  "checkRepos io env [] = State_Monad.return (False, False)"
| "checkRepos io env (repo # repos) =
     do {
       f \<leftarrow> checkRepo io env repo;
       upd (\<lambda>r. r\<lparr>ds_checks := ds_checks r @ rf_checks f\<rparr>);
       (github, https) \<leftarrow> checkRepos io env repos;
       State_Monad.return (rf_github f \<or> github, rf_httpsGitHub f \<or> https)
     }"

section \<open>The GitHub client\<close>

definition checkGH :: "'w doctor_io \<Rightarrow> doctor_env \<Rightarrow> bool \<Rightarrow> ('w doctor_run, unit) state" where
  "checkGH io env httpsGitHub =
     do {
       let missing = (if httpsGitHub then checkFail else checkWarn);
       found \<leftarrow> ask (\<lambda>s. lookPathIn (dio_stat io (ds_world s)) ''gh'' (doctorPath (dio_environ io)));
       case found of
         None \<Rightarrow>
           add_check (dcheck ''system'' ''gh'' missing
             ''a repo uses GitHub but the gh CLI was not found (the daemon uses it for HTTPS credentials)''
             ''brew install gh && gh auth login'')
       | Some ghPath \<Rightarrow>
           do {
             res \<leftarrow> run_in io (dx_remoteTimeout env) [] ghPath [''auth'', ''status'', ''--hostname'', ''github.com''];
             if cm_err res \<noteq> None
             then
               let line = firstMeaningfulLine (cmd_output res);
                   detail = (if cm_timedOut res then ''gh auth status did not answer''
                     else if line \<noteq> [] then ''not logged in to github.com: '' @ truncate_cli line 120
                     else ''not logged in to github.com'')
               in add_check (dcheck ''system'' ''gh'' missing detail ''gh auth login'')
             else add_check (dcheck ''system'' ''gh'' checkOK (''logged in to github.com ('' @ ghPath @ '')'') [])
           }
     }"

section \<open>The daemon\<close>

definition launchAgentPath :: "doctor_env \<Rightarrow> string" where
  "launchAgentPath env = Join [dx_home env, ''Library'', ''LaunchAgents'', ''git-auto-sync-daemon.plist'']"

definition daemonFix :: "'w doctor_io \<Rightarrow> doctor_env \<Rightarrow> 'w \<Rightarrow> string" where
  "daemonFix io env w =
     (if dx_goos env = ''darwin'' \<and> isl (dio_stat io w (launchAgentPath env)) then ''git-auto-sync daemon enable''
      else ''git-auto-sync daemon start'')"

fun octal_digits :: "nat \<Rightarrow> string" where
  "octal_digits n = (if n < 8 then [char_of (48 + n)] else octal_digits (n div 8) @ [char_of (48 + n mod 8)])"

declare octal_digits.simps [simp del]

text \<open>The verb \<open>%#o\<close>.\<close>

definition octal :: "nat \<Rightarrow> string" where
  "octal n = (if n = 0 then ''0'' else CHR ''0'' # octal_digits n)"

definition others_may :: "nat \<Rightarrow> bool" where
  "others_may perm \<longleftrightarrow> perm mod 64 \<noteq> 0"

definition reinstall_fix :: string where
  "reinstall_fix = ''install the daemon that matches this CLI (just install), then git-auto-sync daemon restart''"

definition restart_fix :: string where "restart_fix = ''git-auto-sync daemon restart''"

definition version_check :: "'w doctor_io \<Rightarrow> doctor_env \<Rightarrow> client_error + client_response \<Rightarrow> doctor_check" where
  "version_check io env answer =
     (let add = dcheck ''daemon'' ''daemon'' in
      case answer of
        Inl ErrIncompatibleDaemon \<Rightarrow>
          add checkFail (''running, but it is an older version that does not speak protocol '' @ itoa ProtocolVersion) reinstall_fix
      | Inl e \<Rightarrow>
          add checkFail (''the socket accepted a connection but did not answer: '' @ client_error_text (dio_quote io) e) restart_fix
      | Inr resp \<Rightarrow>
          (case Err_response resp of
             Some e \<Rightarrow> add checkFail (''version request failed: '' @ client_error_text (dio_quote io) e) restart_fix
           | None \<Rightarrow>
               (case (if cr_Result resp = [] then (Some EmptyResult, 0, []) else dio_version io (cr_Result resp)) of
                  (err, protocol, version) \<Rightarrow>
                    if err \<noteq> None \<or> protocol \<noteq> ProtocolVersion
                    then add checkFail (''running with protocol '' @ itoa protocol @ '', this CLI speaks '' @ itoa ProtocolVersion) reinstall_fix
                    else if version \<noteq> dx_cliVersion env \<and> version \<noteq> ''dev'' \<and> dx_cliVersion env \<noteq> ''dev''
                    then add checkWarn (''running '' @ version @ '' (protocol '' @ itoa protocol @ ''), but this CLI is '' @ dx_cliVersion env) restart_fix
                    else add checkOK (''running '' @ version @ '', protocol '' @ itoa protocol) [])))"

definition socket_check :: "'w doctor_io \<Rightarrow> doctor_env \<Rightarrow> 'w \<Rightarrow> file_mode \<Rightarrow> doctor_check" where
  "socket_check io env w info =
     (let add = dcheck ''daemon'' ''socket permissions''; path = dx_socketPath env; dir = Dir path in
      if \<not> fm_Socket info then add checkFail (path @ '' is not a socket'') ''move the file away and restart the daemon''
      else if others_may (fm_Perm info)
      then add checkWarn (path @ '' is '' @ octal (fm_Perm info) @ ''; other users can talk to your daemon'') restart_fix
      else
        (case (if Clean dir = Clean (dx_stateDir env) then dio_stat io w dir else Inl (Plain [])) of
           Inr dinfo \<Rightarrow>
             if others_may (fm_Perm dinfo)
             then add checkWarn (dir @ '' is '' @ octal (fm_Perm dinfo)) (''chmod 700 '' @ shellQuote dir)
             else add checkOK (octal (fm_Perm info)) []
         | Inl _ \<Rightarrow> add checkOK (octal (fm_Perm info)) []))"

definition ask_version :: "'w doctor_io \<Rightarrow> doctor_env \<Rightarrow> bool \<Rightarrow> 'w \<Rightarrow> doctor_check" where
  "ask_version io env haveRepos w =
     (let path = dx_socketPath env in
      case dio_connect io w of
        (ce, input, ends) \<Rightarrow>
          (case NewSocketClient ce input ends of
             Inl _ \<Rightarrow>
               dcheck ''daemon'' ''daemon'' (if haveRepos then checkFail else checkWarn)
                 (case dio_lstat io w path of
                    Inr info \<Rightarrow>
                      if fm_Socket info then ''not running (stale socket at '' @ path @ '')''
                      else ''not running (nothing is listening on '' @ path @ '')''
                  | Inl _ \<Rightarrow> ''not running (nothing is listening on '' @ path @ '')'')
                 (daemonFix io env w)
           | Inr c \<Rightarrow> version_check io env (fst (SendCommand ce (request CmdVersion) c))))"

definition checkDaemon :: "'w doctor_io \<Rightarrow> doctor_env \<Rightarrow> bool \<Rightarrow> ('w doctor_run, unit) state" where
  "checkDaemon io env haveRepos =
     (case CheckSocketPath (dx_socketPath env) of
        Some msg \<Rightarrow>
          add_check (dcheck ''daemon'' ''socket path'' checkFail msg ''use a shorter GIT_AUTO_SYNC_SOCKET or HOME'')
      | None \<Rightarrow>
          do {
            c \<leftarrow> ask (\<lambda>s. ask_version io env haveRepos (ds_world s));
            add_check c;
            info \<leftarrow> ask (\<lambda>s. dio_lstat io (ds_world s) (dx_socketPath env));
            case info of
              Inr fm \<Rightarrow>
                if dx_goos env = ''windows'' then State_Monad.return ()
                else do { c \<leftarrow> ask (\<lambda>s. socket_check io env (ds_world s) fm); add_check c }
            | Inl _ \<Rightarrow> State_Monad.return ()
          })"

section \<open>The LaunchAgent\<close>

text \<open>
  \<open>DecodeElement\<close> into a string: the character data directly in the element, whose end it consumes; elements inside are
  skipped. \<open>None\<close>: the tokens end before.
\<close>

fun decode_element :: "nat \<Rightarrow> string \<Rightarrow> xml_token list \<Rightarrow> (string \<times> xml_token list) option" where
  "decode_element d acc [] = None"
| "decode_element d acc (StartElement n # ts) = decode_element (Suc d) acc ts"
| "decode_element 0 acc (EndElement # ts) = Some (acc, ts)"
| "decode_element (Suc d) acc (EndElement # ts) = decode_element d acc ts"
| "decode_element d acc (CharData c # ts) = decode_element d (if d = 0 then acc @ c else acc) ts"
| "decode_element d acc (OtherToken # ts) = decode_element d acc ts"

lemma decode_element_shorter: "decode_element d acc ts = Some (v, rest) \<Longrightarrow> length rest < length ts"
  by (induction d acc ts rule: decode_element.induct) fastforce+

definition token_error :: "string option \<Rightarrow> string" where
  "token_error err = (case err of Some e \<Rightarrow> e | None \<Rightarrow> ''unexpected EOF'')"

function plist_loop ::
  "string option \<Rightarrow> xml_token list \<Rightarrow> int \<Rightarrow> string \<Rightarrow> (string \<times> string) list \<Rightarrow> string + (string \<times> string) list" where
  "plist_loop err ts0 lvl key values =
     (case ts0 of
        [] \<Rightarrow> (case err of None \<Rightarrow> Inr values | Some e \<Rightarrow> Inl e)
      | StartElement n # ts \<Rightarrow>
          if n = ''key'' then
            (case decode_element 0 [] ts of
               None \<Rightarrow> Inl (token_error err)
             | Some (k, rest) \<Rightarrow> plist_loop err rest lvl (if lvl = 2 then k else key) values)
          else if n = ''string'' then
            (case decode_element 0 [] ts of
               None \<Rightarrow> Inl (token_error err)
             | Some (v, rest) \<Rightarrow>
                 plist_loop err rest lvl key
                   (if key \<noteq> [] \<and> (lvl = 2 \<or> (lvl = 3 \<and> key = ''ProgramArguments'')) \<and> map_of values key = None
                    then AList.update key (trim_space v) values else values))
          else plist_loop err ts (lvl + 1) key values
      | EndElement # ts \<Rightarrow> plist_loop err ts (lvl - 1) key values
      | _ # ts \<Rightarrow> plist_loop err ts lvl key values)"
  by pat_completeness auto
termination
  by (relation "measure (\<lambda>(_, ts, _). length ts)") (auto dest: decode_element_shorter)

declare plist_loop.simps [simp del]

definition plistStrings :: "'w doctor_io \<Rightarrow> string \<Rightarrow> string + (string \<times> string) list" where
  "plistStrings io content = (case dio_tokens io content of (ts, err) \<Rightarrow> plist_loop err ts 0 [] [])"

definition plist_value :: "(string \<times> string) list \<Rightarrow> string \<Rightarrow> string" where
  "plist_value values k = (case map_of values k of Some v \<Rightarrow> v | None \<Rightarrow> [])"

definition enable_fix :: string where "enable_fix = ''git-auto-sync daemon enable''"

definition agent_notes :: "'w doctor_io \<Rightarrow> doctor_env \<Rightarrow> 'w \<Rightarrow> string \<Rightarrow> (string \<times> string) list \<Rightarrow> string list" where
  "agent_notes io env w program values =
     (let sibling = Join [Dir (dx_executable env), ''git-auto-sync-daemon''];
          errPath = plist_value values ''StandardErrorPath''
      in (if dx_executable env \<noteq> [] \<and> \<not> isl (dio_stat io w sibling) \<and>
            ResolvePath (dio_paths io) w sibling \<noteq> ResolvePath (dio_paths io) w program
          then [''this CLI'' @ [apostrophe] @ ''s daemon is '' @ sibling] else []) @
         (if errPath \<noteq> [] \<and> Dir errPath = Clean (dx_home env)
          then [''it still logs to '' @ errPath @ '' (installed by an older version)''] else []))"

definition agent_check :: "'w doctor_io \<Rightarrow> doctor_env \<Rightarrow> 'w \<Rightarrow> doctor_check" where
  "agent_check io env w =
     (let add = dcheck ''daemon'' ''LaunchAgent''; path = launchAgentPath env in
      case dio_read io w path of
        Inl e \<Rightarrow>
          if is_error ErrNotExist e then add checkWarn ''not installed, so the daemon does not start at login'' enable_fix
          else add checkFail (error_text e) []
      | Inr content \<Rightarrow>
          (case plistStrings io content of
             Inl msg \<Rightarrow> add checkFail (''cannot parse '' @ path @ '': '' @ msg) enable_fix
           | Inr values \<Rightarrow>
               let program = (if plist_value values ''Program'' = [] then plist_value values ''ProgramArguments''
                     else plist_value values ''Program'')
               in if program = [] then add checkFail (path @ '' names no program'') enable_fix
                  else if (case dio_stat io w program of Inl _ \<Rightarrow> True | Inr fm \<Rightarrow> fm_IsDir fm \<or> \<not> fm_Exec fm)
                  then add checkFail (''points at '' @ program @ '', which does not exist or is not executable'')
                    ''just install, then git-auto-sync daemon enable''
                  else
                    let notes = agent_notes io env w program values
                    in if notes \<noteq> [] then add checkWarn (''runs '' @ program @ '', but '' @ join ''; '' notes) enable_fix
                       else add checkOK (''runs '' @ program) []))"

definition checkLaunchAgent :: "'w doctor_io \<Rightarrow> doctor_env \<Rightarrow> ('w doctor_run, unit) state" where
  "checkLaunchAgent io env =
     (if dx_goos env \<noteq> ''darwin'' then State_Monad.return ()
      else do { c \<leftarrow> ask (\<lambda>s. agent_check io env (ds_world s)); add_check c })"

section \<open>The logs\<close>

text \<open>The nearest folder above that exists, or the root; every round goes up.\<close>

function existing_parent :: "(string \<Rightarrow> bool) \<Rightarrow> string \<Rightarrow> string" where
  "existing_parent ex parent =
     (let next = Dir parent
      in if next = parent then parent else if ex next then next else existing_parent ex next)"
  by pat_completeness auto
termination by (relation "measure (\<lambda>(_, parent). depth parent)") (auto intro: depth_Dir)

declare existing_parent.simps [simp del]

definition dirWritable :: "'w doctor_io \<Rightarrow> doctor_env \<Rightarrow> 'w \<Rightarrow> string \<Rightarrow> bool" where
  "dirWritable io env w dir \<longleftrightarrow> dx_goos env = ''windows'' \<or> dio_access io w dir"

definition folder_check :: "'w doctor_io \<Rightarrow> doctor_env \<Rightarrow> 'w \<Rightarrow> doctor_check" where
  "folder_check io env w =
     (let add = dcheck ''logs'' ''log folder''; dir = Dir (dx_logPath env) in
      case dio_stat io w dir of
        Inr info \<Rightarrow>
          if \<not> fm_IsDir info then add checkFail (dir @ '' is not a folder'') []
          else if \<not> dirWritable io env w dir then add checkFail (dir @ '' is not writable'') (''chmod u+w '' @ shellQuote dir)
          else add checkOK dir []
      | Inl _ \<Rightarrow>
          let parent = existing_parent (\<lambda>p. \<not> isl (dio_stat io w p)) dir
          in if \<not> dirWritable io env w parent
             then add checkFail (dir @ '' does not exist and '' @ parent @ '' is not writable'') []
             else add checkOK (dir @ '' (created when the daemon starts)'') [])"

definition old_log_paths :: "doctor_env \<Rightarrow> string list" where
  "old_log_paths env = map (\<lambda>name. Join [dx_home env, name]) [''git-auto-sync-daemon.err.log'', ''git-auto-sync-daemon.out.log'']"

definition old_logs :: "'w doctor_io \<Rightarrow> doctor_env \<Rightarrow> 'w \<Rightarrow> doctor_check list" where
  "old_logs io env w =
     (let infos = concat (map (\<lambda>p. case dio_stat io w p of
            Inr info \<Rightarrow> if fm_IsDir info then [] else [(p, fm_Size info)] | Inl _ \<Rightarrow> []) (old_log_paths env));
          total = foldl (\<lambda>t (_, n). wrap64 (t + n)) 0 infos;
          paths = map shellQuote (filter (\<lambda>p. \<not> isl (dio_stat io w p)) (old_log_paths env))
      in if infos = [] then []
         else [dcheck ''logs'' ''old logs'' checkWarn
           (''logs from an older version, '' @ humanSize total @ '' in total: '' @
              join '', '' (map (\<lambda>(p, n). p @ '' ('' @ humanSize n @ '')'') infos))
           (''once `git-auto-sync daemon logs` shows the new log, delete them: rm '' @ join '' '' paths)])"

definition checkLogs :: "'w doctor_io \<Rightarrow> doctor_env \<Rightarrow> ('w doctor_run, unit) state" where
  "checkLogs io env =
     do {
       c \<leftarrow> ask (\<lambda>s. folder_check io env (ds_world s));
       add_check c;
       cs \<leftarrow> ask (\<lambda>s. old_logs io env (ds_world s));
       upd (\<lambda>r. r\<lparr>ds_checks := ds_checks r @ cs\<rparr>)
     }"

section \<open>The report\<close>

definition rank :: "string \<Rightarrow> nat" where
  "rank sec =
     (case map_of [(''system'', 0), (''config'', 1), (''repo'', 2), (''daemon'', 3), (''logs'', 4)] sec of
        Some n \<Rightarrow> n | None \<Rightarrow> 0)"

definition count_check :: "doctor_report \<Rightarrow> doctor_check \<Rightarrow> doctor_report" where
  "count_check rep c =
     (let u = dr_Summary rep in
      if dc_Status c = checkOK then rep\<lparr>dr_Summary := u\<lparr>du_OK := du_OK u + 1\<rparr>\<rparr>
      else if dc_Status c = checkWarn then rep\<lparr>dr_Summary := u\<lparr>du_Warn := du_Warn u + 1\<rparr>\<rparr>
      else if dc_Status c = checkFail then rep\<lparr>dr_Summary := u\<lparr>du_Fail := du_Fail u + 1\<rparr>, dr_OK := False\<rparr>
      else rep)"

definition make_report :: "doctor_check list \<Rightarrow> doctor_report" where
  "make_report checks =
     (let cs = sort_key (\<lambda>c. rank (dc_Section c)) checks
      in foldl count_check
           \<lparr>dr_OK = True, dr_Summary = \<lparr>du_OK = 0, du_Warn = 0, du_Fail = 0\<rparr>, dr_Checks = cs\<rparr> cs)"

definition doctor_checks :: "'w doctor_io \<Rightarrow> doctor_env \<Rightarrow> ('w doctor_run, unit) state" where
  "doctor_checks io env =
     do {
       checkGit io env;
       repos \<leftarrow> checkConfig io env;
       (usesGitHub, httpsGitHub) \<leftarrow> checkRepos io env repos;
       (if usesGitHub then checkGH io env httpsGitHub else State_Monad.return ());
       checkDaemon io env (repos \<noteq> []);
       checkLaunchAgent io env;
       checkLogs io env
     }"

definition runDoctor :: "'w doctor_io \<Rightarrow> doctor_env \<Rightarrow> ('w doctor_run, doctor_report) state" where
  "runDoctor io env = do { doctor_checks io env; ask (\<lambda>s. make_report (ds_checks s)) }"

definition status_symbol :: "string \<Rightarrow> string" where
  "status_symbol st =
     (if st = checkOK then [CHR 0xE2, CHR 0x9C, CHR 0x93]
      else if st = checkWarn then [CHR 0xE2, CHR 0x9A, CHR 0xA0]
      else if st = checkFail then [CHR 0xE2, CHR 0x9C, CHR 0x97]
      else [])"

definition check_lines :: "doctor_check \<Rightarrow> string list" where
  "check_lines c =
     [''  '' @ status_symbol (dc_Status c) @ '' '' @ dc_Name c @ (if dc_Detail c \<noteq> [] then '': '' @ dc_Detail c else [])] @
     (if dc_Fix c \<noteq> [] \<and> dc_Status c \<noteq> checkOK then [''      fix: '' @ dc_Fix c] else [])"

fun report_lines :: "string \<Rightarrow> string \<Rightarrow> doctor_check list \<Rightarrow> string list" where
  "report_lines sec repo [] = []"
| "report_lines sec repo (c # cs) =
     (if dc_Section c \<noteq> sec \<or> dc_Repo c \<noteq> repo
      then (if sec \<noteq> [] then [[]] else []) @
        [if dc_Repo c \<noteq> [] then dc_Repo c else map upper_byte (take 1 (dc_Section c)) @ drop 1 (dc_Section c)]
      else []) @
     check_lines c @ report_lines (dc_Section c) (dc_Repo c) cs"

definition printDoctorReport :: "doctor_report \<Rightarrow> string list" where
  "printDoctorReport rep =
     report_lines [] [] (dr_Checks rep) @
     [[], itoa (int (du_OK (dr_Summary rep))) @ '' ok, '' @ itoa (int (du_Warn (dr_Summary rep))) @ '' warning(s), '' @
        itoa (int (du_Fail (dr_Summary rep))) @ '' problem(s)'']"

definition doctor_start :: "'w \<Rightarrow> 'w doctor_run" where
  "doctor_start w = \<lparr>ds_world = w, ds_trace = [], ds_checks = [], ds_envs = []\<rparr>"

text \<open>
  The action: the exit status, and the lines printed without \<open>--json\<close>; with it, the report itself is
  printed, \<open>perr\<close> being the error of that.
\<close>

definition doctor ::
  "'w doctor_io \<Rightarrow> doctor_env \<Rightarrow> bool \<Rightarrow> cli_error option \<Rightarrow> 'w \<Rightarrow> cli_error option \<times> string list \<times> doctor_report" where
  "doctor io env json perr w =
     (let rep = fst (run_state (runDoctor io env) (doctor_start w))
      in if json \<and> perr \<noteq> None then (perr, [], rep)
         else (if dr_OK rep then None else Some (ExitStatus 1), if json then [] else printDoctorReport rep, rep))"

section \<open>What a run does\<close>

named_theorems good_rules "what a part of the doctor runs and reports"

text \<open>The commands that only ask.\<close>

definition git_query :: "string list \<Rightarrow> bool" where
  "git_query args \<longleftrightarrow>
     take 1 args = [''rev-parse''] \<or> (\<exists>k. args = [''config'', k]) \<or> args = [''symbolic-ref'', ''--short'', ''-q'', ''HEAD''] \<or>
     args = [''remote''] \<or> (\<exists>r. args = [''remote'', ''get-url'', r]) \<or>
     (\<exists>pre r m. pre \<in> {[], gh_helper} \<and> args = pre @ [''ls-remote'', ''--exit-code'', r, m])"

definition harmless :: "string \<times> string list \<Rightarrow> bool" where
  "harmless cmd \<longleftrightarrow>
     snd cmd = [''--version''] \<or> cmd = (''/usr/bin/xcode-select'', [''-p'']) \<or>
     snd cmd = [''auth'', ''status'', ''--hostname'', ''github.com''] \<or> (fst cmd = ''git'' \<and> git_query (snd cmd))"

definition wf_check :: "doctor_check \<Rightarrow> bool" where
  "wf_check c \<longleftrightarrow>
     dc_Status c \<in> {checkOK, checkWarn, checkFail} \<and> dc_Section c \<in> {''system'', ''config'', ''repo'', ''daemon'', ''logs''} \<and>
     dc_Name c \<noteq> [] \<and> (dc_Repo c \<noteq> []) = (dc_Section c = ''repo'')"

definition good :: "('a \<Rightarrow> bool) \<Rightarrow> ('w doctor_run, 'a) state \<Rightarrow> bool" where
  "good Q m \<longleftrightarrow> (\<forall>s. Q (fst (run_state m s)) \<and>
     (\<exists>ts. ds_trace (snd (run_state m s)) = ds_trace s @ ts \<and> list_all harmless ts) \<and>
     (\<exists>cs. ds_checks (snd (run_state m s)) = ds_checks s @ cs \<and> list_all wf_check cs))"

lemma good_bind:
  assumes "good Q m" and "\<And>x. Q x \<Longrightarrow> good R (k x)"
  shows "good R (State_Monad.bind m k)"
  unfolding good_def run_bind
proof (intro allI)
  fix s
  let ?m = "run_state m s"
  let ?k = "run_state (k (fst ?m)) (snd ?m)"
  have "R (fst ?k)" using assms unfolding good_def by blast
  moreover obtain ts cs where "ds_trace (snd ?m) = ds_trace s @ ts" "list_all harmless ts"
    "ds_checks (snd ?m) = ds_checks s @ cs" "list_all wf_check cs" using assms(1) unfolding good_def by blast
  moreover obtain ts' cs' where "ds_trace (snd ?k) = ds_trace (snd ?m) @ ts'" "list_all harmless ts'"
    "ds_checks (snd ?k) = ds_checks (snd ?m) @ cs'" "list_all wf_check cs'"
    using assms unfolding good_def by blast
  ultimately show "R (fst ?k) \<and> (\<exists>ts. ds_trace (snd ?k) = ds_trace s @ ts \<and> list_all harmless ts) \<and>
      (\<exists>cs. ds_checks (snd ?k) = ds_checks s @ cs \<and> list_all wf_check cs)"
    by (metis append.assoc list_all_append)
qed

lemma good_then [good_rules]:
  "good (\<lambda>_. True) m \<Longrightarrow> (\<And>x. good R (k x)) \<Longrightarrow> good R (State_Monad.bind m k)"
  by (rule good_bind)

lemma good_ask: "(\<And>s. Q (f s)) \<Longrightarrow> good Q (ask f)"
  by (simp add: good_def)

lemma good_asks [good_rules]: "good (\<lambda>_. True) (ask f)"
  by (simp add: good_ask)

lemma good_return [good_rules]: "Q x \<Longrightarrow> good Q (State_Monad.return x)"
  by (simp add: good_def)

lemma good_if [good_rules]: "(b \<Longrightarrow> good Q m) \<Longrightarrow> (\<not> b \<Longrightarrow> good Q n) \<Longrightarrow> good Q (if b then m else n)"
  by simp

lemma good_option [good_rules]:
  "(\<And>y. x = Some y \<Longrightarrow> good Q (k y)) \<Longrightarrow> (x = None \<Longrightarrow> good Q n) \<Longrightarrow> good Q (case x of None \<Rightarrow> n | Some y \<Rightarrow> k y)"
  by (cases x) auto

lemma good_sum [good_rules]:
  "(\<And>y. good Q (k y)) \<Longrightarrow> (\<And>y. good Q (n y)) \<Longrightarrow> good Q (case x of Inl y \<Rightarrow> n y | Inr y \<Rightarrow> k y)"
  by (cases x) auto

lemma good_let [good_rules]: "good Q (k v) \<Longrightarrow> good Q (let x = v in k x)"
  by simp

lemma good_add [good_rules]: "wf_check c \<Longrightarrow> good (\<lambda>_. True) (add_check c)"
  by (simp add: good_def add_check_def)

lemma good_adds: "list_all wf_check cs \<Longrightarrow> good (\<lambda>_. True) (upd (\<lambda>r. r\<lparr>ds_checks := ds_checks r @ cs\<rparr>))"
  by (simp add: good_def)

lemma good_envs [good_rules]: "good (\<lambda>_. True) (upd (\<lambda>r. r\<lparr>ds_envs := es\<rparr>))"
  by (simp add: good_def)

lemma good_run_in [good_rules]: "harmless (name, args) \<Longrightarrow> good (\<lambda>_. True) (run_in io timeout dir name args)"
  by (simp add: good_def run_in_def runCommand_def split_beta)

lemma good_git [good_rules]: "git_query args \<Longrightarrow> good (\<lambda>_. True) (doctor_git io timeout dir args)"
  unfolding doctor_git_def by (rule good_run_in) (simp add: harmless_def)

lemmas check_simps = wf_check_def dcheck_def rcheck_def facts_def before_def

lemma wf_dcheck:
  "sec \<in> {''system'', ''config'', ''daemon'', ''logs''} \<Longrightarrow> name \<noteq> [] \<Longrightarrow> st \<in> {checkOK, checkWarn, checkFail} \<Longrightarrow>
   wf_check (dcheck sec name st detail fx)"
  by (auto simp: check_simps)

lemma wf_rcheck:
  "repo \<noteq> [] \<Longrightarrow> name \<noteq> [] \<Longrightarrow> st \<in> {checkOK, checkWarn, checkFail} \<Longrightarrow> wf_check (rcheck repo name st detail fx)"
  by (simp add: check_simps)

section \<open>The parts\<close>

lemma good_checkGit: "good (\<lambda>_. True) (checkGit io env)"
  unfolding checkGit_def check_xcode_def
  by (intro good_rules wf_dcheck TrueI) (simp_all add: harmless_def)

lemma good_checkConfig: "good (\<lambda>repos. \<forall>r \<in> set repos. r \<noteq> []) (checkConfig io env)"
  unfolding checkConfig_def Let_def
  by (intro good_rules wf_dcheck) (auto simp: NormalizeRepos_eq)

lemma good_checkGH: "good (\<lambda>_. True) (checkGH io env h)"
  unfolding checkGH_def Let_def
  by (intro good_rules wf_dcheck TrueI) (simp_all add: harmless_def)

abbreviation wf_facts :: "repo_facts \<Rightarrow> bool" where
  "wf_facts f \<equiv> list_all wf_check (rf_checks f)"

lemma wf_facts_before: "wf_check c \<Longrightarrow> wf_facts f \<Longrightarrow> wf_facts (before c f)"
  by (simp add: before_def)

lemma wf_facts_one: "wf_check c \<Longrightarrow> wf_facts (facts [c])"
  by (simp add: facts_def)

lemma wf_remote_check: "repo \<noteq> [] \<Longrightarrow> wf_check (remote_check env repo remote merge url https ls)"
  unfolding remote_check_def Let_def by (simp add: check_simps)

lemma good_check_remote: "repo \<noteq> [] \<Longrightarrow> good wf_facts (check_remote io env repo remote merge)"
  unfolding check_remote_def Let_def
  by (intro good_rules wf_facts_one wf_rcheck) (auto simp: git_query_def wf_remote_check)

lemma good_check_upstream: "repo \<noteq> [] \<Longrightarrow> good wf_facts (check_upstream io env repo branch)"
  unfolding check_upstream_def Let_def
  by (intro good_rules wf_facts_one wf_rcheck good_bind [OF good_check_remote] wf_facts_before) (auto simp: git_query_def)

lemma good_check_branch: "repo \<noteq> [] \<Longrightarrow> good wf_facts (check_branch io env repo)"
  unfolding check_branch_def Let_def
  by (intro good_rules wf_facts_one wf_rcheck good_check_upstream) (auto simp: git_query_def)

lemma good_check_state: "repo \<noteq> [] \<Longrightarrow> good wf_facts (check_state io env repo)"
  unfolding check_state_def
  by (intro good_rules wf_facts_one wf_rcheck good_check_branch) (auto simp: git_query_def)

lemma good_check_author: "repo \<noteq> [] \<Longrightarrow> good wf_check (check_author io env repo)"
  unfolding check_author_def Let_def
  by (intro good_rules) (auto simp: git_query_def intro!: wf_rcheck)

lemma good_checkRepo: "repo \<noteq> [] \<Longrightarrow> good wf_facts (checkRepo io env repo)"
  unfolding checkRepo_def Let_def
  by (intro good_sum good_if good_then [OF good_asks] good_then [OF good_git] good_bind [OF good_check_author]
      good_bind [OF good_check_state] good_return wf_facts_one wf_facts_before)
    (auto simp: git_query_def intro!: wf_rcheck)

lemma good_checkRepos: "(\<And>r. r \<in> set repos \<Longrightarrow> r \<noteq> []) \<Longrightarrow> good (\<lambda>_. True) (checkRepos io env repos)"
proof (induction repos)
  case (Cons r rs)
  have tl: "good (\<lambda>_. True) (checkRepos io env rs)" using Cons by simp
  show ?case
    unfolding checkRepos.simps split_beta
  proof (rule good_bind [OF good_checkRepo])
    show "r \<noteq> []" using Cons.prems by simp
    fix f assume "wf_facts f"
    then show "good (\<lambda>_. True) (do {
        upd (\<lambda>s. s\<lparr>ds_checks := ds_checks s @ rf_checks f\<rparr>);
        p \<leftarrow> checkRepos io env rs;
        State_Monad.return (rf_github f \<or> fst p, rf_httpsGitHub f \<or> snd p)
      })"
      by (intro good_then [OF good_adds] good_then [OF tl] good_return TrueI)
  qed
qed (simp add: good_return)

lemma wf_cases:
  "wf_check x \<Longrightarrow> wf_check y \<Longrightarrow> wf_check (if b then x else y)"
  "(\<And>e. wf_check (f e)) \<Longrightarrow> (\<And>v. wf_check (g v)) \<Longrightarrow> wf_check (case r of Inl e \<Rightarrow> f e | Inr v \<Rightarrow> g v)"
  "wf_check x \<Longrightarrow> (\<And>v. wf_check (h v)) \<Longrightarrow> wf_check (case z of None \<Rightarrow> x | Some v \<Rightarrow> h v)"
  "(\<And>a b. wf_check (k a b)) \<Longrightarrow> wf_check (case p of (a, b) \<Rightarrow> k a b)"
  by (simp_all split: sum.split option.split prod.split)

lemma wf_version_check: "wf_check (version_check io env answer)"
proof (cases answer)
  case (Inl e)
  then show ?thesis by (cases e) (auto simp: version_check_def intro!: wf_dcheck)
qed (auto simp: version_check_def Let_def intro!: wf_cases wf_dcheck)

lemma wf_daemon_checks:
  "wf_check (ask_version io env haveRepos w)" "wf_check (socket_check io env w info)" "wf_check (agent_check io env w)"
  "wf_check (folder_check io env w)" "list_all wf_check (old_logs io env w)"
  unfolding ask_version_def socket_check_def agent_check_def folder_check_def old_logs_def Let_def
  by (intro wf_cases wf_version_check wf_dcheck; simp)+ (simp add: wf_dcheck)

lemma good_checkDaemon: "good (\<lambda>_. True) (checkDaemon io env haveRepos)"
  unfolding checkDaemon_def
  by (intro good_option good_sum good_if good_return TrueI good_add wf_dcheck
      good_bind [OF good_ask [where Q = wf_check]] good_then [OF good_add] good_then [OF good_asks]) (auto simp: wf_daemon_checks)

lemma good_checkLaunchAgent: "good (\<lambda>_. True) (checkLaunchAgent io env)"
  unfolding checkLaunchAgent_def
  by (intro good_if good_return TrueI good_bind [OF good_ask [where Q = wf_check]] good_add) (auto simp: wf_daemon_checks)

lemma good_checkLogs: "good (\<lambda>_. True) (checkLogs io env)"
  unfolding checkLogs_def
  by (rule good_bind [OF good_ask [where Q = wf_check]], rule wf_daemon_checks, rule good_then [OF good_add], assumption,
      rule good_bind [OF good_ask [where Q = "list_all wf_check"]], rule wf_daemon_checks, rule good_adds)

lemma good_doctor_checks: "good (\<lambda>_. True) (doctor_checks io env)"
  unfolding doctor_checks_def split_beta
  by (rule good_then [OF good_checkGit], rule good_bind [OF good_checkConfig], rule good_then [OF good_checkRepos], blast,
      intro good_then [OF good_if] good_checkGH good_return TrueI good_then [OF good_checkDaemon]
        good_then [OF good_checkLaunchAgent] good_checkLogs)

lemma good_start:
  assumes "good Q m"
  shows "list_all harmless (ds_trace (snd (run_state m (doctor_start w))))"
    and "list_all wf_check (ds_checks (snd (run_state m (doctor_start w))))"
  using assms unfolding good_def by (metis append_Nil doctor_run.select_convs(2,3) doctor_start_def)+

section \<open>What the report counts\<close>

abbreviation with_status :: "string \<Rightarrow> doctor_check list \<Rightarrow> nat" where
  "with_status st cs \<equiv> length (filter (\<lambda>c. dc_Status c = st) cs)"

lemma count_checks:
  "foldl count_check rep cs =
     rep\<lparr>dr_OK := dr_OK rep \<and> with_status checkFail cs = 0,
         dr_Summary := \<lparr>du_OK = du_OK (dr_Summary rep) + with_status checkOK cs,
           du_Warn = du_Warn (dr_Summary rep) + with_status checkWarn cs,
           du_Fail = du_Fail (dr_Summary rep) + with_status checkFail cs\<rparr>\<rparr>"
  by (induction cs arbitrary: rep) (auto simp: count_check_def Let_def)

lemma report_of:
  "make_report cs = (let sorted_cs = sort_key (\<lambda>c. rank (dc_Section c)) cs in
     \<lparr>dr_OK = (with_status checkFail sorted_cs = 0),
      dr_Summary = \<lparr>du_OK = with_status checkOK sorted_cs, du_Warn = with_status checkWarn sorted_cs,
        du_Fail = with_status checkFail sorted_cs\<rparr>, dr_Checks = sorted_cs\<rparr>)"
  by (simp add: make_report_def Let_def count_checks)

lemma statuses_partition:
  "list_all wf_check cs \<Longrightarrow> with_status checkOK cs + with_status checkWarn cs + with_status checkFail cs = length cs"
  by (induction cs) (auto simp: wf_check_def)


section \<open>Property lists\<close>

text \<open>
  The top level of a property list as the package writes it: strings, arrays of strings, flags, and
  dictionaries of strings, each under its key, in a \<open>dict\<close> in a \<open>plist\<close>.
\<close>

datatype plist_entry =
    PString string string
  | PArray string "string list"
  | PFlag string string
  | PDict string "(string \<times> string) list"

fun entry_key :: "plist_entry \<Rightarrow> string" where
  "entry_key (PString k _) = k"
| "entry_key (PArray k _) = k"
| "entry_key (PFlag k _) = k"
| "entry_key (PDict k _) = k"

definition element :: "string \<Rightarrow> xml_token list \<Rightarrow> xml_token list" where
  "element n ts = StartElement n # ts @ [EndElement]"

definition text_element :: "string \<Rightarrow> string \<Rightarrow> xml_token list" where
  "text_element n t = element n [CharData t]"

fun entry_tokens :: "plist_entry \<Rightarrow> xml_token list" where
  "entry_tokens (PString k v) = text_element ''key'' k @ text_element ''string'' v"
| "entry_tokens (PArray k vs) = text_element ''key'' k @ element ''array'' (concat (map (text_element ''string'') vs))"
| "entry_tokens (PFlag k n) = text_element ''key'' k @ element n []"
| "entry_tokens (PDict k kvs) =
     text_element ''key'' k @ element ''dict'' (concat (map (\<lambda>(k, v). text_element ''key'' k @ text_element ''string'' v) kvs))"

definition plist_tokens :: "plist_entry list \<Rightarrow> xml_token list" where
  "plist_tokens es = OtherToken # element ''plist'' (element ''dict'' (concat (map entry_tokens es)))"

fun entry_value :: "plist_entry \<Rightarrow> (string \<times> string) list" where
  "entry_value (PString k v) = [(k, trim_space v)]"
| "entry_value (PArray k vs) = (if k = ''ProgramArguments'' \<and> vs \<noteq> [] then [(k, trim_space (hd vs))] else [])"
| "entry_value _ = []"

fun wf_entry :: "plist_entry \<Rightarrow> bool" where
  "wf_entry (PFlag k n) = (k \<noteq> [] \<and> n \<noteq> ''key'' \<and> n \<noteq> ''string'')"
| "wf_entry (PDict k kvs) = (k \<noteq> [] \<and> k \<noteq> ''ProgramArguments'')"
| "wf_entry e = (entry_key e \<noteq> [])"

lemma plist_key [simp]:
  "plist_loop err (text_element ''key'' k @ ts) lvl key vals = plist_loop err ts lvl (if lvl = 2 then k else key) vals"
  by (subst plist_loop.simps) (simp add: text_element_def element_def)

lemma plist_string [simp]:
  "plist_loop err (text_element ''string'' v @ ts) lvl key vals =
     plist_loop err ts lvl key
       (if key \<noteq> [] \<and> (lvl = 2 \<or> (lvl = 3 \<and> key = ''ProgramArguments'')) \<and> map_of vals key = None
        then AList.update key (trim_space v) vals else vals)"
  by (subst plist_loop.simps) (simp add: text_element_def element_def)

lemma plist_start:
  "n \<noteq> ''key'' \<Longrightarrow> n \<noteq> ''string'' \<Longrightarrow>
   plist_loop err (StartElement n # ts) lvl key vals = plist_loop err ts (lvl + 1) key vals"
  by (subst plist_loop.simps) simp

lemma plist_end: "plist_loop err (EndElement # ts) lvl key vals = plist_loop err ts (lvl - 1) key vals"
  by (subst plist_loop.simps) simp

lemma plist_nested_dict:
  "plist_loop err (concat (map (\<lambda>(k, v). text_element ''key'' k @ text_element ''string'' v) kvs) @ ts) 3 key vals =
     plist_loop err ts 3 key vals" if "key \<noteq> ''ProgramArguments''"
  using that by (induction kvs) auto

lemma plist_array:
  "plist_loop err (concat (map (text_element ''string'') vs) @ ts) 3 key vals =
     plist_loop err ts 3 key
       (if key = ''ProgramArguments'' \<and> vs \<noteq> [] \<and> map_of vals key = None
        then AList.update key (trim_space (hd vs)) vals else vals)"
  by (induction vs arbitrary: vals) auto

lemma update_new: "map_of vals k = None \<Longrightarrow> AList.update k v vals = vals @ [(k, v)]"
  by (induction vals) (auto split: if_splits)

lemma plist_entry_step:
  assumes "wf_entry e" and "map_of vals (entry_key e) = None"
  shows "\<exists>key. plist_loop err (entry_tokens e @ ts) 2 key0 vals = plist_loop err ts 2 key (vals @ entry_value e)"
  using assms
  by (cases e) (auto simp: element_def plist_start plist_end plist_array plist_nested_dict update_new)

lemma plist_entries:
  assumes "list_all wf_entry es" and "distinct (map entry_key es)"
    and "\<And>e. e \<in> set es \<Longrightarrow> map_of vals (entry_key e) = None"
  shows "\<exists>key. plist_loop err (concat (map entry_tokens es) @ ts) 2 key0 vals =
    plist_loop err ts 2 key (vals @ concat (map entry_value es))"
  using assms
proof (induction es arbitrary: vals key0)
  case (Cons e es)
  obtain key where "plist_loop err (entry_tokens e @ concat (map entry_tokens es) @ ts) 2 key0 vals =
      plist_loop err (concat (map entry_tokens es) @ ts) 2 key (vals @ entry_value e)"
    using plist_entry_step [of e vals err "concat (map entry_tokens es) @ ts" key0] Cons.prems by auto
  moreover have new: "map_of (vals @ entry_value e) (entry_key e') = None" if "e' \<in> set es" for e'
  proof -
    have "entry_key e' \<noteq> entry_key e" using that Cons.prems(2) by (metis distinct.simps(2) image_eqI list.set_map list.simps(9))
    then show ?thesis using that Cons.prems(3) [of e'] by (cases e) auto
  qed
  moreover have "list_all wf_entry es" and "distinct (map entry_key es)" using Cons.prems(1,2) by simp_all
  from Cons.IH [OF this new, of key] obtain key' where "plist_loop err (concat (map entry_tokens es) @ ts) 2 key (vals @ entry_value e) =
      plist_loop err ts 2 key' ((vals @ entry_value e) @ concat (map entry_value es))"
    by blast
  ultimately show ?case by auto
qed auto

section \<open>Properties\<close>

text \<open>
  C17. The doctor's report, whatever it finds: every check has a name, one of the three statuses and one of
  the five sections, and names a repository exactly in the section of repositories; the checks are in the order of the sections; the
  summary counts them by status and misses none; and the command ends with exit status 1 exactly
  when a check has failed.
\<close>

theorem doctor_report_sound:
  "let (err, _, rep) = doctor io env json None w; cs = dr_Checks rep; u = dr_Summary rep in
     list_all wf_check cs \<and> sorted (map (\<lambda>c. rank (dc_Section c)) cs) \<and>
     du_OK u = with_status checkOK cs \<and> du_Warn u = with_status checkWarn cs \<and> du_Fail u = with_status checkFail cs \<and>
     du_OK u + du_Warn u + du_Fail u = length cs \<and>
     err = (if list_ex (\<lambda>c. dc_Status c = checkFail) cs then Some (ExitStatus 1) else None)"
proof -
  define checks where "checks = ds_checks (snd (run_state (doctor_checks io env) (doctor_start w)))"
  define cs where "cs = sort_key (\<lambda>c. rank (dc_Section c)) checks"
  have "list_all wf_check checks"
    using good_start(2) [OF good_doctor_checks] by (simp add: checks_def)
  then have wf: "list_all wf_check cs" by (simp add: cs_def list_all_iff)
  have "filter (\<lambda>c. dc_Status c = checkFail) cs = [] \<longleftrightarrow> \<not> list_ex (\<lambda>c. dc_Status c = checkFail) cs"
    by (simp add: filter_empty_conv list_ex_iff)
  moreover have "fst (run_state (runDoctor io env) (doctor_start w)) = make_report checks"
    by (simp add: runDoctor_def checks_def split_beta)
  moreover have "sorted (map (\<lambda>c. rank (dc_Section c)) cs)" by (simp add: cs_def)
  ultimately show ?thesis
    using wf statuses_partition [OF wf] by (auto simp: doctor_def report_of Let_def simp flip: cs_def)
qed

text \<open>
  C16. The doctor changes nothing: every command it starts, whatever the earlier ones answer, is one that
  only asks: for a version, for the state of the login, or a query of git.
\<close>

theorem doctor_only_asks:
  "list_all harmless (ds_trace (snd (run_state (runDoctor io env) (doctor_start w))))"
  using good_start(1) [OF good_doctor_checks] by (simp add: runDoctor_def split_beta)

text \<open>
  What the doctor reads from a LaunchAgent: of a property list of strings, arrays, flags and dictionaries, each
  under a key of its own, \<open>plistStrings\<close> gives the strings at the top level under their keys, without
  white space around them, and the first of the program's arguments; nothing from inside another array or
  dictionary.
\<close>

theorem plistStrings_reads:
  assumes "dio_tokens io content = (plist_tokens es, None)" and "list_all wf_entry es" and "distinct (map entry_key es)"
  shows "plistStrings io content = Inr (concat (map entry_value es))"
proof -
  obtain key where "plist_loop None (concat (map entry_tokens es) @ [EndElement, EndElement]) 2 [] [] =
      plist_loop None [EndElement, EndElement] 2 key (concat (map entry_value es))"
    using plist_entries [OF assms(2,3), of "[]" None "[EndElement, EndElement]" "[]"] by auto
  moreover have "plist_loop None (plist_tokens es) 0 [] [] =
      plist_loop None (concat (map entry_tokens es) @ [EndElement, EndElement]) 2 [] []"
    by (subst plist_loop.simps) (simp add: plist_tokens_def element_def plist_start)
  moreover have "plist_loop None [] 0 key vals = Inr vals" for vals by (subst plist_loop.simps) simp
  ultimately show ?thesis using assms(1) by (simp add: plistStrings_def plist_end)
qed


definition plist_io :: "plist_entry list \<Rightarrow> unit doctor_io" where
  "plist_io es =
     \<lparr>dio_run = \<lambda>w _. (\<lparr>rr_out = [], rr_err = [], rr_fail = None, rr_deadline = False\<rparr>, w),
      dio_stat = \<lambda>_ _. Inl (Plain []), dio_lstat = \<lambda>_ _. Inl (Plain []), dio_read = \<lambda>_ _. Inr [], dio_access = \<lambda>_ _. True,
      dio_lookpath = \<lambda>_ _. None, dio_paths = demo_paths, dio_environ = [], dio_config = \<lambda>_. Inl [],
      dio_tokens = \<lambda>_. (plist_tokens es, None), dio_connect = \<lambda>_. no_conn, dio_version = \<lambda>_. (None, 2, []), dio_quote = id\<rparr>"

theorem plistStrings_reads_witness:
  "plistStrings (plist_io [PString ''Label'' '' a '', PArray ''ProgramArguments'' [''/bin/d'', ''-x''], PFlag ''KeepAlive'' ''true'',
     PDict ''EnvironmentVariables'' [(''PATH'', ''/bin'')]]) [] = Inr [(''Label'', ''a''), (''ProgramArguments'', ''/bin/d'')]"
proof -
  let ?es = "[PString ''Label'' '' a '', PArray ''ProgramArguments'' [''/bin/d'', ''-x''], PFlag ''KeepAlive'' ''true'',
     PDict ''EnvironmentVariables'' [(''PATH'', ''/bin'')]]"
  have "concat (map entry_value ?es) = [(''Label'', ''a''), (''ProgramArguments'', ''/bin/d'')]" by code_simp
  moreover have "list_all wf_entry ?es" "distinct (map entry_key ?es)" by code_simp+
  ultimately show ?thesis using plistStrings_reads [of "plist_io ?es" "[]" ?es] by (simp add: plist_io_def)
qed

end
