(* ===== verification/App.thy ===== *)
theory App
  imports Program Doctor
begin

text \<open>
  \<open>main.go\<close>: the table of commands of the program, with the action behind each of them, and its exit status.

  \<open>urfave/cli\<close> finds the command by its name or an alias and parses the flags; a record \<open>invocation\<close> holds what it found. Its printer of
  the version is a parameter, as is what the world does while a command runs.
\<close>

section \<open>What a command is called with and how it ends\<close>

record invocation =
  iv_json :: bool
  iv_all :: bool
  iv_follow :: bool
  iv_force :: bool
  iv_n :: int
  iv_env :: "string list"
  iv_args :: "string list"

text \<open>
  \<open>Watches\<close>: the command goes on in \<open>WatchForChanges\<close> (\<open>Watch\<close>) with this configuration, until it is interrupted, and returns nil.
  \<open>Reports\<close>: the doctor, with its lines.
\<close>

datatype outcome = Ends "cli_error option" | Watches repo_config | Reports "cli_error option" "string list" doctor_report

record 'w app_env =
  ap_cli :: "'w cli_env"
  ap_doctor_io :: "'w doctor_io"
  ap_doctor_env :: doctor_env
  ap_report_error :: "cli_error option" \<comment> \<open>the error of printing the report as JSON\<close>
  ap_interrupted :: bool \<comment> \<open>reading the events ended with an interrupt\<close>
  ap_log :: "goerror + string" \<comment> \<open>\<open>os.ReadFile\<close> of the log\<close>
  ap_log_prev :: "nat option"
  ap_log_ticks :: "log_tick list"
  ap_version_line :: string

section \<open>Actions\<close>

definition ends :: "('w console, cli_error option) state \<Rightarrow> ('w console, outcome) state" where
  "ends m = do { err \<leftarrow> m; State_Monad.return (Ends err) }"

definition first_arg :: "string list \<Rightarrow> string" where
  "first_arg args = (case args of [] \<Rightarrow> [] | a # _ \<Rightarrow> a)"

definition watch_action :: "'w cli_env \<Rightarrow> ('w console, outcome) state" where
  "watch_action xe =
     do {
       cfg \<leftarrow> current_config xe;
       State_Monad.return (case cfg of Inl e \<Rightarrow> Ends (Some e) | Inr c \<Rightarrow> Watches c)
     }"

definition version_action :: "'w app_env \<Rightarrow> ('w console, outcome) state" where
  "version_action ap = do { print_out (Out (ap_version_line ap)); State_Monad.return (Ends None) }"

definition doctor_action :: "'w app_env \<Rightarrow> bool \<Rightarrow> ('w console, outcome) state" where
  "doctor_action ap json =
     ask (\<lambda>s. case doctor (ap_doctor_io ap) (ap_doctor_env ap) json (ap_report_error ap) (co_world s) of
                (err, lines, rep) \<Rightarrow> Reports err lines rep)"

type_synonym 'w action = "invocation \<Rightarrow> ('w console, outcome) state"

section \<open>The table\<close>

datatype 'w command =
  Command (cmd_name: string) (cmd_aliases: "string list") (cmd_flags: "(string \<times> string list) list")
    (cmd_action: "'w action option") (cmd_subs: "'w command list")

definition daemon_commands :: "'w app_env \<Rightarrow> 'w command list" where
  "daemon_commands ap =
     (let xe = ap_cli ap;
          json = (''json'', []); all = (''all'', []); follow = (''follow'', [''f''])
      in
       [Command ''status'' [] [json] (Some (\<lambda>iv. ends (daemonStatus xe (iv_json iv)))) [],
        Command ''list'' [''ls''] [json] (Some (\<lambda>iv. ends (daemonList xe (iv_json iv)))) [],
        Command ''add'' [] [] (Some (\<lambda>iv. ends (daemonAdd xe (iv_args iv)))) [],
        Command ''remove'' [''rm''] [] (Some (\<lambda>iv. ends (daemonRm xe (iv_args iv)))) [],
        Command ''sync'' [] [all, (''force'', [])] (Some (\<lambda>iv. ends (daemonSync xe (iv_all iv) (iv_force iv) (iv_args iv)))) [],
        Command ''pause'' [] [all] (Some (\<lambda>iv. ends (setPaused_cli xe (iv_all iv) (iv_args iv) True))) [],
        Command ''resume'' [] [all] (Some (\<lambda>iv. ends (setPaused_cli xe (iv_all iv) (iv_args iv) False))) [],
        Command ''events'' [] [(''n'', [''limit'']), follow, json]
          (Some (\<lambda>iv. ends (daemonEvents xe (ap_interrupted ap) (iv_n iv) (iv_follow iv) (iv_json iv) (first_arg (iv_args iv))))) [],
        Command ''logs'' [] [(''n'', []), follow]
          (Some (\<lambda>iv. ends (daemonLogs xe (iv_n iv) (iv_follow iv) (ap_log ap) (ap_log_prev ap) (ap_log_ticks ap)))) [],
        Command ''env'' [] [] (Some (\<lambda>iv. ends (daemonEnv xe (iv_args iv)))) [],
        Command ''enable'' [] [] (Some (\<lambda>iv. ends (enable_service xe))) [],
        Command ''disable'' [] [] (Some (\<lambda>iv. ends (disable_action xe))) [],
        Command ''start'' [] [] (Some (\<lambda>iv. ends (start_action xe))) [],
        Command ''stop'' [] [] (Some (\<lambda>iv. ends (stop_action xe))) [],
        Command ''restart'' [] [] (Some (\<lambda>iv. ends (restart_action xe))) []])"

definition app_commands :: "'w app_env \<Rightarrow> 'w command list" where
  "app_commands ap =
     (let xe = ap_cli ap
      in
       [Command ''watch'' [''monitor'', ''w'', ''m''] [] (Some (\<lambda>iv. watch_action xe)) [],
        Command ''sync'' [''s''] [(''env'', [''e''])] (Some (\<lambda>iv. ends (sync_action xe (iv_env iv)))) [],
        Command ''check'' [] [] (Some (\<lambda>iv. ends (check_action xe (first_arg (iv_args iv))))) [],
        Command ''doctor'' [] [(''json'', [])] (Some (\<lambda>iv. doctor_action ap (iv_json iv))) [],
        Command ''version'' [] [] (Some (\<lambda>iv. version_action ap)) [],
        Command ''daemon'' [''d''] [] None (daemon_commands ap)])"

text \<open>Which command the words of the command line name.\<close>

definition find_command :: "string \<Rightarrow> 'w command list \<Rightarrow> 'w command option" where
  "find_command n cs = find (\<lambda>c. cmd_name c = n \<or> n \<in> set (cmd_aliases c)) cs"

fun resolve_command :: "string list \<Rightarrow> 'w command list \<Rightarrow> 'w action option" where
  "resolve_command [] cs = None"
| "resolve_command (n # ns) cs =
     (case find_command n cs of
        None \<Rightarrow> None
      | Some c \<Rightarrow> if ns = [] then cmd_action c else resolve_command ns (cmd_subs c))"

text \<open>The end of \<open>main\<close>: what is printed on standard error, and the exit status.\<close>

definition main_exit :: "(string \<Rightarrow> string) \<Rightarrow> cli_error option \<Rightarrow> string option \<times> int" where
  "main_exit q err =
     (case err of
        None \<Rightarrow> (None, 0)
      | Some (ExitStatus n) \<Rightarrow> (None, n)
      | Some e \<Rightarrow> (Some (''error: '' @ cli_error_text q e), 1))"

section \<open>Commands that only show\<close>

definition show_requests :: "string list" where
  "show_requests = [CmdStatus, CmdList, CmdVersion, CmdEvents, CmdSubscribe]"

text \<open>The daemon leaves its files alone when it is asked one of them.\<close>

lemma keeps_files_on_daemon: "keeps dm_fs (on_daemon m)"
  by (simp add: keeps_def)

lemma keeps_files_canonicalRepo: "keeps dm_fs (canonicalRepo de q)"
  unfolding canonicalRepo_def lookupWatcher_def by (intro keeps_rules keeps_files_on_daemon)

lemma keeps_files_show:
  assumes "rq_Cmd req \<in> set show_requests"
  shows "keeps dm_fs (HandleCommand de log req)"
proof -
  consider "rq_Cmd req \<in> {CmdStatus, CmdList, CmdVersion, CmdSubscribe}" | "rq_Cmd req = CmdEvents"
    using assms by (auto simp: show_requests_def)
  then show ?thesis
  proof cases
    case 1
    then show ?thesis by (auto simp: HandleCommand_def command_names intro: keeps_rules)
  next
    case 2
    then show ?thesis
      by (cases log) (auto simp: HandleCommand_def command_names intro!: keeps_rules keeps_files_canonicalRepo)
  qed
qed

text \<open>
  What is assumed of the codec of requests: an encoded request is one line, and it is decoded to the
  command it was made from.
\<close>

definition request_codec :: "client_env \<Rightarrow> 'd server_env \<Rightarrow> bool" where
  "request_codec ce se \<longleftrightarrow>
     (\<forall>req line. ce_request ce req = Inr line \<longrightarrow> clean_line line \<and> rq_Cmd (fst (se_request se line)) = rq_Cmd req)"

lemma ReadLine_clean:
  assumes "clean_line l" and "0 < n"
  shows "fst (ReadLine n eof limit (l @ [CHR 0x0A])) \<in> {Line l, TooLarge}"
proof -
  have u: "upto_newline (l @ [CHR 0x0A]) = l" using assms(1) by (simp add: clean_line_def upto_newline_line)
  have "trim_suffix l [CHR 0x0D] = l" using assms(1) by (simp add: clean_line_def trim_suffix_def)
  then show ?thesis using assms(2) by (simp add: ReadLine_def read_line_loop_spec line_result_def u)
qed

lemma handle_client_files:
  assumes "rq_Cmd (fst (se_request se line)) \<in> set show_requests"
  shows "dm_fs (sv_daemon (handle_client (daemon_server_env de log se) i (Line line) sv)) = dm_fs (sv_daemon sv)"
proof (cases "request_of se (Line line)")
  case None
  then have "core (handle_client (daemon_server_env de log se) i (Line line) sv) = core sv" by (intro core_handle_client) simp
  then show ?thesis by (simp add: core_def)
next
  case (Some req)
  then have l: "trim_space line \<noteq> []" "se_request se line = (req, None)" "rq_Cmd req \<noteq> CmdSubscribe" "rq_Cmd req \<noteq> []"
    by (auto simp: request_of_def split: if_splits prod.splits option.splits)
  let ?se = "daemon_server_env de log se"
  obtain resp d where h: "run_state (HandleCommand de (Some log) req) (sv_daemon sv) = (resp, d)" by force
  have "dm_fs d = dm_fs (sv_daemon sv)"
    using keepsD [OF keeps_files_show, of req de "Some log" "sv_daemon sv"] assms l(2) h by simp
  moreover have "dispatch ?se req (sv_daemon sv) = (resp, d)"
    using h l(4) by (simp add: dispatch_def daemon_server_env_def)
  then have "handle_client ?se i (Line line) sv = reply ?se i (resp\<lparr>rp_ID := rq_ID req\<rparr>) (sv\<lparr>sv_daemon := d\<rparr>)"
    using l(1-3) by (simp add: handle_client_def handle_read_def reply_def daemon_server_env_def Let_def)
  then have "sv_daemon (handle_client ?se i (Line line) sv) = d"
    using core_reply [of ?se i "resp\<lparr>rp_ID := rq_ID req\<rparr>" "sv\<lparr>sv_daemon := d\<rparr>"] by (simp add: core_def)
  ultimately show ?thesis by simp
qed

lemma show_connection:
  assumes codec: "request_codec ce se" and "0 < n" and "rq_Cmd req \<in> set show_requests"
  shows "snd (snd (daemon_connection de se ce n req sv fs)) = fs"
proof -
  obtain req' c where id: "nextID req new_client = (req', c)" by force
  have cmd: "rq_Cmd req' = rq_Cmd req" and out: "cl_out c = []"
    using id by (auto simp: nextID_def split: if_splits)
  show ?thesis
  proof (cases "write_client ce req' c")
    case (Pair err c')
    show ?thesis
    proof (cases err)
      case None
      let ?sv = "sv\<lparr>sv_daemon := (sv_daemon sv)\<lparr>dm_fs := fs\<rparr>\<rparr>"
      let ?i = "fresh_conn ?sv"
      obtain line where line: "ce_request ce req' = Inr line" "cl_out c' = line @ [CHR 0x0A]"
        using Pair None out by (auto simp: write_client_def split: sum.splits option.splits)
      have cl: "clean_line line" "rq_Cmd (fst (se_request se line)) \<in> set show_requests"
        using codec line(1) cmd assms(3) unfolding request_codec_def by auto
      have acc: "sv_daemon (accept i u) = sv_daemon u" for i and u :: "'a daemon server"
        using core_fields(5) [of i u] by (simp add: core_def)
      have tl: "sv_daemon (handle_client (daemon_server_env de l se) i TooLarge u) = sv_daemon u" for l i and u :: "'a daemon server"
        using core_handle_client [of "daemon_server_env de l se" TooLarge i u] by (simp add: core_def request_of_def)
      have "dm_fs (sv_daemon (snd (serve de se n (cl_out c') ?sv))) = fs"
        using ReadLine_clean [OF cl(1) assms(2), of True MaxRequestSize] handle_client_files [where se = se and de = de, OF cl(2)]
        by (auto simp: serve_def Let_def line(2) acc tl)
      then show ?thesis using id Pair None by (cases "serve de se n (cl_out c') ?sv") (simp add: daemon_connection_def)
    qed (use id Pair in \<open>simp add: daemon_connection_def\<close>)
  qed
qed

text \<open>The commands of the program, given that.\<close>

definition only_shows :: "'w cli_env \<Rightarrow> bool" where
  "only_shows xe \<longleftrightarrow> (\<forall>req w fs. rq_Cmd req \<in> set show_requests \<longrightarrow> snd (snd (xe_connect xe req w fs)) = fs)"

lemma keeps_files_console: "keeps co_fs (on_console m)"
  by (simp add: keeps_def on_console_def split: prod.split)

lemma keeps_files_print [keeps_rules]: "keeps co_fs (print_out x)" "keeps co_fs (print_all ps)"
  by (simp_all add: keeps_def print_out_def print_all_def)

lemma keeps_files_lines [keeps_rules]: "keeps co_fs (print_lines ls)"
  by (induction ls) (auto intro: keeps_rules)

lemma keeps_files_connect:
  assumes "only_shows xe" and "rq_Cmd req \<in> set show_requests"
  shows "keeps co_fs (connect xe req)"
proof -
  have "snd (snd (xe_connect xe req w fs)) = fs" for w fs using assms unfolding only_shows_def by blast
  then show ?thesis by (auto simp: keeps_def connect_def split: prod.split) (metis snd_conv)
qed

lemma keeps_files_call:
  assumes "only_shows xe" and "rq_Cmd req \<in> set show_requests"
  shows "keeps co_fs (callDaemon xe req)" and "keeps co_fs (mustDaemon xe req)"
proof -
  show c: "keeps co_fs (callDaemon xe req)"
    unfolding callDaemon_def by (intro keeps_rules keeps_files_connect assms)
  show "keeps co_fs (mustDaemon xe req)"
    unfolding mustDaemon_def by (intro keeps_rules c)
qed

lemma in_show: "CmdStatus \<in> set show_requests" "CmdList \<in> set show_requests" "CmdEvents \<in> set show_requests"
  "CmdSubscribe \<in> set show_requests"
  by (simp_all add: show_requests_def)

lemma request_cmd [simp]: "rq_Cmd (request cmd) = cmd" "rq_Cmd subscribe_request = CmdSubscribe"
  by (simp_all add: request_def subscribe_request_def)

lemma keeps_files_json [keeps_rules]: "keeps co_fs (printJSON xe v)" "keeps co_fs (printRawJSON xe raw)"
  unfolding printRawJSON_def printJSON_def by (intro keeps_rules)+

lemma keeps_files_config [keeps_rules]: "keeps co_fs (cfg_Read_cli xe)"
  unfolding cfg_Read_cli_def by (intro keeps_rules)

lemma keeps_files_status:
  assumes "only_shows xe" shows "keeps co_fs (daemonStatus xe json)" and "keeps co_fs (daemonList xe json)"
proof -
  show "keeps co_fs (daemonStatus xe json)"
    unfolding daemonStatus_def status_json_def status_text_def print_table_def
    by (intro keeps_rules keeps_files_call [OF assms]) (simp_all add: in_show)
  show "keeps co_fs (daemonList xe json)"
    unfolding daemonList_def list_fallback_def print_table_def
    by (intro keeps_rules keeps_files_call [OF assms]) (simp_all add: in_show)
qed

lemma keeps_files_current: "keeps co_fs (current_repo xe)" "keeps co_fs (current_config xe)"
proof -
  show r: "keeps co_fs (current_repo xe)"
    unfolding current_repo_def by (intro keeps_rules keeps_files_console)
  show "keeps co_fs (current_config xe)"
    unfolding current_config_def by (intro keeps_rules keeps_files_console r)
qed

lemma keeps_files_events:
  assumes "only_shows xe" shows "keeps co_fs (daemonEvents xe interrupted n follow json arg)"
proof -
  have "keeps co_fs (resolveRepoArg xe arg)"
    unfolding resolveRepoArg_def resolveTracked_def by (intro keeps_rules keeps_files_console)
  moreover have "keeps co_fs (follow_gap xe rp after lastID)" for rp after lastID
    unfolding follow_gap_def by (intro keeps_rules keeps_files_call [OF assms]) (simp add: in_show)
  then have "keeps co_fs (followEvents xe interrupted json rp after)" for rp after
    unfolding followEvents_def by (intro keeps_rules keeps_files_connect [OF assms]) (simp_all add: in_show)
  ultimately show ?thesis
    unfolding daemonEvents_def by (intro keeps_rules keeps_files_call [OF assms]) (simp_all add: in_show)
qed

lemma keeps_files_others:
  "keeps co_fs (daemonLogs xe n follow content prev ticks)" "keeps co_fs (check_action xe arg)" "keeps co_fs (watch_action xe)"
  "keeps co_fs (version_action ap)" "keeps co_fs (doctor_action ap json)" "keeps co_fs (daemonEnv xe [])"
proof -
  show "keeps co_fs (daemonLogs xe n follow content prev ticks)" unfolding daemonLogs_def by (intro keeps_rules)
  show "keeps co_fs (check_action xe arg)"
    unfolding check_action_def
    by (intro keeps_rules keeps_files_current) (simp add: keeps_def split: prod.split)
  show "keeps co_fs (watch_action xe)" unfolding watch_action_def by (intro keeps_rules keeps_files_current)
  show "keeps co_fs (version_action ap)" "keeps co_fs (doctor_action ap json)"
    unfolding version_action_def doctor_action_def by (intro keeps_rules)+
  show "keeps co_fs (daemonEnv xe [])" by (auto simp: daemonEnv_def env_lines_def intro!: keeps_rules)
qed

lemma keeps_files_ends: "keeps co_fs m \<Longrightarrow> keeps co_fs (ends m)"
  unfolding ends_def by (intro keeps_rules)

definition showing :: "string list list" where
  "showing = [[''watch''], [''check''], [''doctor''], [''version''], [''daemon'', ''status''], [''daemon'', ''list''], [''d'', ''ls''],
     [''daemon'', ''events''], [''daemon'', ''logs'']]"

section \<open>Properties\<close>

text \<open>
  C18. The commands that show something write no file: not the command by itself, with the daemon running or not, nor
  the daemon behind the socket because of it. So do checking a file, the doctor, the version, and \<open>daemon env\<close> without
  arguments; watching writes none before it begins.
\<close>

theorem showing_writes_no_file:
  assumes "xe_connect (ap_cli ap) = daemon_connection de se ce n" and "0 < n" and "request_codec ce se"
    and "resolve_command path (app_commands ap) = Some act" and "path \<in> set showing \<or> path = [''daemon'', ''env''] \<and> iv_args iv = []"
  shows "co_fs (snd (run_state (act iv) s)) = co_fs s"
proof -
  let ?xe = "ap_cli ap"
  have o: "only_shows ?xe"
    using show_connection [OF assms(3,2)] assms(1) by (simp add: only_shows_def)
  have "keeps co_fs (act iv)"
    using assms(4,5)
    by (auto simp: showing_def app_commands_def daemon_commands_def find_command_def Let_def
        intro!: keeps_files_ends keeps_files_status [OF o] keeps_files_events [OF o] keeps_files_others)
  then show ?thesis by (rule keepsD)
qed

text \<open>A codec whose lines are the commands, and the list of the repositories.\<close>

definition show_ce :: client_env where
  "show_ce = demo_client_env\<lparr>ce_request := \<lambda>req.
     if clean_line (''x'' @ rq_Cmd req) then Inr (''x'' @ rq_Cmd req) else Inl (ClientIO ''no line'')\<rparr>"

definition show_se :: "unit daemon server_env" where
  "show_se = net_se\<lparr>se_request := \<lambda>l. (request (tl l), None)\<rparr>"

definition show_app :: "unit daemon server app_env" where
  "show_app =
     \<lparr>ap_cli = net_xe\<lparr>xe_connect := daemon_connection net_de show_se show_ce 16\<rparr>,
      ap_doctor_io =
        \<lparr>dio_run = \<lambda>w _. (\<lparr>rr_out = [], rr_err = [], rr_fail = None, rr_deadline = False\<rparr>, w), dio_stat = \<lambda>_ _. Inl (Plain ''e''), dio_lstat = \<lambda>_ _. Inl (Plain ''e''),
         dio_read = \<lambda>_ _. Inl (Plain ''e''), dio_access = \<lambda>_ _. False, dio_lookpath = \<lambda>_ _. None,
         dio_paths = \<lparr>pe_cwd = \<lambda>_. Inr ''/r'', pe_eval = \<lambda>_ p. Some p\<rparr>, dio_environ = [], dio_config = \<lambda>_. Inl [],
         dio_tokens = \<lambda>_. ([], None), dio_connect = \<lambda>_. (show_ce, [], None), dio_version = \<lambda>_. (None, 2, ''dev''), dio_quote = \<lambda>t. t\<rparr>,
      ap_doctor_env = newDoctorEnv demo_places ''/c'' ''/x'' ''dev'', ap_report_error = None, ap_interrupted = True, ap_log = Inr [],
      ap_log_prev = None, ap_log_ticks = [], ap_version_line = ''dev''\<rparr>"

theorem showing_writes_no_file_witness:
  "\<exists>act. resolve_command [''d'', ''ls''] (app_commands show_app) = Some act \<and>
     (let iv = \<lparr>iv_json = False, iv_all = False, iv_follow = False, iv_force = False, iv_n = 0, iv_env = [], iv_args = []\<rparr>;
          s = snd (run_state (act iv) (flag_console net_server))
      in co_fs s = co_fs (flag_console net_server))"
proof -
  let ?iv = "\<lparr>iv_json = False, iv_all = False, iv_follow = False, iv_force = False, iv_n = 0, iv_env = [], iv_args = []\<rparr>"
  let ?act = "\<lambda>iv. ends (daemonList (ap_cli show_app) (iv_json iv))"
  have r: "resolve_command [''d'', ''ls''] (app_commands show_app) = Some ?act"
    by (simp add: app_commands_def daemon_commands_def find_command_def Let_def)
  have codec: "request_codec show_ce show_se"
    by (simp add: request_codec_def show_ce_def show_se_def)
  have conn: "xe_connect (ap_cli show_app) = daemon_connection net_de show_se show_ce 16"
    by (simp add: show_app_def)
  have path: "[''d'', ''ls''] \<in> set showing \<or> [''d'', ''ls''] = [''daemon'', ''env''] \<and> iv_args ?iv = []"
    by (simp add: showing_def)
  show ?thesis
    using r showing_writes_no_file [OF conn _ codec r path, of "flag_console net_server"] unfolding Let_def by (intro exI [of _ ?act]) simp
qed

end
