(* ===== verification/Spec2Isabelle.thy ===== *)
theory Spec2Isabelle
  imports App Program Logging
begin

text \<open>
  A verification of git-auto-sync, a program that keeps git repositories in sync with their remotes:
  it commits what changes in the folder, rebases on the remote's branch and pushes.

  \<^bold>\<open>The program.\<close> A daemon watches every repository of a configuration file. For each of them it runs a
  scheduler (\<open>common/watch.go\<close>) that is driven by file events, timers, wake-ups and requests, and that starts one sync
  (\<open>common/autosync.go\<close>) at a time; a sync runs git (\<open>common/git.go\<close>) through its steps and records the outcome in
  a store of repository states (\<open>common/repostate.go\<close>) and in a log of events (\<open>common/events.go\<close>). The store notifies
  its listeners, the log is kept in a file, and both are sent to the subscribers of a Unix socket (\<open>common/socket.go\<close>), on
  which the daemon also answers commands (\<open>daemon/commands.go\<close>, \<open>daemon/socket.go\<close>). What must survive a restart, the pause flags, the times and
  the conflicts, is saved to a file (\<open>common/repostate_persist.go\<close>, \<open>daemon/state.go\<close>). The command line
  (\<open>main.go\<close>, \<open>daemon.go\<close>) sends commands to the daemon, or does the work itself when no daemon runs;
  \<open>doctor.go\<close> checks an installation.

  \<^bold>\<open>The theories,\<close> in the order in which they build on each other.

  \<^item> \<open>Prelude\<close>: the integer types of Go, the state monad's shared vocabulary (\<open>ask\<close>, \<open>upd\<close>), lemmas on lists and maps, and the
    locales \<open>step_system\<close> and \<open>step_invariant\<close> for step relations and their invariants.
  \<^item> \<open>GoStd\<close>, \<open>GoPath\<close>: what the sources use of Go's \<open>strings\<close>, \<open>bytes\<close>, \<open>strconv\<close>, \<open>utf8\<close>, \<open>time\<close> and \<open>path/filepath\<close>.
  \<^item> \<open>Events\<close> (\<open>events.go\<close>): the ring of events with its file. The locale \<open>bounded_log\<close> states what a log with a
    capacity keeps; the ring is an interpretation. What \<open>Since\<close> returns, and that a reopened log holds what was appended.
  \<^item> \<open>RepoState\<close> (\<open>repostate.go\<close>): the store and every operation on it; the locale \<open>keyed_store\<close> with the store as its
    interpretation. Every state is consistent after any operations, and listeners see the current state.
  \<^item> \<open>Persist\<close>, \<open>Config\<close> (\<open>atomicfile.go\<close>, \<open>repostate_persist.go\<close>, \<open>config/\<close>): replacing a file on a file
    system of which every call can fail, what is saved of the store, and the configuration. Atomicity and round trips.
  \<^item> \<open>Errors\<close>, \<open>Classify\<close> (\<open>classify.go\<close>, \<open>author.go\<close>): errors as a datatype with their wrapping, and their codes and messages.
  \<^item> \<open>RepoConfig\<close> (\<open>repoconfig.go\<close>): the settings of a repository, with their bounds.
  \<^item> \<open>Git\<close>, \<open>GitRoot\<close> (\<open>git.go\<close>, \<open>gitroot.go\<close>): running git with its environment, time limits and
    retries; the root of a repository. One call starts at most five processes.
  \<^item> \<open>Commit\<close>, \<open>Rebase\<close>, \<open>AutoSync\<close> (\<open>commit.go\<close>, \<open>rebase.go\<close>, \<open>fetch.go\<close>, \<open>branchinfo.go\<close>, \<open>preflight.go\<close>,
    \<open>push.go\<close>, \<open>autosync.go\<close>): the steps of a sync and the sync. A commit is reported exactly when it was made; a rebase
    that stops is aborted; a known conflict is not tried again; every outcome settles the repository's state; a
    cancelled sync leaves it as it was; a local sync uses no network; at most three pushes.
  \<^item> \<open>Scheduler\<close>, \<open>Ignore\<close>, \<open>Watch\<close> (\<open>watch.go\<close>, \<open>repomissing.go\<close>, \<open>ignore.go\<close>): when a sync is started. The
    scheduler's loop is a function for each of its cases and a step relation around them, the life of a watcher another
    one. The locale \<open>backoff\<close> is interpreted for both back-offs. Nothing syncs while paused, a failure holds full syncs back, a folder that comes back is noticed,
    and the cache of ignored files answers as git does.
  \<^item> \<open>Socket\<close>, \<open>SocketClient\<close> (\<open>protocol.go\<close>, \<open>socket.go\<close>, \<open>socket_client.go\<close>): the server as a step relation over connections
    with bounded queues, and the client. No send on a closed channel, every subscriber's stream is
    complete and in order, and a command is answered to the client that sent it.
  \<^item> \<open>Daemon\<close>, \<open>Commands\<close> (\<open>daemon/main.go\<close>, \<open>daemon/state.go\<close>, \<open>daemon/commands.go\<close>, \<open>daemon/socket.go\<close>, \<open>daemon/netwatch.go\<close>):
    the watchers and their goroutines as a step relation, reconciling, restarting, saving, and every command.
    At most one watcher works on a repository, the state file is not lost, a restart keeps the state, and
    every command only does what the steps of the daemon do, so that the invariants hold whatever clients send.
  \<^item> \<open>SaveLoop\<close> (\<open>daemon/state.go\<close>): the loop that saves the state with a delay, over time. No change stays unsaved.
  \<^item> \<open>Startup\<close>, \<open>Program\<close> (\<open>daemon/socket.go\<close>, \<open>daemon/main.go\<close>, \<open>daemon/logging.go\<close>, \<open>awake_notifier_*.go\<close>): waiting for the socket,
    the emitters, the wake-ups, and the process, in which the daemon, its server and its goroutines take their steps beside each
    other. The wait ends; what the daemon emits is what its subscribers are sent.
  \<^item> \<open>Logging\<close> (\<open>logging.go\<close>): the rotated log holds the latest text.
  \<^item> \<open>CliText\<close>, \<open>Service\<close>, \<open>Cli\<close> (\<open>daemon.go\<close>, \<open>main.go\<close>, \<open>service.go\<close>): what is printed, the service manager, and the
    commands. Adding and removing without a daemon, following events without a gap or a repetition, following the log
    over a rotation, quoting for the shell, hiding credentials.
  \<^item> \<open>Doctor\<close> (\<open>doctor.go\<close>): every check and the report. The report counts every check, the exit
    status says whether one failed, and the doctor only asks.
  \<^item> \<open>System\<close>: the command line, its client, the server and the daemon composed. A command over the socket does what the
    daemon's handler does, and what \<open>daemon add\<close> reports as monitored is watched.
  \<^item> \<open>App\<close> (\<open>main.go\<close>): the table of commands and the exit status. What only shows writes no file, on neither side of the socket.

  \<^bold>\<open>How the model relates to the code.\<close> A struct is a record whose fields carry the Go name behind a prefix, an
  operation is one definition with the name of the Go function (with a suffix where two have the same one), and
  parts of a long function have definitions of their own that the function's definition composes. State is passed in the state
  monad over a record: \<open>sys\<close> (the world, the store, the log of events, the commands run), \<open>daemon\<close>, \<open>server\<close>, \<open>console\<close>, \<open>doctor_run\<close>. Errors are values of
  \<open>goerror\<close> in a sum or an option. A mutex that is held during an operation makes it one atomic step; where the code releases
  it in between, the steps are separate and other steps may happen between them. Goroutines and channels are steps of a relation. An \<open>int64\<close> that may
  overflow is wrapped where it is computed (\<open>wrap64\<close>); strings are lists of bytes.

  \<^bold>\<open>Parameters.\<close> What is not in the sources is a field of a record that the definitions take: \<open>env\<close> (processes, clocks, cancelling,
  files), \<open>path_env\<close> (the working directory, symbolic links), \<open>atomic_env\<close>, \<open>log_env\<close> (system calls that may fail), \<open>daemon_env\<close>,
  \<open>server_env\<close>, \<open>client_env\<close>, \<open>cli_env\<close>, \<open>doctor_io\<close> and \<open>service_api\<close>. The JSON and XML codecs, the quoting of \<open>%q\<close> and the
  service package are such fields. A theorem that relies on one of them says so in a hypothesis, e.g. that a decoder inverts its encoder
  (\<open>encodes\<close>, \<open>config_io\<close>, \<open>request_codec\<close>), that a temporary file has a name of its own (\<open>temp_ok\<close>) or what the service package documents
  (\<open>service_laws\<close>), and its witness applies it to a concrete instance.

  \<^bold>\<open>Bounds.\<close> Loops are recursive functions with a termination proof; no fuel limits what a theorem says. The bounds are the code's own: five attempts
  of a git command, three of a push, 256 messages in a connection's queue, socket paths of 103 bytes,
  requests of 1 MiB, frames of 16 MiB, back-offs between their minimum and maximum, fifteen seconds for the socket and two before a save, and the size and number of log files.

  \<^bold>\<open>Not modelled.\<close> Calls of platform libraries: process groups (\<open>git_unix.go\<close>, \<open>git_windows.go\<close>), the delivery of
  signals (\<open>daemon/signals_*.go\<close>; a reload is a step), what reports the wake-ups, and the variants for Windows of paths. The parser of
  \<open>urfave/cli\<close>, whose result is a record, and the service package around the \<open>main\<close> of the daemon. The delay before a goroutine is scheduled: a step may happen at
  any time. The layout of \<open>text/tabwriter\<close>. Floating-point rounding beyond what the printed digits show. The menu bar
  application, which is not written in Go, and shell completions.
\<close>

end
